(* ===== verification/Prelude.thy ===== *)
theory Prelude
  imports
    Main
    "HOL-Library.Word"
    "HOL-Library.AList"
    "HOL-Library.Char_ord"
    "HOL-Library.List_Lexorder"
begin

text \<open>
  What every component of the development shares: the program's integer and identifier types,
  Go's error values, the computation type in which the database-backed operations are written,
  its weakest preconditions and frame rules, and a few facts on words and lists.
\<close>

named_theorems wp_simps \<open>weakest preconditions of the computation combinators\<close>
named_theorems frame \<open>what a computation leaves as it was\<close>

section \<open>Scalars\<close>

text \<open>
  \<open>uuid.UUID\<close> is a \<open>[16]byte\<close>, ordered by Postgres as the 128-bit number it spells.
  \<open>ledger.Money\<close> is an \<open>int64\<close> and so is the \<open>BIGINT\<close> column behind it. Times and durations
  are nanosecond counts; a Go string is its bytes.
\<close>

type_synonym uuid = "128 word"
type_synonym money = "64 word"
type_synonym instant = int
type_synonym duration = int

definition fits64 :: "int \<Rightarrow> bool" where
  "fits64 i \<longleftrightarrow> - (2 ^ 63) \<le> i \<and> i < 2 ^ 63"

text \<open>What Go's \<open>int64\<close> arithmetic leaves of an exact result.\<close>

definition wrap64 :: "int \<Rightarrow> int" where
  "wrap64 i = signed_take_bit 63 i"

section \<open>Error values\<close>

text \<open>
  A Postgres statement fails because the server could not be reached or lost the connection,
  because of a constraint, because it names no table or a negative row count, because it returned
  no row to scan, or because a returned value does not fit the Go variable it is scanned into.
\<close>

datatype pg_error =
    Unavailable
  | UniqueViolation string
  | ForeignKeyViolation string
  | CheckViolation string
  | UndefinedTable string
  | InvalidLimit
  | NoRows
  | ScanRange

text \<open>
  A Go \<open>error\<close>: a sentinel made by \<open>errors.New\<close>, an error that wraps another one between two
  pieces of text (\<open>fmt.Errorf\<close> with \<open>%w\<close>), an error of the database driver, or one of another
  library, by its message.
\<close>

datatype error = New string | Errorf string error string | Pg pg_error | Lib string

fun errors_Is :: "error \<Rightarrow> error \<Rightarrow> bool" where
  "errors_Is (Errorf p e q) t = (Errorf p e q = t \<or> errors_Is e t)"
| "errors_Is e t = (e = t)"

lemma errors_Is_refl [simp]: "errors_Is e e"
  by (cases e) simp_all

text \<open>The text of an error; \<open>pgmsg\<close> is the driver's text for its own errors.\<close>

fun Error :: "(pg_error \<Rightarrow> string) \<Rightarrow> error \<Rightarrow> string" where
  "Error pgmsg (New s) = s"
| "Error pgmsg (Errorf p e q) = p @ Error pgmsg e @ q"
| "Error pgmsg (Pg e) = pgmsg e"
| "Error pgmsg (Lib s) = s"

section \<open>Computations\<close>

text \<open>
  A Go function that returns \<open>(value, error)\<close> and changes state on the way: from a state to an
  error (\<open>Inl\<close>) or a value (\<open>Inr\<close>), and the state afterwards in either case. \<open>bindC m f\<close> is the
  idiom \<open>x, err := m; if err != nil { return err }; f(x)\<close>, \<open>wrapE g m\<close> returns \<open>g(err)\<close> for the
  error, \<open>attempt m\<close> hands both outcomes to the caller, and \<open>mapC f xs\<close> is the loop that stops at
  the first error.
\<close>

type_synonym ('s, 'e, 'a) comp = "'s \<Rightarrow> ('e + 'a) \<times> 's"

definition ok :: "'a \<Rightarrow> ('s, 'e, 'a) comp" where
  "ok a = (\<lambda>s. (Inr a, s))"

definition raise :: "'e \<Rightarrow> ('s, 'e, 'a) comp" where
  "raise e = (\<lambda>s. (Inl e, s))"

definition bindC :: "('s, 'e, 'a) comp \<Rightarrow> ('a \<Rightarrow> ('s, 'e, 'b) comp) \<Rightarrow> ('s, 'e, 'b) comp" where
  "bindC m f = (\<lambda>s. case m s of (Inl e, s') \<Rightarrow> (Inl e, s') | (Inr a, s') \<Rightarrow> f a s')"

definition wrapE :: "('e \<Rightarrow> 'f) \<Rightarrow> ('s, 'e, 'a) comp \<Rightarrow> ('s, 'f, 'a) comp" where
  "wrapE g m = (\<lambda>s. case m s of (Inl e, s') \<Rightarrow> (Inl (g e), s') | (Inr a, s') \<Rightarrow> (Inr a, s'))"

definition attempt :: "('s, 'e, 'a) comp \<Rightarrow> ('s, 'f, 'e + 'a) comp" where
  "attempt m = (\<lambda>s. case m s of (r, s') \<Rightarrow> (Inr r, s'))"

fun mapC :: "('x \<Rightarrow> ('s, 'e, 'a) comp) \<Rightarrow> 'x list \<Rightarrow> ('s, 'e, 'a list) comp" where
  "mapC f [] = ok []"
| "mapC f (x # xs) = bindC (f x) (\<lambda>a. bindC (mapC f xs) (\<lambda>as. ok (a # as)))"

definition ofOption :: "'e option \<Rightarrow> ('s, 'e, unit) comp" where
  "ofOption r = (case r of None \<Rightarrow> ok () | Some e \<Rightarrow> raise e)"

section \<open>Weakest preconditions\<close>

text \<open>
  \<open>wp m Q R s\<close>: started in \<open>s\<close>, the computation ends in a value and state that satisfy \<open>Q\<close> or in
  an error and state that satisfy \<open>R\<close>. Computations are total, so this is total correctness.
\<close>

definition wp :: "('s, 'e, 'a) comp \<Rightarrow> ('a \<Rightarrow> 's \<Rightarrow> bool) \<Rightarrow> ('e \<Rightarrow> 's \<Rightarrow> bool) \<Rightarrow> 's \<Rightarrow> bool" where
  "wp m Q R s \<longleftrightarrow> (case m s of (Inl e, s') \<Rightarrow> R e s' | (Inr a, s') \<Rightarrow> Q a s')"

text \<open>\<open>keeps f m\<close>: whatever happens, \<open>m\<close> leaves the part \<open>f\<close> of the state as it was.\<close>

definition keeps :: "('s \<Rightarrow> 'x) \<Rightarrow> ('s, 'e, 'a) comp \<Rightarrow> bool" where
  "keeps f m \<longleftrightarrow> (\<forall>s. f (snd (m s)) = f s)"

lemma wp_ok [wp_simps]: "wp (ok a) Q R = Q a"
  by (simp add: wp_def ok_def fun_eq_iff)

lemma wp_raise [wp_simps]: "wp (raise e) Q R = R e"
  by (simp add: wp_def raise_def fun_eq_iff)

lemma wp_bindC [wp_simps]: "wp (bindC m f) Q R = wp m (\<lambda>a. wp (f a) Q R) R"
  by (simp add: wp_def bindC_def fun_eq_iff split: prod.splits sum.splits)

lemma wp_wrapE [wp_simps]: "wp (wrapE g m) Q R = wp m Q (\<lambda>e. R (g e))"
  by (simp add: wp_def wrapE_def fun_eq_iff split: prod.splits sum.splits)

lemma wp_attempt [wp_simps]:
  "wp (attempt m) Q R = wp m (\<lambda>a. Q (Inr a)) (\<lambda>e. Q (Inl e))"
  by (simp add: wp_def attempt_def fun_eq_iff split: prod.splits sum.splits)

lemma wp_if [wp_simps]: "wp (if b then m else n) Q R = (if b then wp m Q R else wp n Q R)"
  by simp

lemma wp_case_option [wp_simps]:
  "wp (case x of None \<Rightarrow> m | Some y \<Rightarrow> n y) Q R =
   (case x of None \<Rightarrow> wp m Q R | Some y \<Rightarrow> wp (n y) Q R)"
  by (simp split: option.splits)

lemma wp_case_sum [wp_simps]:
  "wp (case x of Inl e \<Rightarrow> m e | Inr y \<Rightarrow> n y) Q R =
   (case x of Inl e \<Rightarrow> wp (m e) Q R | Inr y \<Rightarrow> wp (n y) Q R)"
  by (simp split: sum.splits)

lemma wp_case_prod [wp_simps]:
  "wp (case x of (a, b) \<Rightarrow> m a b) Q R = (case x of (a, b) \<Rightarrow> wp (m a b) Q R)"
  by (simp split: prod.splits)

lemma wp_ofOption [wp_simps]:
  "wp (ofOption r) Q R = (case r of None \<Rightarrow> Q () | Some e \<Rightarrow> R e)"
  by (simp add: ofOption_def wp_ok wp_raise split: option.splits)

lemma wp_mono:
  assumes "wp m Q R s"
    and "\<And>a s'. Q a s' \<Longrightarrow> Q' a s'"
    and "\<And>e s'. R e s' \<Longrightarrow> R' e s'"
  shows "wp m Q' R' s"
  using assms by (auto simp: wp_def split: prod.splits sum.splits)

lemma wp_conj:
  assumes "wp m Q R s" and "wp m Q' R' s"
  shows "wp m (\<lambda>a s'. Q a s' \<and> Q' a s') (\<lambda>e s'. R e s' \<and> R' e s') s"
  using assms by (auto simp: wp_def split: prod.splits sum.splits)

lemma wp_resultD:
  assumes "wp m Q R s"
  shows "m s = (Inr a, s') \<Longrightarrow> Q a s'" and "m s = (Inl e, s') \<Longrightarrow> R e s'"
  using assms by (auto simp: wp_def)

text \<open>The loop rule: an invariant that a step keeps when it returns a value, indexed by what was done.\<close>

lemma wp_mapC:
  assumes "I [] [] s"
    and "\<And>xs ys x s'. I xs ys s' \<Longrightarrow> (\<exists>zs. vs = xs @ x # zs) \<Longrightarrow>
      wp (f x) (\<lambda>a s''. I (xs @ [x]) (ys @ [a]) s'') R s'"
  shows "wp (mapC f vs) (\<lambda>as s'. I vs as s') R s"
proof -
  have "wp (mapC f zs) (\<lambda>as s'. I vs (ys @ as) s') R s'"
    if "vs = xs @ zs" and "I xs ys s'" for xs ys zs s'
    using that
  proof (induction zs arbitrary: xs ys s')
    case Nil
    then show ?case by (simp add: wp_simps)
  next
    case (Cons z zs)
    have "wp (f z) (\<lambda>a s''. I (xs @ [z]) (ys @ [a]) s'') R s'"
      using Cons.prems assms(2) by blast
    moreover have "wp (mapC f zs) (\<lambda>as s'. I vs (ys @ [a] @ as) s') R s''"
      if "I (xs @ [z]) (ys @ [a]) s''" for a s''
      using Cons.IH [of "xs @ [z]" "ys @ [a]" s''] Cons.prems(1) that by simp
    ultimately show ?case
      by (simp add: wp_simps) (erule wp_mono; simp)
  qed
  from this [of "[]" vs "[]" s] assms(1) show ?thesis by simp
qed

text \<open>Reading a successful run backwards.\<close>

lemma bindC_InrE:
  assumes "bindC m f s = (Inr b, s'')"
  obtains a s' where "m s = (Inr a, s')" and "f a s' = (Inr b, s'')"
  using assms by (auto simp: bindC_def split: prod.splits sum.splits)

lemma wrapE_InrD: "wrapE g m s = (Inr a, s') \<Longrightarrow> m s = (Inr a, s')"
  by (auto simp: wrapE_def split: prod.splits sum.splits)

lemma ok_InrD: "ok a s = (Inr b, s') \<Longrightarrow> b = a \<and> s' = s"
  by (simp add: ok_def)

lemma raise_InrD: "raise e s = (Inr b, s') \<Longrightarrow> False"
  by (simp add: raise_def)

text \<open>A loop that succeeds has one result for each element.\<close>

lemma mapC_Inr_length: "mapC f xs s = (Inr ys, s') \<Longrightarrow> length ys = length xs"
  by (induction xs arbitrary: ys s s') (auto elim!: bindC_InrE dest!: ok_InrD)

section \<open>Frames\<close>

lemma keepsI: "(\<And>s. f (snd (m s)) = f s) \<Longrightarrow> keeps f m"
  by (simp add: keeps_def)

lemma keepsD: "keeps f m \<Longrightarrow> m s = (r, s') \<Longrightarrow> f s' = f s"
  by (metis keeps_def snd_conv)

lemma keeps_ok [frame, intro]: "keeps f (ok a)"
  by (simp add: keeps_def ok_def)

lemma keeps_raise [frame, intro]: "keeps f (raise e)"
  by (simp add: keeps_def raise_def)

lemma keeps_bindC [frame, intro]:
  "keeps f m \<Longrightarrow> (\<And>a. keeps f (g a)) \<Longrightarrow> keeps f (bindC m g)"
  by (auto simp: keeps_def bindC_def split: prod.splits sum.splits) (metis snd_conv)+

lemma keeps_wrapE [frame, intro]: "keeps f m \<Longrightarrow> keeps f (wrapE g m)"
  by (auto simp: keeps_def wrapE_def split: prod.splits sum.splits) (metis snd_conv)+

lemma keeps_attempt [frame, intro]: "keeps f m \<Longrightarrow> keeps f (attempt m)"
  by (auto simp: keeps_def attempt_def split: prod.splits) (metis snd_conv)

lemma keeps_ofOption [frame, intro]: "keeps f (ofOption r)"
  by (auto simp: ofOption_def split: option.splits)

lemma keeps_if [frame, intro]: "keeps f m \<Longrightarrow> keeps f n \<Longrightarrow> keeps f (if b then m else n)"
  by simp

lemma keeps_case_option [frame, intro]:
  "keeps f m \<Longrightarrow> (\<And>y. keeps f (n y)) \<Longrightarrow> keeps f (case x of None \<Rightarrow> m | Some y \<Rightarrow> n y)"
  by (simp split: option.splits)

lemma keeps_case_prod [frame, intro]:
  "(\<And>a b. keeps f (n a b)) \<Longrightarrow> keeps f (case x of (a, b) \<Rightarrow> n a b)"
  by (simp split: prod.splits)

lemma keeps_mapC [frame, intro]: "(\<And>x. keeps f (g x)) \<Longrightarrow> keeps f (mapC g xs)"
  by (induction xs) (auto intro!: keeps_bindC)

lemma keeps_wp: "keeps f m \<Longrightarrow> f s = v \<Longrightarrow> wp m (\<lambda>_ s'. f s' = v) (\<lambda>_ s'. f s' = v) s"
  by (auto simp: keeps_def wp_def split: prod.splits sum.splits) (metis snd_conv)+

section \<open>64-bit arithmetic\<close>

lemma sint_fits64 [simp]: "fits64 (sint (a :: money))"
  using sint_range_size [of a] by (simp add: fits64_def word_size)

lemma wrap64_fits [simp]: "fits64 i \<Longrightarrow> wrap64 i = i"
  by (simp add: wrap64_def fits64_def signed_take_bit_int_eq_self)

lemma sint_of_int64: "fits64 i \<Longrightarrow> sint (word_of_int i :: money) = i"
  by (simp add: fits64_def sint_sbintrunc' signed_take_bit_int_eq_self)

lemma sint_plus64: "fits64 (sint a + sint b) \<Longrightarrow> sint (a + b) = sint a + sint (b :: money)"
  using sint_of_int64 [of "sint a + sint b"] by simp

lemma sum_list_word: "sum_list ws = (word_of_int (sum_list (map sint ws)) :: money)"
  by (induction ws) simp_all

lemma sum_list_sint_eq:
  "fits64 (sum_list (map sint ws)) \<Longrightarrow> sint (sum_list ws :: money) = sum_list (map sint ws)"
  by (simp add: sum_list_word sint_of_int64)

section \<open>First match in a list\<close>

lemma find_SomeD: "find P xs = Some x \<Longrightarrow> P x \<and> x \<in> set xs"
  by (metis find_Some_iff nth_mem)

lemma find_append: "find P (xs @ ys) = (case find P xs of None \<Rightarrow> find P ys | Some x \<Rightarrow> Some x)"
  by (induction xs) auto

end
