(* ===== verification/Json.thy ===== *)
theory Json
  imports Crypto
begin

text \<open>
  \<open>encoding/json\<close> and \<open>strconv\<close> of Go's standard library, as far as the program writes with them:
  \<open>json.Marshal\<close> of strings, \<open>int64\<close> numbers, slices, structs (fields in declaration order) and
  \<open>map[string]any\<close> (keys in sorted order), nil slices (\<open>null\<close>) and \<open>json.RawMessage\<close>, with Go's default HTML-safe string escapes and its
  replacement of invalid UTF-8, \<open>strconv.FormatInt\<close> in base 10 and \<open>strconv.Quote\<close>.
\<close>

section \<open>Decimal numbers\<close>

fun nat_digits :: "nat \<Rightarrow> string" where
  "nat_digits n =
     (if n < 10 then [char_of (48 + n)] else nat_digits (n div 10) @ [char_of (48 + n mod 10)])"

declare nat_digits.simps [simp del]

definition FormatInt :: "int \<Rightarrow> string" where
  "FormatInt i = (if i < 0 then CHR ''-'' # nat_digits (nat (- i)) else nat_digits (nat i))"

section \<open>JSON documents\<close>

datatype json =
    JStr string
  | JInt int
  | JArr "json list"
  | JStruct "(string \<times> json) list"
  | JMap "(string \<times> json) list"
  | JNull
  | JRaw string

text \<open>
  The number of bytes of the UTF-8 sequence at the head of a string, or 0 when the bytes there are
  no valid sequence (\<open>utf8.DecodeRune\<close> returning \<open>RuneError\<close> of width 1).
\<close>

definition cont :: "nat \<Rightarrow> nat \<Rightarrow> nat \<Rightarrow> bool" where
  "cont lo hi b \<longleftrightarrow> lo \<le> b \<and> b \<le> hi"

fun rune_width :: "nat list \<Rightarrow> nat" where
  "rune_width [] = 0"
| "rune_width (a # bs) =
     (if a < 128 then 1
      else if cont 194 223 a then (case bs of b # _ \<Rightarrow> if cont 128 191 b then 2 else 0 | _ \<Rightarrow> 0)
      else if cont 224 239 a then
        (case bs of b # c # _ \<Rightarrow>
           if cont (if a = 224 then 160 else 128) (if a = 237 then 159 else 191) b \<and> cont 128 191 c
           then 3 else 0
         | _ \<Rightarrow> 0)
      else if cont 240 244 a then
        (case bs of b # c # d # _ \<Rightarrow>
           if cont (if a = 240 then 144 else 128) (if a = 244 then 143 else 191) b
              \<and> cont 128 191 c \<and> cont 128 191 d
           then 4 else 0
         | _ \<Rightarrow> 0)
      else 0)"

definition esc_ascii :: "char \<Rightarrow> string" where
  "esc_ascii ch =
     (let c = (of_char ch :: nat) in
      if c = 34 \<or> c = 92 then [CHR 0x5C, ch]
      else if c = 8 then [CHR 0x5C, CHR ''b'']
      else if c = 12 then [CHR 0x5C, CHR ''f'']
      else if c = 10 then [CHR 0x5C, CHR ''n'']
      else if c = 13 then [CHR 0x5C, CHR ''r'']
      else if c = 9 then [CHR 0x5C, CHR ''t'']
      else if c < 32 \<or> c = 60 \<or> c = 62 \<or> c = 38
        then [CHR 0x5C, CHR ''u'', CHR ''0'', CHR ''0''] @ hex_byte ch
      else [ch])"

text \<open>
  \<open>appendString\<close>: copy a valid rune, escape what JSON or HTML reads, replace an invalid byte. The
  first argument of \<open>esc_runes\<close> bounds the number of runes; the length of the string is enough.
\<close>

definition esc_rune :: "char \<Rightarrow> string \<Rightarrow> string \<times> string" where
  "esc_rune c cs =
     (let bs = map of_char (c # cs) :: nat list; w = rune_width bs in
      if (of_char c :: nat) < 128 then (esc_ascii c, cs)
      else if w = 0 then (CHR 0x5C # ''ufffd'', cs)
      else if take 3 bs = [226, 128, 168] then (CHR 0x5C # ''u2028'', drop w (c # cs))
      else if take 3 bs = [226, 128, 169] then (CHR 0x5C # ''u2029'', drop w (c # cs))
      else (take w (c # cs), drop w (c # cs)))"

primrec esc_runes :: "nat \<Rightarrow> string \<Rightarrow> string" where
  "esc_runes 0 cs = []"
| "esc_runes (Suc n) cs =
     (case cs of [] \<Rightarrow> []
      | c # r \<Rightarrow> (case esc_rune c r of (out, rest) \<Rightarrow> out @ esc_runes n rest))"

definition marshal_string :: "string \<Rightarrow> string" where
  "marshal_string s = ''\"'' @ esc_runes (length s) s @ ''\"''"

text \<open>
  The compact form of a \<open>json.RawMessage\<close>: white space outside strings is dropped and what HTML reads is
  escaped. The flag says whether the text is inside a string.
\<close>

definition json_space :: "char \<Rightarrow> bool" where
  "json_space c \<longleftrightarrow> c \<in> {CHR 0x20, CHR 0x09, CHR 0x0D, CHR 0x0A}"

fun compact_bytes :: "bool \<Rightarrow> string \<Rightarrow> string" where
  "compact_bytes inside [] = []"
| "compact_bytes inside (c # cs) =
     (if \<not> inside \<and> json_space c then compact_bytes inside cs
      else if c = CHR 0x22 then c # compact_bytes (\<not> inside) cs
      else if inside \<and> c = CHR 0x5C then c # take 1 cs @ compact_bytes inside (drop 1 cs)
      else if of_char c \<in> {60 :: nat, 62, 38} then esc_ascii c @ compact_bytes inside cs
      else if take 3 (map of_char (c # cs)) = [226 :: nat, 128, 168] then CHR 0x5C # ''u2028'' @ compact_bytes inside (drop 2 cs)
      else if take 3 (map of_char (c # cs)) = [226 :: nat, 128, 169] then CHR 0x5C # ''u2029'' @ compact_bytes inside (drop 2 cs)
      else c # compact_bytes inside cs)"

definition sep_by :: "string \<Rightarrow> string list \<Rightarrow> string" where
  "sep_by s xs = (case xs of [] \<Rightarrow> [] | y # ys \<Rightarrow> y @ concat (map (\<lambda>x. s @ x) ys))"

fun json_Marshal :: "json \<Rightarrow> string" where
  "json_Marshal (JStr s) = marshal_string s"
| "json_Marshal (JInt i) = FormatInt i"
| "json_Marshal JNull = ''null''"
| "json_Marshal (JRaw s) = compact_bytes False s"
| "json_Marshal (JArr xs) = ''['' @ sep_by '','' (map json_Marshal xs) @ '']''"
| "json_Marshal (JStruct fs) =
     CHR 0x7B # sep_by '','' (map (\<lambda>(k, v). marshal_string k @ '':'' @ json_Marshal v) fs) @ [CHR 0x7D]"
| "json_Marshal (JMap kvs) =
     CHR 0x7B # sep_by '',''
       (map snd (sort_key fst (map (\<lambda>(k, v). (k, marshal_string k @ '':'' @ json_Marshal v)) kvs)))
       @ [CHR 0x7D]"

section \<open>Quoted strings\<close>

text \<open>
  \<open>strconv.Quote\<close>, the verb \<open>%q\<close> of \<open>fmt\<close>; \<open>isPrint\<close> stands for the Unicode tables. As above, the
  first argument of the loop bounds the number of runes.
\<close>

definition rune_value :: "nat list \<Rightarrow> nat" where
  "rune_value bs =
     (case bs of
        [a] \<Rightarrow> a
      | [a, b] \<Rightarrow> (a mod 32) * 64 + b mod 64
      | [a, b, c] \<Rightarrow> (a mod 16) * 4096 + (b mod 64) * 64 + c mod 64
      | [a, b, c, d] \<Rightarrow> (a mod 8) * 262144 + (b mod 64) * 4096 + (c mod 64) * 64 + d mod 64
      | _ \<Rightarrow> 65533)"

definition hex_digits :: "nat \<Rightarrow> nat \<Rightarrow> string" where
  "hex_digits k n = map (\<lambda>i. hex_digit (n div 16 ^ (k - 1 - i) mod 16)) [0..<k]"

definition quote_rune :: "(nat \<Rightarrow> bool) \<Rightarrow> string \<Rightarrow> string" where
  "quote_rune isPrint cs =
     (let r = rune_value (map of_char cs) in
      if r = 34 \<or> r = 92 then CHR 0x5C # cs
      else if isPrint r then cs
      else if r = 7 then [CHR 0x5C, CHR ''a'']
      else if r = 8 then [CHR 0x5C, CHR ''b'']
      else if r = 12 then [CHR 0x5C, CHR ''f'']
      else if r = 10 then [CHR 0x5C, CHR ''n'']
      else if r = 13 then [CHR 0x5C, CHR ''r'']
      else if r = 9 then [CHR 0x5C, CHR ''t'']
      else if r = 11 then [CHR 0x5C, CHR ''v'']
      else if r < 32 \<or> r = 127 then [CHR 0x5C, CHR ''x''] @ hex_digits 2 r
      else if r < 65536 then [CHR 0x5C, CHR ''u''] @ hex_digits 4 r
      else [CHR 0x5C, CHR ''U''] @ hex_digits 8 r)"

primrec quote_runes :: "(nat \<Rightarrow> bool) \<Rightarrow> nat \<Rightarrow> string \<Rightarrow> string" where
  "quote_runes isPrint 0 cs = []"
| "quote_runes isPrint (Suc n) cs =
     (let w = rune_width (map of_char cs) in
      case cs of [] \<Rightarrow> []
      | c # r \<Rightarrow>
          if w = 0 then [CHR 0x5C, CHR ''x''] @ hex_byte c @ quote_runes isPrint n r
          else quote_rune isPrint (take w cs) @ quote_runes isPrint n (drop w cs))"

definition strconv_Quote :: "(nat \<Rightarrow> bool) \<Rightarrow> string \<Rightarrow> string" where
  "strconv_Quote isPrint s = [CHR 0x22] @ quote_runes isPrint (length s) s @ [CHR 0x22]"

section \<open>Decimal digits determine the number\<close>

text \<open>The value a digit string spells; \<open>FormatInt\<close> is injective because this reads it back.\<close>

definition digit_val :: "char \<Rightarrow> nat" where
  "digit_val c = of_char c - 48"

definition digits_val :: "string \<Rightarrow> nat" where
  "digits_val s = foldl (\<lambda>a c. 10 * a + digit_val c) 0 s"

lemma digit_val_char [simp]: "n < 10 \<Longrightarrow> digit_val (char_of (48 + n)) = n"
  by (simp add: digit_val_def)

lemma digits_val_nat_digits: "digits_val (nat_digits n) = n"
proof (induction n rule: nat_digits.induct)
  case (1 n)
  then show ?case
    by (subst nat_digits.simps) (auto simp: digits_val_def)
qed

lemma nat_digits_ascii: "c \<in> set (nat_digits n) \<Longrightarrow> 48 \<le> (of_char c :: nat) \<and> (of_char c :: nat) \<le> 57"
proof (induction n rule: nat_digits.induct)
  case (1 n)
  then show ?case
    by (subst (asm) (2) nat_digits.simps) (auto split: if_splits)
qed

lemma nat_digits_inj: "nat_digits m = nat_digits n \<Longrightarrow> m = n"
  by (metis digits_val_nat_digits)

lemma nat_digits_no_minus: "hd (nat_digits n) \<noteq> CHR ''-''"
proof -
  have "nat_digits n \<noteq> []" by (subst nat_digits.simps) simp
  then have "hd (nat_digits n) \<in> set (nat_digits n)" by simp
  then show ?thesis using nat_digits_ascii [of "hd (nat_digits n)" n] by auto
qed

lemma FormatInt_inj: "FormatInt i = FormatInt j \<Longrightarrow> i = j"
  using nat_digits_no_minus
  by (auto simp: FormatInt_def dest!: nat_digits_inj split: if_splits)
    (metis list.sel(1))+

lemma FormatInt_chars: "c \<in> set (FormatInt i) \<Longrightarrow> c \<noteq> CHR ''.''"
  using nat_digits_ascii by (fastforce simp: FormatInt_def split: if_splits)

end
