(* ===== verification/Models.thy ===== *)
theory Models
  imports Json
begin

text \<open>
  The data model: the structs of the \<open>models.go\<close> files, the tables the migrations create, the
  outside world the program runs in, and the way a statement and a transaction run against it.
  A table is the list of its rows in insertion order. Everything the program does not decide
  itself (identifiers the database draws, clocks, random bytes, which call fails, what another
  library returns) is a field of an environment that the definitions take as an argument, indexed
  by a counter that every such interaction advances, so that one environment fixes one run.
\<close>

section \<open>The ledger's rows\<close>

datatype txn_status = TxnPending | TxnPosted | TxnFailed

record account_row =
  acct_ID :: uuid
  acct_TenantID :: uuid
  acct_Name :: string
  acct_CreatedAt :: instant

record Account = account_row +
  acct_Balance :: money

record Transaction =
  txn_ID :: uuid
  txn_TenantID :: uuid
  txn_Status :: txn_status
  txn_CreatedAt :: instant

record Entry =
  ent_ID :: uuid
  ent_TenantID :: uuid
  ent_TransactionID :: uuid
  ent_AccountID :: uuid
  ent_AmountMinor :: money
  ent_CreatedAt :: instant

section \<open>Audit trail, queue and idempotency rows\<close>

record AuditEntry =
  aud_ID :: uuid
  aud_TenantID :: uuid
  aud_Action :: string
  aud_ActorID :: string
  aud_Payload :: string
  aud_CreatedAt :: instant

datatype job_status = JobPending | JobProcessing | JobDelivered | JobFailed

record Job =
  job_ID :: uuid
  job_TenantID :: uuid
  job_JobType :: string
  job_Payload :: string
  job_Status :: job_status
  job_AttemptCount :: int
  job_NextRetryAt :: instant
  job_CreatedAt :: instant
  job_LastError :: "string option"

record DeadLetterJob =
  dl_ID :: uuid
  dl_TenantID :: uuid
  dl_OriginalJobID :: uuid
  dl_JobType :: string
  dl_Payload :: string
  dl_AttemptCount :: int
  dl_LastError :: "string option"
  dl_FailedAt :: instant

datatype idem_status = IdemProcessing | IdemCompleted

record Record =
  rec_ID :: uuid
  rec_TenantID :: uuid
  rec_Key :: string
  rec_RequestHash :: string
  rec_Status :: idem_status
  rec_ResponseCode :: "int option"
  rec_ResponseBody :: "string option"
  rec_CreatedAt :: instant
  rec_ExpiresAt :: instant

section \<open>Tenants, users, roles and refresh tokens\<close>

record Tenant =
  tn_ID :: uuid
  tn_Name :: string
  tn_APIKeyHash :: string
  tn_CreatedAt :: instant

record tenant_row = Tenant +
  tn_WebhookURL :: "string option"
  tn_WebhookSecret :: "string option"

record Role =
  role_ID :: uuid
  role_Name :: string
  role_Description :: "string option"
  role_CreatedAt :: instant

record Permission =
  perm_ID :: uuid
  perm_Name :: string
  perm_Description :: "string option"
  perm_CreatedAt :: instant

datatype user_status = UserStatusActive | UserStatusDisabled

record User =
  usr_ID :: uuid
  usr_TenantID :: uuid
  usr_RoleID :: uuid
  usr_Email :: string
  usr_PasswordHash :: string
  usr_Status :: user_status
  usr_CreatedAt :: instant

datatype token_status =
  RefreshTokenStatusActive | RefreshTokenStatusRotated | RefreshTokenStatusRevoked

record RefreshToken =
  rt_ID :: uuid
  rt_UserID :: uuid
  rt_TenantID :: uuid
  rt_TokenHash :: string
  rt_Status :: token_status
  rt_ReplacedBy :: "uuid option"
  rt_CreatedAt :: instant
  rt_ExpiresAt :: instant

text \<open>
  What an access token says: the program's own claims and those of \<open>jwt.RegisteredClaims\<close> it sets
  (\<open>None\<close> for an absent date). The signing method of a parsed token is one of the HMAC family or
  another, by its \<open>alg\<close> header.
\<close>

record Claims =
  cl_UserID :: string
  cl_TenantID :: string
  cl_RoleID :: string
  cl_Subject :: string
  cl_ExpiresAt :: "instant option"
  cl_IssuedAt :: "instant option"

datatype jwt_method = SigningMethodHMAC string | OtherMethod string

section \<open>The database\<close>

record tables =
  tenants :: "tenant_row list"
  accounts :: "account_row list"
  transactions :: "Transaction list"
  entries :: "Entry list"
  idempotency_keys :: "Record list"
  webhook_events :: "Job list"
  dead_letter_events :: "DeadLetterJob list"
  audit_log :: "AuditEntry list"
  roles :: "Role list"
  permissions :: "Permission list"
  role_permissions :: "(uuid \<times> uuid) list"
  users :: "User list"
  refresh_tokens :: "RefreshToken list"

definition empty_tables :: tables where
  "empty_tables = \<lparr>tenants = [], accounts = [], transactions = [], entries = [],
     idempotency_keys = [], webhook_events = [], dead_letter_events = [], audit_log = [],
     roles = [], permissions = [], role_permissions = [], users = [], refresh_tokens = []\<rparr>"

definition tenant_exists :: "tables \<Rightarrow> uuid \<Rightarrow> bool" where
  "tenant_exists d t \<longleftrightarrow> t \<in> tn_ID ` set (tenants d)"

section \<open>The outside world\<close>

text \<open>
  What becomes of a call to the database: it is carried out, it fails and leaves no trace (the
  connection is refused, the context is cancelled, the server rejects the statement or aborts the
  transaction), or it is carried out and the answer is lost, so that the caller sees a failure.
\<close>

datatype fault = Done | Failed | Lost

record http_request =
  hr_URL :: string
  hr_Header :: "(string \<times> string) list"
  hr_Body :: string

datatype metric =
    WebhookDeliveredTotal
  | WebhookRetriedTotal
  | WebhookDeadLetteredTotal
  | WebhookSkippedNoEndpointTotal
  | HTTPRequestsTotal string string string
  | HTTPRequestDuration string string

record env =
  outcome :: "nat \<Rightarrow> fault"
  gen_random_uuid :: "nat \<Rightarrow> uuid"
  pg_now :: "nat \<Rightarrow> instant"
  time_Now :: "nat \<Rightarrow> instant"
  pg_timestamptz :: "instant \<Rightarrow> instant"
  pg_jsonb :: "string \<Rightarrow> string"
  pg_message :: "pg_error \<Rightarrow> string"
  uuid_String :: "uuid \<Rightarrow> string"
  uuid_Parse :: "string \<Rightarrow> uuid option"
  rand_Read :: "nat \<Rightarrow> nat \<Rightarrow> string option"
  rand_Int :: "nat \<Rightarrow> int \<Rightarrow> int option"
  map_choice :: "nat \<Rightarrow> nat"
  row_locked :: "nat \<Rightarrow> uuid \<Rightarrow> bool"
  int64_of_float :: "int \<Rightarrow> int"
  http_NewRequest :: "string \<Rightarrow> string option"
  http_Do :: "nat \<Rightarrow> http_request \<Rightarrow> string + int"
  pg_lower :: "string \<Rightarrow> string"
  bcrypt_Generate :: "nat \<Rightarrow> string \<Rightarrow> int \<Rightarrow> string + string"
  bcrypt_Compare :: "string \<Rightarrow> string \<Rightarrow> bool"
  jwt_NewNumericDate :: "instant \<Rightarrow> instant"
  jwt_SignHS256 :: "string \<Rightarrow> Claims \<Rightarrow> string + string"
  jwt_Parse :: "instant \<Rightarrow> (jwt_method \<Rightarrow> error + string) \<Rightarrow> string \<Rightarrow> string + (Claims \<times> bool)"
  unicode_IsPrint :: "nat \<Rightarrow> bool"
  time_RFC3339 :: "instant \<Rightarrow> string"
  time_RFC3339Nano :: "instant \<Rightarrow> string"
  time_RFC3339Nano_UTC :: "instant \<Rightarrow> string"
  debug_Stack :: "nat \<Rightarrow> string"

text \<open>
  The fields of an environment, in order: what becomes of the \<open>n\<close>-th interaction; Postgres's
  \<open>gen_random_uuid()\<close> and clock; Go's clock; the driver's conversion of a Go time to a
  \<open>timestamptz\<close>; the text a \<open>jsonb\<close> column gives back; the text of a database error;
  \<open>google/uuid\<close>'s \<open>String\<close> and \<open>Parse\<close>; \<open>crypto/rand\<close>'s \<open>Read\<close> and \<open>Int\<close> (\<open>None\<close> for an error);
  the order in which Go visits a map; the rows other sessions hold locked; what the processor
  makes of a floating-point number outside the \<open>int64\<close> range; the error of
  \<open>http.NewRequestWithContext\<close> for a URL, if any; what a receiver answers to a request, an
  error text or a status code; Postgres's \<open>LOWER\<close>; \<open>bcrypt\<close>'s \<open>GenerateFromPassword\<close> (an error text or
  a hash, which depends on a random salt) and whether \<open>CompareHashAndPassword\<close> returns no error;
  \<open>golang-jwt\<close>'s rounding of a date, its signing of claims with HS256 and a secret, and its
  \<open>ParseWithClaims\<close> at a time, with the caller's function from the token's method to a key; the
  Unicode tables behind \<open>strconv.Quote\<close>; two layouts of a time in the process's time zone and one
  of a time in UTC; and the text of a stack trace.
\<close>

text \<open>
  A line of the structured log: level, message and attributes. The world keeps the lines the HTTP
  middleware writes; the other log lines of the program are not modelled.
\<close>

datatype slog_value = LogString string | LogInt int

type_synonym log_line = "string \<times> string \<times> (string \<times> slog_value) list"

record world =
  db :: tables
  tick :: nat
  tx_now :: "instant option"
  counters :: "metric \<Rightarrow> nat"
  sent :: "http_request list"
  logs :: "log_line list"

abbreviation step :: "world \<Rightarrow> world" where
  "step w \<equiv> w\<lparr>tick := Suc (tick w)\<rparr>"

text \<open>\<open>now()\<close> is the start of the current transaction, or of the statement outside one.\<close>

definition sql_now :: "env \<Rightarrow> world \<Rightarrow> instant" where
  "sql_now E w = (case tx_now w of Some t \<Rightarrow> t | None \<Rightarrow> pg_now E (tick w))"

definition go_now :: "env \<Rightarrow> (world, 'e, instant) comp" where
  "go_now E = (\<lambda>w. (Inr (time_Now E (tick w)), step w))"

definition inc :: "metric \<Rightarrow> (world, 'e, unit) comp" where
  "inc m = (\<lambda>w. (Inr (), w\<lparr>counters := (counters w)(m := Suc (counters w m))\<rparr>))"

section \<open>Statements\<close>

text \<open>
  A statement is a function of the current timestamp, of the identifier the column default draws,
  and of the tables.
\<close>

type_synonym 'a stmt = "instant \<Rightarrow> uuid \<Rightarrow> tables \<Rightarrow> pg_error + 'a \<times> tables"

definition pg :: "env \<Rightarrow> 'a stmt \<Rightarrow> (world, error, 'a) comp" where
  "pg E q = (\<lambda>w.
     (case outcome E (tick w) of
        Failed \<Rightarrow> (Inl (Pg Unavailable), step w)
      | Done \<Rightarrow> (case q (sql_now E w) (gen_random_uuid E (tick w)) (db w) of
            Inl e \<Rightarrow> (Inl (Pg e), step w)
          | Inr (a, d) \<Rightarrow> (Inr a, (step w)\<lparr>db := d\<rparr>))
      | Lost \<Rightarrow> (case q (sql_now E w) (gen_random_uuid E (tick w)) (db w) of
            Inl e \<Rightarrow> (Inl (Pg Unavailable), step w)
          | Inr (a, d) \<Rightarrow> (Inl (Pg Unavailable), (step w)\<lparr>db := d\<rparr>))))"

text \<open>A \<open>SELECT\<close>: it reads the tables and changes nothing.\<close>

definition pg_select :: "env \<Rightarrow> (tables \<Rightarrow> pg_error + 'a) \<Rightarrow> (world, error, 'a) comp" where
  "pg_select E f = pg E (\<lambda>_ _ d. case f d of Inl e \<Rightarrow> Inl e | Inr a \<Rightarrow> Inr (a, d))"

text \<open>
  \<open>BeginTx\<close>, a body, \<open>Commit\<close>, with the deferred \<open>Rollback\<close>: when the body returns an error the
  tables are what they were. The two functions say how the caller wraps the error of \<open>BeginTx\<close> and
  of \<open>Commit\<close>. A commit whose answer is lost did happen.
\<close>

definition in_tx ::
  "env \<Rightarrow> (error \<Rightarrow> error) \<Rightarrow> (error \<Rightarrow> error) \<Rightarrow> (world, error, 'a) comp \<Rightarrow> (world, error, 'a) comp"
where
  "in_tx E beginErr commitErr body = (\<lambda>w.
     (if outcome E (tick w) \<noteq> Done then (Inl (beginErr (Pg Unavailable)), step w)
      else (case body ((step w)\<lparr>tx_now := Some (pg_now E (tick w))\<rparr>) of
              (Inl e, w') \<Rightarrow> (Inl e, w'\<lparr>db := db w, tx_now := None\<rparr>)
            | (Inr a, w') \<Rightarrow>
                (case outcome E (tick w') of
                   Done \<Rightarrow> (Inr a, (step w')\<lparr>tx_now := None\<rparr>)
                 | Failed \<Rightarrow> (Inl (commitErr (Pg Unavailable)), (step w')\<lparr>db := db w, tx_now := None\<rparr>)
                 | Lost \<Rightarrow> (Inl (commitErr (Pg Unavailable)), (step w')\<lparr>tx_now := None\<rparr>)))))"

section \<open>Rules for statements and transactions\<close>

lemma wp_go_now [wp_simps]: "wp (go_now E) Q R = (\<lambda>w. Q (time_Now E (tick w)) (step w))"
  by (simp add: wp_def go_now_def fun_eq_iff)

lemma wp_inc [wp_simps]:
  "wp (inc m) Q R = (\<lambda>w. Q () (w\<lparr>counters := (counters w)(m := Suc (counters w m))\<rparr>))"
  by (simp add: wp_def inc_def fun_eq_iff)

lemma wp_pg:
  "wp (pg E q) Q R w \<longleftrightarrow>
     (case outcome E (tick w) of
        Failed \<Rightarrow> R (Pg Unavailable) (step w)
      | Done \<Rightarrow> (case q (sql_now E w) (gen_random_uuid E (tick w)) (db w) of
            Inl e \<Rightarrow> R (Pg e) (step w)
          | Inr (a, d) \<Rightarrow> Q a ((step w)\<lparr>db := d\<rparr>))
      | Lost \<Rightarrow> (case q (sql_now E w) (gen_random_uuid E (tick w)) (db w) of
            Inl e \<Rightarrow> R (Pg Unavailable) (step w)
          | Inr (a, d) \<Rightarrow> R (Pg Unavailable) ((step w)\<lparr>db := d\<rparr>)))"
  by (simp add: wp_def pg_def split: fault.splits sum.splits prod.splits)

lemma wp_pg_select:
  "wp (pg_select E f) Q R w \<longleftrightarrow>
     (case outcome E (tick w) of
        Done \<Rightarrow> (case f (db w) of Inl e \<Rightarrow> R (Pg e) (step w) | Inr a \<Rightarrow> Q a (step w))
      | _ \<Rightarrow> R (Pg Unavailable) (step w))"
proof -
  have same: "(step w)\<lparr>db := db w\<rparr> = step w" by simp
  show ?thesis
    unfolding pg_select_def wp_pg
    by (auto split: fault.splits sum.splits simp: same)
qed

lemma wp_in_tx:
  "wp (in_tx E bE cE body) Q R w \<longleftrightarrow>
     (if outcome E (tick w) \<noteq> Done then R (bE (Pg Unavailable)) (step w)
      else wp body
        (\<lambda>a w'. case outcome E (tick w') of
             Done \<Rightarrow> Q a ((step w')\<lparr>tx_now := None\<rparr>)
           | Failed \<Rightarrow> R (cE (Pg Unavailable)) ((step w')\<lparr>db := db w, tx_now := None\<rparr>)
           | Lost \<Rightarrow> R (cE (Pg Unavailable)) ((step w')\<lparr>tx_now := None\<rparr>))
        (\<lambda>e w'. R e (w'\<lparr>db := db w, tx_now := None\<rparr>))
        ((step w)\<lparr>tx_now := Some (pg_now E (tick w))\<rparr>))"
  by (auto simp: wp_def in_tx_def split: fault.splits sum.splits prod.splits)

text \<open>
  All or nothing: after a transaction the tables are the old ones or those the whole body made,
  and they are the latter whenever the caller is told of success.
\<close>

lemma in_tx_cases:
  assumes "in_tx E bE cE body w = (r, w')"
  obtains (nothing) e where "r = Inl e" and "db w' = db w"
    | (all) a w1 where "body ((step w)\<lparr>tx_now := Some (pg_now E (tick w))\<rparr>) = (Inr a, w1)"
        and "db w' = db w1" and "r = Inr a \<or> r = Inl (cE (Pg Unavailable))"
  using assms
  by (auto simp: in_tx_def split: if_splits fault.splits sum.splits prod.splits)

lemma in_tx_InrE:
  assumes "in_tx E bE cE body w = (Inr a, w')"
  obtains w1 where "body ((step w)\<lparr>tx_now := Some (pg_now E (tick w))\<rparr>) = (Inr a, w1)"
    and "db w' = db w1" and "counters w' = counters w1" and "sent w' = sent w1"
  using assms
  by (auto simp: in_tx_def split: if_splits fault.splits sum.splits prod.splits)

lemma pg_InrD:
  "pg E q w = (Inr a, w') \<Longrightarrow>
     \<exists>d. q (sql_now E w) (gen_random_uuid E (tick w)) (db w) = Inr (a, d) \<and> w' = (step w)\<lparr>db := d\<rparr>"
  by (auto simp: pg_def split: fault.splits sum.splits prod.splits)

lemma pg_select_InrD: "pg_select E f w = (Inr a, w') \<Longrightarrow> f (db w) = Inr a \<and> w' = step w"
  by (auto simp: pg_select_def pg_def split: fault.splits sum.splits prod.splits)

lemmas comp_InrD = wrapE_InrD ok_InrD raise_InrD pg_select_InrD

lemma keeps_pg [frame]:
  assumes "\<And>w d. f (w\<lparr>db := d\<rparr>) = f w" and "\<And>w. f (step w) = f w"
  shows "keeps f (pg E q)"
  using assms
  by (auto simp: keeps_def pg_def split: fault.splits sum.splits prod.splits)

text \<open>A statement keeps a part of the tables that its function keeps.\<close>

lemma keeps_pg_db:
  assumes "\<And>t i d a d'. q t i d = Inr (a, d') \<Longrightarrow> g d' = g d"
  shows "keeps (\<lambda>w. g (db w)) (pg E q)"
  using assms
  by (auto simp: keeps_def pg_def split: fault.splits sum.splits prod.splits)

lemma keeps_pg_select [frame]: "keeps (\<lambda>w. g (db w)) (pg_select E f)"
  by (auto simp: pg_select_def intro!: keeps_pg_db split: sum.splits)

lemma keeps_in_tx_db:
  assumes "keeps (\<lambda>w. g (db w)) body"
  shows "keeps (\<lambda>w. g (db w)) (in_tx E bE cE body)"
proof (rule keepsI)
  fix w
  obtain r w' where run: "in_tx E bE cE body w = (r, w')" by fastforce
  from run have "g (db w') = g (db w)"
  proof (cases rule: in_tx_cases)
    case nothing
    then show ?thesis by simp
  next
    case (all a w1)
    with keepsD [OF assms all(1)] show ?thesis by simp
  qed
  with run show "g (db (snd (in_tx E bE cE body w))) = g (db w)" by simp
qed

lemma keeps_go_now [frame]: "keeps (\<lambda>w. g (db w)) (go_now E)"
  by (simp add: keeps_def go_now_def)

lemma keeps_inc [frame]: "keeps (\<lambda>w. g (db w)) (inc m)"
  by (simp add: keeps_def inc_def)

section \<open>Where a computation leads\<close>

text \<open>\<open>leads m P w\<close>: however \<open>m\<close> ends when started in \<open>w\<close>, the tables satisfy \<open>P\<close>.\<close>

definition leads :: "(world, 'e, 'a) comp \<Rightarrow> (tables \<Rightarrow> bool) \<Rightarrow> world \<Rightarrow> bool" where
  "leads m P w \<longleftrightarrow> P (db (snd (m w)))"

named_theorems leads_simps \<open>where the combinators lead\<close>

lemma leads_wp: "leads m P w \<longleftrightarrow> wp m (\<lambda>_ w'. P (db w')) (\<lambda>_ w'. P (db w')) w"
  by (simp add: leads_def wp_def split: prod.splits sum.splits)

lemma leads_attempt [leads_simps]: "leads (attempt m) P w = leads m P w"
  by (simp add: leads_wp wp_simps)

lemma leads_wrapE [leads_simps]: "leads (wrapE g m) P w = leads m P w"
  by (simp add: leads_wp wp_simps)

lemma leads_ok [leads_simps]: "leads (ok a) P w = P (db w)"
  by (simp add: leads_wp wp_simps)

lemma leads_raise [leads_simps]: "leads (raise e) P w = P (db w)"
  by (simp add: leads_wp wp_simps)

lemma leads_then_ok [leads_simps]: "leads (bindC m (\<lambda>_. ok u)) P w = leads m P w"
  by (simp add: leads_wp wp_simps)

lemma leads_inc [leads_simps]:
  "leads (bindC (inc c) f) P w = leads (f ()) P (w\<lparr>counters := (counters w)(c := Suc (counters w c))\<rparr>)"
  by (simp add: leads_wp wp_simps)

lemma leads_go_now [leads_simps]:
  "leads (bindC (go_now E) f) P w = leads (f (time_Now E (tick w))) P (step w)"
  by (simp add: leads_wp wp_simps)

lemma leads_bind_attempt: "m w = (r, w1) \<Longrightarrow> leads (bindC (attempt m) f) P w = leads (f r) P w1"
  by (simp add: leads_def bindC_def attempt_def)

lemma leads_bind:
  assumes "leads m P w" and "\<And>a w1. m w = (Inr a, w1) \<Longrightarrow> P (db w1) \<Longrightarrow> leads (f a) P w1"
  shows "leads (bindC m f) P w"
  using assms by (auto simp: leads_def bindC_def split: prod.splits sum.splits)

lemma leads_bind_keeps:
  assumes "keeps db m" and "P (db w)" and "\<And>a w'. db w' = db w \<Longrightarrow> leads (f a) P w'"
  shows "leads (bindC m f) P w"
  using assms keepsD [OF assms(1)]
  by (auto simp: leads_def bindC_def split: prod.splits sum.splits)

lemma leads_in_tx:
  assumes "P (db w)"
    and "\<And>w0. db w0 = db w \<Longrightarrow> wp body (\<lambda>_ w'. P (db w')) (\<lambda>_ _. True) w0"
  shows "leads (in_tx E bE cE body) P w"
proof -
  obtain r w' where run: "in_tx E bE cE body w = (r, w')" by fastforce
  then have "P (db w')"
  proof (cases rule: in_tx_cases)
    case nothing
    with assms(1) show ?thesis by simp
  next
    case (all a w1)
    have "wp body (\<lambda>_ w'. P (db w')) (\<lambda>_ _. True) ((step w)\<lparr>tx_now := Some (pg_now E (tick w))\<rparr>)"
      by (rule assms(2)) simp
    with all show ?thesis using wp_resultD(1) by fastforce
  qed
  with run show ?thesis by (simp add: leads_def)
qed

section \<open>A database that answers\<close>

text \<open>\<open>calm E\<close>: every call to the database is carried out and answered.\<close>

definition calm :: "env \<Rightarrow> bool" where
  "calm E \<longleftrightarrow> (\<forall>n. outcome E n = Done)"

lemma wp_pg_calm:
  "calm E \<Longrightarrow> wp (pg E q) Q R w \<longleftrightarrow> (case q (sql_now E w) (gen_random_uuid E (tick w)) (db w) of
     Inl e \<Rightarrow> R (Pg e) (step w) | Inr (a, d) \<Rightarrow> Q a ((step w)\<lparr>db := d\<rparr>))"
  by (simp add: wp_pg calm_def)

lemma wp_pg_select_calm:
  "calm E \<Longrightarrow> wp (pg_select E f) Q R w \<longleftrightarrow>
     (case f (db w) of Inl e \<Rightarrow> R (Pg e) (step w) | Inr a \<Rightarrow> Q a (step w))"
  by (simp add: wp_pg_select calm_def)

lemma wp_in_tx_calm:
  "calm E \<Longrightarrow> wp (in_tx E bE cE body) Q R w \<longleftrightarrow>
     wp body (\<lambda>a w'. Q a ((step w')\<lparr>tx_now := None\<rparr>)) (\<lambda>e w'. R e (w'\<lparr>db := db w, tx_now := None\<rparr>))
       ((step w)\<lparr>tx_now := Some (pg_now E (tick w))\<rparr>)"
  by (simp add: wp_in_tx calm_def)

lemma wp_two_steps:
  "wp (bindC m (\<lambda>a. bindC (f a) (\<lambda>_. k))) Q R w = wp (bindC m f) (\<lambda>_. wp k Q R) R w"
  by (simp add: wp_simps)

lemma wp_of_run: "m w = (Inr a, w') \<Longrightarrow> Q a w' \<Longrightarrow> wp m Q R w"
  by (simp add: wp_def)

lemma wp_bindC_run: "m w = (Inr a, w') \<Longrightarrow> wp (bindC m f) Q R w = wp (f a) Q R w'"
  by (simp add: wp_def bindC_def)

lemma bindC_run: "m w = (Inr a, w') \<Longrightarrow> bindC m f w = f a w'"
  by (simp add: bindC_def)

lemma in_tx_calm_fst:
  assumes "calm E" and "wp body (\<lambda>_ _. P) (\<lambda>err _. Q err) ((step w)\<lparr>tx_now := Some (pg_now E (tick w))\<rparr>)"
  shows "case fst (in_tx E bE cE body w) of Inr _ \<Rightarrow> P | Inl err \<Rightarrow> Q err"
  using assms by (auto simp: in_tx_def calm_def wp_def split: prod.splits sum.splits)

lemma bind_attempt_run: "m w = (r, w1) \<Longrightarrow> bindC (attempt m) f w = f r w1"
  by (simp add: bindC_def attempt_def)

lemma snd_attempt_ok: "snd (bindC (attempt m) (\<lambda>_. ok u) w) = snd (m w)"
  by (simp add: bindC_def attempt_def ok_def split: prod.splits)

lemma bind_inc_run: "bindC (inc c) f w = f () (w\<lparr>counters := (counters w)(c := Suc (counters w c))\<rparr>)"
  by (simp add: bindC_def inc_def)

lemma bind_go_now_run: "bindC (go_now E) f w = f (time_Now E (tick w)) (step w)"
  by (simp add: bindC_def go_now_def)

end
