(* ===== verification/Ports.thy ===== *)
theory Ports
  imports Models
begin

text \<open>
  The two interfaces the domain packages declare for themselves and other packages satisfy:
  \<open>EventEnqueuer\<close> (\<open>internal/ledger/events.go\<close>) and \<open>AuditRecorder\<close>
  (\<open>internal/ledger/audit.go\<close>, \<open>internal/auth/audit.go\<close>). A service holds each of them as an
  optional value, \<open>None\<close> for Go's \<open>nil\<close>. The locales state what the callers rely on: an
  implementation touches its own table only, and on success appends exactly one row there.
\<close>

type_synonym EventEnqueuer = "uuid \<Rightarrow> string \<Rightarrow> string \<Rightarrow> (world, error, unit) comp"
type_synonym AuditRecorder = "uuid \<Rightarrow> string \<Rightarrow> string \<Rightarrow> string \<Rightarrow> (world, error, unit) comp"

definition sans_events :: "tables \<Rightarrow> tables" where
  "sans_events d = d\<lparr>webhook_events := []\<rparr>"

definition sans_audit :: "tables \<Rightarrow> tables" where
  "sans_audit d = d\<lparr>audit_log := []\<rparr>"

text \<open>Everything but the two append-only side tables: the state the domain packages own.\<close>

definition domain :: "tables \<Rightarrow> tables" where
  "domain d = d\<lparr>webhook_events := [], audit_log := []\<rparr>"

text \<open>
  \<open>event_for t ty p j\<close>: the row is a pending job of tenant \<open>t\<close> and type \<open>ty\<close> whose payload column
  reads \<open>p\<close>. An implementation stores a payload in the form \<open>stored\<close> gives it.
\<close>

definition event_for :: "uuid \<Rightarrow> string \<Rightarrow> string \<Rightarrow> Job \<Rightarrow> bool" where
  "event_for t ty p j \<longleftrightarrow>
     job_TenantID j = t \<and> job_JobType j = ty \<and> job_Payload j = p \<and> job_Status j = JobPending \<and> job_AttemptCount j = 0"

definition audit_for :: "uuid \<Rightarrow> string \<Rightarrow> string \<Rightarrow> string \<Rightarrow> AuditEntry \<Rightarrow> bool" where
  "audit_for t actor act p a \<longleftrightarrow>
     aud_TenantID a = t \<and> aud_ActorID a = actor \<and> aud_Action a = act \<and> aud_Payload a = p"

definition one_event :: "uuid \<Rightarrow> string \<Rightarrow> string \<Rightarrow> tables \<Rightarrow> tables \<Rightarrow> bool" where
  "one_event t ty p d d' \<longleftrightarrow> (\<exists>j. webhook_events d' = webhook_events d @ [j] \<and> event_for t ty p j \<and>
     job_ID j \<notin> job_ID ` set (webhook_events d))"

definition one_audit :: "uuid \<Rightarrow> string \<Rightarrow> string \<Rightarrow> string \<Rightarrow> tables \<Rightarrow> tables \<Rightarrow> bool" where
  "one_audit t actor act p d d' \<longleftrightarrow>
     (\<exists>a. audit_log d' = audit_log d @ [a] \<and> audit_for t actor act p a)"

text \<open>What the two interfaces do not touch at all: clocks of the transaction, counters, requests.\<close>

definition ambient :: "world \<Rightarrow> instant option \<times> (metric \<Rightarrow> nat) \<times> http_request list" where
  "ambient w = (tx_now w, counters w, sent w)"

lemma domain_sans [simp]: "domain (sans_events d) = domain d" "domain (sans_audit d) = domain d"
  by (simp_all add: domain_def sans_events_def sans_audit_def)

lemma domain_proj:
  "accounts (domain d) = accounts d" "transactions (domain d) = transactions d"
  "entries (domain d) = entries d" "tenants (domain d) = tenants d"
  "users (domain d) = users d" "refresh_tokens (domain d) = refresh_tokens d"
  "idempotency_keys (domain d) = idempotency_keys d" "dead_letter_events (domain d) = dead_letter_events d"
  by (simp_all add: domain_def)

locale event_port =
  fixes stored :: "string \<Rightarrow> string" and events :: "EventEnqueuer option"
  assumes enqueue_frame: "events = Some f \<Longrightarrow> keeps (\<lambda>w. sans_events (db w)) (f t ty p)"
    and enqueue_ambient: "events = Some f \<Longrightarrow> keeps ambient (f t ty p)"
    and enqueue_appends: "events = Some f \<Longrightarrow> f t ty p w = (Inr u, w') \<Longrightarrow>
          one_event t ty (stored p) (db w) (db w')"
begin

lemma enqueue_audit: "events = Some f \<Longrightarrow> f t ty p w = (r, w') \<Longrightarrow> audit_log (db w') = audit_log (db w)"
  using keepsD [OF enqueue_frame] by (metis (no_types, lifting) sans_events_def tables.select_convs(8) tables.surjective tables.update_convs(6))

lemma enqueue_domain: "events = Some f \<Longrightarrow> f t ty p w = (r, w') \<Longrightarrow> domain (db w') = domain (db w)"
  using keepsD [OF enqueue_frame] by (metis domain_sans(1))

end

locale audit_port =
  fixes stored :: "string \<Rightarrow> string" and audit :: "AuditRecorder option"
  assumes record_frame: "audit = Some f \<Longrightarrow> keeps (\<lambda>w. sans_audit (db w)) (f t actor act p)"
    and record_ambient: "audit = Some f \<Longrightarrow> keeps ambient (f t actor act p)"
    and record_appends: "audit = Some f \<Longrightarrow> f t actor act p w = (Inr u, w') \<Longrightarrow>
          one_audit t actor act (stored p) (db w) (db w')"
begin

lemma record_events: "audit = Some f \<Longrightarrow> f t actor act p w = (r, w') \<Longrightarrow>
    webhook_events (db w') = webhook_events (db w)"
  using keepsD [OF record_frame] by (metis (no_types, lifting) sans_audit_def tables.select_convs(6) tables.surjective tables.update_convs(8))

lemma record_domain: "audit = Some f \<Longrightarrow> f t actor act p w = (r, w') \<Longrightarrow> domain (db w') = domain (db w)"
  using keepsD [OF record_frame] by (metis domain_sans(2))

end

text \<open>A service with neither interface configured satisfies both contracts.\<close>

interpretation no_events: event_port stored None
  by unfold_locales simp_all

interpretation no_audit: audit_port stored None
  by unfold_locales simp_all

end
