(* ===== verification/Ledger_Repository.thy ===== *)
theory Ledger_Repository
  imports Ports
begin

text \<open>
  \<open>internal/ledger\<close>, the data and the SQL: \<open>models.go\<close>, \<open>errors.go\<close> and \<open>repository.go\<close>. A Go map is
  an association list with one pair per key; the driver sends identifiers as strings that Postgres
  reads back to the same \<open>uuid\<close>, so the queries compare identifiers. Rows whose \<open>ORDER BY\<close> keys are
  equal come in insertion order.
\<close>

section \<open>Models and errors\<close>

record EntryInput =
  ei_AccountID :: uuid
  ei_AmountMinor :: money

fun Sum_from :: "money \<Rightarrow> EntryInput list \<Rightarrow> money" where
  "Sum_from tot [] = tot"
| "Sum_from tot (e # es) = Sum_from (tot + ei_AmountMinor e) es"

definition Sum :: "EntryInput list \<Rightarrow> money" where
  "Sum es = Sum_from 0 es"

definition ErrUnbalancedEntries :: error where
  "ErrUnbalancedEntries = New ''ledger: entries must sum to zero''"
definition ErrEmptyEntries :: error where
  "ErrEmptyEntries = New ''ledger: transaction requires at least two entries''"
definition ErrZeroAmountEntry :: error where
  "ErrZeroAmountEntry = New ''ledger: entry amount must be nonzero''"
definition ErrAccountNotFound :: error where
  "ErrAccountNotFound = New ''ledger: account not found''"
definition ErrInsufficientFunds :: error where
  "ErrInsufficientFunds = New ''ledger: insufficient funds''"
definition ErrTransactionNotFound :: error where
  "ErrTransactionNotFound = New ''ledger: transaction not found''"
definition ErrTransactionNotPending :: error where
  "ErrTransactionNotPending = New ''ledger: transaction is not pending''"
definition ErrStatusConflict :: error where
  "ErrStatusConflict = New ''ledger: status changed concurrently, reload and retry''"

lemmas ledger_errors = ErrUnbalancedEntries_def ErrEmptyEntries_def ErrZeroAmountEntry_def
  ErrAccountNotFound_def ErrInsufficientFunds_def ErrTransactionNotFound_def
  ErrTransactionNotPending_def ErrStatusConflict_def

fun status_string :: "txn_status \<Rightarrow> string" where
  "status_string TxnPending = ''pending''"
| "status_string TxnPosted = ''posted''"
| "status_string TxnFailed = ''failed''"

section \<open>CreateAccount, GetAccount\<close>

definition with_balance :: "account_row \<Rightarrow> money \<Rightarrow> Account" where
  "with_balance a b = \<lparr>acct_ID = acct_ID a, acct_TenantID = acct_TenantID a, acct_Name = acct_Name a,
     acct_CreatedAt = acct_CreatedAt a, acct_Balance = b\<rparr>"

definition insert_account :: "uuid \<Rightarrow> string \<Rightarrow> (uuid \<times> instant) stmt" where
  "insert_account tenantID name now uid d =
     (if uid \<in> acct_ID ` set (accounts d) then Inl (UniqueViolation ''accounts_pkey'')
      else if \<not> tenant_exists d tenantID then Inl (ForeignKeyViolation ''accounts_tenant_id_fkey'')
      else Inr ((uid, now), d\<lparr>accounts := accounts d @
        [\<lparr>acct_ID = uid, acct_TenantID = tenantID, acct_Name = name, acct_CreatedAt = now\<rparr>]\<rparr>))"

definition CreateAccount_repo :: "env \<Rightarrow> uuid \<Rightarrow> string \<Rightarrow> (world, error, Account) comp" where
  "CreateAccount_repo E tenantID name =
     bindC (wrapE (\<lambda>e. Errorf ''ledger: create account: '' e '''') (pg E (insert_account tenantID name)))
       (\<lambda>(uid, createdAt). ok \<lparr>acct_ID = uid, acct_TenantID = tenantID, acct_Name = name,
          acct_CreatedAt = createdAt, acct_Balance = 0\<rparr>)"

text \<open>
  The join of \<open>entries\<close> with the posted \<open>transactions\<close> and the derived balance, an exact sum: \<open>SUM\<close>
  over \<open>BIGINT\<close> is a \<open>NUMERIC\<close>, and reading it into an \<open>int64\<close> fails outside its range.
\<close>

definition posted_amounts :: "tables \<Rightarrow> uuid \<Rightarrow> int list" where
  "posted_amounts d a =
     [sint (ent_AmountMinor e). e \<leftarrow> entries d, t \<leftarrow> transactions d,
        ent_AccountID e = a \<and> txn_ID t = ent_TransactionID e \<and> txn_Status t = TxnPosted]"

definition posted_balance :: "tables \<Rightarrow> uuid \<Rightarrow> int" where
  "posted_balance d a = sum_list (posted_amounts d a)"

definition scan_int64 :: "int \<Rightarrow> pg_error + money" where
  "scan_int64 i = (if fits64 i then Inr (word_of_int i) else Inl ScanRange)"

definition select_account :: "uuid \<Rightarrow> uuid \<Rightarrow> tables \<Rightarrow> pg_error + Account" where
  "select_account tenantID uid d =
     (case find (\<lambda>a. acct_ID a = uid \<and> acct_TenantID a = tenantID) (accounts d) of
        None \<Rightarrow> Inl NoRows
      | Some a \<Rightarrow> (case scan_int64 (posted_balance d uid) of
            Inl e \<Rightarrow> Inl e | Inr b \<Rightarrow> Inr (with_balance a b)))"

definition GetAccount_repo :: "env \<Rightarrow> uuid \<Rightarrow> uuid \<Rightarrow> (world, error, Account) comp" where
  "GetAccount_repo E tenantID uid =
     wrapE (\<lambda>e. if errors_Is e (Pg NoRows) then ErrAccountNotFound else Errorf ''ledger: get account: '' e '''')
       (pg_select E (select_account tenantID uid))"

section \<open>LockAccountsForUpdate\<close>

definition lock_accounts :: "uuid \<Rightarrow> uuid list \<Rightarrow> tables \<Rightarrow> account_row list" where
  "lock_accounts tenantID ids d =
     sort_key acct_ID (filter (\<lambda>a. acct_ID a \<in> set ids \<and> acct_TenantID a = tenantID) (accounts d))"

definition sum_balances :: "uuid list \<Rightarrow> tables \<Rightarrow> pg_error + (uuid \<times> money) list" where
  "sum_balances ids d =
     (let groups = filter (\<lambda>i. posted_amounts d i \<noteq> []) (remdups ids) in
      if list_all (\<lambda>i. fits64 (posted_balance d i)) groups
      then Inr (map (\<lambda>i. (i, word_of_int (posted_balance d i))) groups)
      else Inl ScanRange)"

definition set_balance :: "uuid \<times> money \<Rightarrow> (uuid \<times> Account) list \<Rightarrow> (uuid \<times> Account) list" where
  "set_balance row out =
     (case row of (accID, sm) \<Rightarrow>
        (case map_of out accID of
           None \<Rightarrow> out | Some a \<Rightarrow> AList.update accID (a\<lparr>acct_Balance := sm\<rparr>) out))"

definition LockAccountsForUpdate ::
  "env \<Rightarrow> uuid \<Rightarrow> uuid list \<Rightarrow> (world, error, (uuid \<times> Account) list) comp" where
  "LockAccountsForUpdate E tenantID ids =
     (if ids = [] then ok []
      else let sorted_ids = sort_key (uuid_String E) ids in
        bindC (wrapE (\<lambda>e. Errorf ''ledger: lock accounts: '' e '''')
                 (pg_select E (\<lambda>d. Inr (lock_accounts tenantID sorted_ids d)))) (\<lambda>rows.
        let out = fold (\<lambda>a. AList.update (acct_ID a) (with_balance a 0)) rows [] in
        case find (\<lambda>i. map_of out i = None) sorted_ids of
          Some i \<Rightarrow> raise (Errorf '''' ErrAccountNotFound ('': '' @ uuid_String E i))
        | None \<Rightarrow>
            bindC (wrapE (\<lambda>e. if e = Pg ScanRange then Errorf ''ledger: scan balance sum: '' e ''''
                             else Errorf ''ledger: sum balances: '' e '''')
                     (pg_select E (sum_balances sorted_ids)))
              (\<lambda>brows. ok (fold set_balance brows out))))"

section \<open>InsertTransactionWithEntries, GetTransaction\<close>

definition insert_transaction :: "uuid \<Rightarrow> txn_status \<Rightarrow> (uuid \<times> instant) stmt" where
  "insert_transaction tenantID status now uid d =
     (if uid \<in> txn_ID ` set (transactions d) then Inl (UniqueViolation ''transactions_pkey'')
      else if \<not> tenant_exists d tenantID then Inl (ForeignKeyViolation ''transactions_tenant_id_fkey'')
      else Inr ((uid, now), d\<lparr>transactions := transactions d @
        [\<lparr>txn_ID = uid, txn_TenantID = tenantID, txn_Status = status, txn_CreatedAt = now\<rparr>]\<rparr>))"

definition insert_entry :: "uuid \<Rightarrow> uuid \<Rightarrow> EntryInput \<Rightarrow> (uuid \<times> instant) stmt" where
  "insert_entry tenantID txnID e now uid d =
     (if ei_AmountMinor e = 0 then Inl (CheckViolation ''chk_entry_amount_nonzero'')
      else if uid \<in> ent_ID ` set (entries d) then Inl (UniqueViolation ''entries_pkey'')
      else if \<not> tenant_exists d tenantID then Inl (ForeignKeyViolation ''entries_tenant_id_fkey'')
      else if txnID \<notin> txn_ID ` set (transactions d)
        then Inl (ForeignKeyViolation ''entries_transaction_id_fkey'')
      else if ei_AccountID e \<notin> acct_ID ` set (accounts d)
        then Inl (ForeignKeyViolation ''entries_account_id_fkey'')
      else Inr ((uid, now), d\<lparr>entries := entries d @
        [\<lparr>ent_ID = uid, ent_TenantID = tenantID, ent_TransactionID = txnID,
          ent_AccountID = ei_AccountID e, ent_AmountMinor = ei_AmountMinor e, ent_CreatedAt = now\<rparr>]\<rparr>))"

definition InsertEntry :: "env \<Rightarrow> uuid \<Rightarrow> uuid \<Rightarrow> EntryInput \<Rightarrow> (world, error, Entry) comp" where
  "InsertEntry E tenantID txnID e =
     bindC (wrapE (\<lambda>er. Errorf ''ledger: insert entry: '' er '''') (pg E (insert_entry tenantID txnID e)))
       (\<lambda>(uid, createdAt). ok \<lparr>ent_ID = uid, ent_TenantID = tenantID, ent_TransactionID = txnID,
          ent_AccountID = ei_AccountID e, ent_AmountMinor = ei_AmountMinor e, ent_CreatedAt = createdAt\<rparr>)"

definition InsertTransactionWithEntries ::
  "env \<Rightarrow> uuid \<Rightarrow> txn_status \<Rightarrow> EntryInput list \<Rightarrow> (world, error, Transaction \<times> Entry list) comp" where
  "InsertTransactionWithEntries E tenantID status es =
     bindC (wrapE (\<lambda>e. Errorf ''ledger: insert transaction: '' e '''') (pg E (insert_transaction tenantID status)))
       (\<lambda>(uid, createdAt).
          bindC (mapC (InsertEntry E tenantID uid) es) (\<lambda>rows.
            ok (\<lparr>txn_ID = uid, txn_TenantID = tenantID, txn_Status = status, txn_CreatedAt = createdAt\<rparr>, rows)))"

definition find_transaction :: "uuid \<Rightarrow> uuid \<Rightarrow> tables \<Rightarrow> pg_error + Transaction" where
  "find_transaction tenantID uid d =
     (case find (\<lambda>t. txn_ID t = uid \<and> txn_TenantID t = tenantID) (transactions d) of
        None \<Rightarrow> Inl NoRows | Some t \<Rightarrow> Inr t)"

definition select_entries :: "uuid \<Rightarrow> uuid \<Rightarrow> tables \<Rightarrow> Entry list" where
  "select_entries tenantID txnID d =
     sort_key ent_CreatedAt
       (filter (\<lambda>e. ent_TransactionID e = txnID \<and> ent_TenantID e = tenantID) (entries d))"

definition GetTransaction_repo :: "env \<Rightarrow> uuid \<Rightarrow> uuid \<Rightarrow> (world, error, Transaction \<times> Entry list) comp" where
  "GetTransaction_repo E tenantID uid =
     bindC (wrapE (\<lambda>e. if errors_Is e (Pg NoRows) then ErrTransactionNotFound
                      else Errorf ''ledger: get transaction: '' e '''')
              (pg_select E (find_transaction tenantID uid))) (\<lambda>txn.
     bindC (wrapE (\<lambda>e. Errorf ''ledger: get entries: '' e '''')
              (pg_select E (\<lambda>d. Inr (select_entries tenantID uid d))))
       (\<lambda>es. ok (txn, es)))"

section \<open>UpdateTransactionStatusGuarded\<close>

definition guard_matches :: "uuid \<Rightarrow> uuid \<Rightarrow> txn_status \<Rightarrow> Transaction \<Rightarrow> bool" where
  "guard_matches tenantID uid st t \<longleftrightarrow> txn_ID t = uid \<and> txn_TenantID t = tenantID \<and> txn_Status t = st"

definition update_status :: "uuid \<Rightarrow> uuid \<Rightarrow> txn_status \<Rightarrow> txn_status \<Rightarrow> nat stmt" where
  "update_status tenantID uid expected new now i d =
     Inr (length (filter (guard_matches tenantID uid expected) (transactions d)),
          d\<lparr>transactions := map (\<lambda>t. if guard_matches tenantID uid expected t then t\<lparr>txn_Status := new\<rparr> else t)
              (transactions d)\<rparr>)"

text \<open>
  When no row matches, the status is read again to name the error. Of the errors of that read only
  \<open>sql.ErrNoRows\<close> is looked at; after another one the status is the empty string.
\<close>

definition UpdateTransactionStatusGuarded ::
  "env \<Rightarrow> uuid \<Rightarrow> uuid \<Rightarrow> txn_status \<Rightarrow> txn_status \<Rightarrow> (world, error, unit) comp" where
  "UpdateTransactionStatusGuarded E tenantID uid expected new =
     bindC (wrapE (\<lambda>e. Errorf ''ledger: update transaction status: '' e '''')
              (pg E (update_status tenantID uid expected new))) (\<lambda>n.
     if n = 0 then
       bindC (attempt (pg_select E (find_transaction tenantID uid))) (\<lambda>r.
         let status = (case r of Inl e \<Rightarrow> [] | Inr t \<Rightarrow> status_string (txn_Status t)) in
         if (case r of Inl e \<Rightarrow> errors_Is e (Pg NoRows) | Inr t \<Rightarrow> False) then raise ErrTransactionNotFound
         else if status \<noteq> status_string expected
           then raise (if expected = TxnPending then ErrTransactionNotPending else ErrStatusConflict)
         else raise ErrStatusConflict)
     else ok ())"

section \<open>Derived balances\<close>

lemma Sum_from_eq: "Sum_from a es = a + sum_list (map ei_AmountMinor es)"
  by (induction a es rule: Sum_from.induct) (simp_all add: add.assoc)

lemma Sum_eq: "Sum es = sum_list (map ei_AmountMinor es)"
  by (simp add: Sum_def Sum_from_eq)

definition is_posted :: "tables \<Rightarrow> uuid \<Rightarrow> bool" where
  "is_posted d i \<longleftrightarrow> (\<exists>t \<in> set (transactions d). txn_ID t = i \<and> txn_Status t = TxnPosted)"

lemma join_one:
  assumes "distinct (map txn_ID ts)"
  shows "concat (map (\<lambda>t. if b \<and> txn_ID t = i \<and> P t then [x] else []) ts) =
    (if b \<and> (\<exists>t \<in> set ts. txn_ID t = i \<and> P t) then [x] else [])"
  using assms by (induction ts) (auto simp: image_iff)

lemma posted_amounts_eq:
  assumes "distinct (map txn_ID (transactions d))"
  shows "posted_amounts d a = map (\<lambda>e. sint (ent_AmountMinor e))
    (filter (\<lambda>e. ent_AccountID e = a \<and> is_posted d (ent_TransactionID e)) (entries d))"
proof -
  have "concat (map (\<lambda>e. concat (map (\<lambda>t. if ent_AccountID e = a \<and> txn_ID t = ent_TransactionID e \<and>
        txn_Status t = TxnPosted then [sint (ent_AmountMinor e)] else []) (transactions d))) es) =
      map (\<lambda>e. sint (ent_AmountMinor e))
        (filter (\<lambda>e. ent_AccountID e = a \<and> is_posted d (ent_TransactionID e)) es)" for es
    by (induction es) (simp_all add: join_one [OF assms] is_posted_def)
  then show ?thesis by (simp add: posted_amounts_def)
qed

lemma posted_balance_eq:
  "distinct (map txn_ID (transactions d)) \<Longrightarrow> posted_balance d a = (\<Sum>e \<leftarrow> entries d.
     if ent_AccountID e = a \<and> is_posted d (ent_TransactionID e) then sint (ent_AmountMinor e) else 0)"
  by (simp add: posted_balance_def posted_amounts_eq sum_list_map_filter')

section \<open>What a successful lock returns\<close>

lemma map_of_locked:
  "map_of (fold (\<lambda>a. AList.update (acct_ID a) (with_balance a 0)) rows out) i = None \<longleftrightarrow>
     i \<notin> acct_ID ` set rows \<and> map_of out i = None"
  by (induction rows arbitrary: out) (auto simp: AList.update_conv')

lemma locked_balance:
  "map_of (fold (\<lambda>a. AList.update (acct_ID a) (with_balance a 0)) rows out) i = Some a \<Longrightarrow>
   (\<And>a. map_of out i = Some a \<Longrightarrow> acct_Balance a = 0) \<Longrightarrow> acct_Balance a = 0"
  by (induction rows arbitrary: out) (fastforce simp: AList.update_conv' with_balance_def split: if_splits)+

lemma map_of_set_balance:
  "map_of (set_balance (k, b) out) i =
     (if i = k then map_option (\<lambda>a. a\<lparr>acct_Balance := b\<rparr>) (map_of out i) else map_of out i)"
  by (simp add: set_balance_def AList.update_conv' split: option.splits)

lemma map_of_set_balances:
  "distinct (map fst rows) \<Longrightarrow> map_of (fold set_balance rows out) i =
     (case map_of rows i of None \<Rightarrow> map_of out i | Some b \<Rightarrow> map_option (\<lambda>a. a\<lparr>acct_Balance := b\<rparr>) (map_of out i))"
proof (induction rows arbitrary: out)
  case (Cons r rows)
  then show ?case
    by (cases r) (force simp: map_of_set_balance split: option.splits dest: map_of_SomeD)
qed simp

lemma sum_balances_InrD:
  assumes "sum_balances ids d = Inr rows"
  shows "distinct (map fst rows)"
    and "i \<in> set ids \<Longrightarrow> fits64 (posted_balance d i)"
    and "i \<in> set ids \<Longrightarrow> (case map_of rows i of None \<Rightarrow> 0 | Some b \<Rightarrow> b) = word_of_int (posted_balance d i)"
proof -
  let ?g = "filter (\<lambda>i. posted_amounts d i \<noteq> []) (remdups ids)"
  have rows: "rows = map (\<lambda>i. (i, word_of_int (posted_balance d i))) ?g"
    and fit: "list_all (\<lambda>i. fits64 (posted_balance d i)) ?g"
    using assms by (auto simp: sum_balances_def Let_def split: if_splits)
  show "distinct (map fst rows)" by (simp add: rows comp_def)
  have empty: "posted_balance d i = 0" if "posted_amounts d i = []" for i
    using that by (simp add: posted_balance_def)
  show "fits64 (posted_balance d i)" if "i \<in> set ids"
    using that fit empty by (cases "posted_amounts d i = []") (auto simp: list_all_iff fits64_def)
  show "(case map_of rows i of None \<Rightarrow> 0 | Some b \<Rightarrow> b) = word_of_int (posted_balance d i)" if "i \<in> set ids"
    using that empty [of i]
    by (auto simp: rows map_of_map_restrict restrict_map_def split: option.splits if_splits)
qed

lemma LockAccountsForUpdate_InrD:
  assumes "LockAccountsForUpdate E t ids w = (Inr out, w')"
  shows "db w' = db w" and "ambient w' = ambient w"
    and "i \<in> set ids \<Longrightarrow> \<exists>a \<in> set (accounts (db w)). acct_ID a = i \<and> acct_TenantID a = t"
    and "i \<in> set ids \<Longrightarrow> fits64 (posted_balance (db w) i)"
    and "i \<in> set ids \<Longrightarrow> \<exists>a. map_of out i = Some a \<and> acct_Balance a = word_of_int (posted_balance (db w) i)"
    and "i \<notin> set ids \<Longrightarrow> map_of out i = None"
proof -
  show "db w' = db w" "ambient w' = ambient w"
    using assms
    by (auto simp: LockAccountsForUpdate_def Let_def ambient_def split: if_splits option.splits elim!: bindC_InrE
        dest!: wrapE_InrD ok_InrD pg_select_InrD raise_InrD)
next
  let ?ids = "sort_key (uuid_String E) ids"
  let ?rows = "lock_accounts t ?ids (db w)"
  let ?out = "fold (\<lambda>a. AList.update (acct_ID a) (with_balance a 0)) ?rows []"
  obtain brows where found: "find (\<lambda>i. map_of ?out i = None) ?ids = None" and sums: "sum_balances ?ids (db w) = Inr brows"
    and out: "out = fold set_balance brows ?out" if "ids \<noteq> []"
    using assms
    by (cases "ids = []") (auto simp: LockAccountsForUpdate_def Let_def split: if_splits option.splits elim!: bindC_InrE
        dest!: wrapE_InrD ok_InrD pg_select_InrD raise_InrD)
  have nil: "out = []" if "ids = []"
    using that assms by (auto simp: LockAccountsForUpdate_def dest!: ok_InrD)
  have all: "\<exists>a. map_of ?out i = Some a \<and> acct_Balance a = 0" if "i \<in> set ids" for i
    using that found locked_balance [of ?rows "[]" i] by (force simp: find_None_iff)
  show "\<exists>a \<in> set (accounts (db w)). acct_ID a = i \<and> acct_TenantID a = t" if "i \<in> set ids"
    using all [OF that] map_of_locked [of ?rows "[]" i] by (auto simp: lock_accounts_def)
  show "fits64 (posted_balance (db w) i)" if "i \<in> set ids"
    using that sum_balances_InrD(2) [OF sums, of i] by (cases "ids = []") auto
  show "\<exists>a. map_of out i = Some a \<and> acct_Balance a = word_of_int (posted_balance (db w) i)" if "i \<in> set ids"
    using that all [OF that] sums out sum_balances_InrD(1,3) [of ?ids "db w" brows]
    by (cases "ids = []") (fastforce simp: map_of_set_balances split: option.splits)+
  show "map_of out i = None" if "i \<notin> set ids"
    using that out sums sum_balances_InrD(1) nil map_of_locked [of ?rows "[]" i]
    by (cases "ids = []") (auto simp: map_of_set_balances lock_accounts_def split: option.splits)
qed

section \<open>What a successful insert appends\<close>

text \<open>The rows of one transaction carry the entries asked for, in their order.\<close>

definition entry_input :: "Entry \<Rightarrow> EntryInput" where
  "entry_input e = \<lparr>ei_AccountID = ent_AccountID e, ei_AmountMinor = ent_AmountMinor e\<rparr>"

definition rows_for :: "uuid \<Rightarrow> uuid \<Rightarrow> EntryInput list \<Rightarrow> Entry list \<Rightarrow> bool" where
  "rows_for t i es rows \<longleftrightarrow> map entry_input rows = es \<and>
     (\<forall>e \<in> set rows. ent_TenantID e = t \<and> ent_TransactionID e = i)"

lemma entry_input_sel [simp]:
  "ei_AccountID (entry_input e) = ent_AccountID e" "ei_AmountMinor (entry_input e) = ent_AmountMinor e"
  by (simp_all add: entry_input_def)

lemma insert_account_InrD:
  "insert_account t name now uid d = Inr (x, d') \<Longrightarrow> x = (uid, now) \<and> uid \<notin> acct_ID ` set (accounts d) \<and>
     tenant_exists d t \<and> d' = d\<lparr>accounts := accounts d @
       [\<lparr>acct_ID = uid, acct_TenantID = t, acct_Name = name, acct_CreatedAt = now\<rparr>]\<rparr>"
  by (auto simp: insert_account_def split: if_splits)

lemma insert_transaction_InrD:
  "insert_transaction t st now uid d = Inr (x, d') \<Longrightarrow> x = (uid, now) \<and> uid \<notin> txn_ID ` set (transactions d) \<and>
     tenant_exists d t \<and> d' = d\<lparr>transactions := transactions d @
       [\<lparr>txn_ID = uid, txn_TenantID = t, txn_Status = st, txn_CreatedAt = now\<rparr>]\<rparr>"
  by (auto simp: insert_transaction_def split: if_splits)

lemma insert_entry_InrD:
  "insert_entry t i e now uid d = Inr (x, d') \<Longrightarrow> x = (uid, now) \<and> ei_AmountMinor e \<noteq> 0 \<and>
     uid \<notin> ent_ID ` set (entries d) \<and> ei_AccountID e \<in> acct_ID ` set (accounts d) \<and>
     d' = d\<lparr>entries := entries d @ [\<lparr>ent_ID = uid, ent_TenantID = t, ent_TransactionID = i,
       ent_AccountID = ei_AccountID e, ent_AmountMinor = ei_AmountMinor e, ent_CreatedAt = now\<rparr>]\<rparr>"
  by (auto simp: insert_entry_def split: if_splits)

lemma InsertEntry_InrD:
  assumes "InsertEntry E t i e w = (Inr row, w')"
  shows "db w' = (db w)\<lparr>entries := entries (db w) @ [row]\<rparr> \<and> ambient w' = ambient w \<and>
    entry_input row = e \<and> ent_TenantID row = t \<and> ent_TransactionID row = i \<and>
    ei_AmountMinor e \<noteq> 0 \<and> ent_ID row \<notin> ent_ID ` set (entries (db w)) \<and>
    ei_AccountID e \<in> acct_ID ` set (accounts (db w))"
  using assms unfolding InsertEntry_def
  by (auto elim!: bindC_InrE dest!: comp_InrD pg_InrD insert_entry_InrD
      simp: entry_input_def ambient_def)

lemma InsertEntries_InrD:
  assumes "mapC (InsertEntry E t i) es w = (Inr rows, w')"
  shows "db w' = (db w)\<lparr>entries := entries (db w) @ rows\<rparr> \<and> ambient w' = ambient w \<and>
    rows_for t i es rows \<and> (\<forall>e \<in> set es. ei_AmountMinor e \<noteq> 0 \<and> ei_AccountID e \<in> acct_ID ` set (accounts (db w)))"
  using assms
proof (induction es arbitrary: w rows)
  case Nil
  then show ?case by (auto simp: rows_for_def dest!: ok_InrD)
next
  case (Cons e es)
  from Cons.prems obtain row rest w1 where step: "InsertEntry E t i e w = (Inr row, w1)"
    and rest: "mapC (InsertEntry E t i) es w1 = (Inr rest, w')" and rows: "rows = row # rest"
    by (auto elim!: bindC_InrE dest!: ok_InrD)
  show ?case
    using InsertEntry_InrD [OF step] Cons.IH [OF rest] by (auto simp: rows rows_for_def)
qed

lemma InsertTransactionWithEntries_InrD:
  assumes "InsertTransactionWithEntries E t st es w = (Inr (txn, rows), w')"
  shows "db w' = (db w)\<lparr>transactions := transactions (db w) @ [txn], entries := entries (db w) @ rows\<rparr> \<and>
    ambient w' = ambient w \<and>
    txn_ID txn \<notin> txn_ID ` set (transactions (db w)) \<and> txn_TenantID txn = t \<and> txn_Status txn = st \<and>
    rows_for t (txn_ID txn) es rows \<and> tenant_exists (db w) t \<and>
    (\<forall>e \<in> set es. ei_AmountMinor e \<noteq> 0 \<and> ei_AccountID e \<in> acct_ID ` set (accounts (db w)))"
proof -
  let ?txn = "\<lambda>uid c. \<lparr>txn_ID = uid, txn_TenantID = t, txn_Status = st, txn_CreatedAt = c\<rparr>"
  from assms obtain uid c w1 where ins: "pg E (insert_transaction t st) w = (Inr (uid, c), w1)"
    and ent: "mapC (InsertEntry E t uid) es w1 = (Inr rows, w')" and txn: "txn = ?txn uid c"
    unfolding InsertTransactionWithEntries_def by (auto elim!: bindC_InrE dest!: ok_InrD wrapE_InrD)
  have "uid \<notin> txn_ID ` set (transactions (db w)) \<and> tenant_exists (db w) t \<and>
      db w1 = (db w)\<lparr>transactions := transactions (db w) @ [?txn uid c]\<rparr> \<and> ambient w1 = ambient w"
    using pg_InrD [OF ins] by (auto dest!: insert_transaction_InrD simp: ambient_def)
  with InsertEntries_InrD [OF ent] show ?thesis by (auto simp: txn)
qed

section \<open>What a successful status change does\<close>

definition set_status :: "uuid \<Rightarrow> uuid \<Rightarrow> txn_status \<Rightarrow> txn_status \<Rightarrow> tables \<Rightarrow> tables" where
  "set_status t i st st' d = d\<lparr>transactions :=
     map (\<lambda>x. if guard_matches t i st x then x\<lparr>txn_Status := st'\<rparr> else x) (transactions d)\<rparr>"

lemma UpdateTransactionStatusGuarded_InrD:
  assumes "UpdateTransactionStatusGuarded E t i st st' w = (Inr u, w')"
  shows "db w' = set_status t i st st' (db w) \<and> ambient w' = ambient w \<and>
    (\<exists>x \<in> set (transactions (db w)). guard_matches t i st x)"
proof -
  from assms obtain n w1 where upd: "pg E (update_status t i st st') w = (Inr n, w1)" and "n \<noteq> 0" and "w' = w1"
    unfolding UpdateTransactionStatusGuarded_def
    by (auto simp: Let_def attempt_def raise_def split: if_splits sum.splits elim!: bindC_InrE dest!: wrapE_InrD ok_InrD)
  with pg_InrD [OF upd] show ?thesis
    by (auto simp: update_status_def set_status_def ambient_def filter_empty_conv)
qed

lemma find_transaction_InrD:
  assumes "find_transaction t i d = Inr x"
  shows "x \<in> set (transactions d) \<and> txn_ID x = i \<and> txn_TenantID x = t"
  using assms by (auto simp: find_transaction_def find_Some_iff split: option.splits)

lemma GetTransaction_InrD:
  assumes "GetTransaction_repo E t i w = (Inr (txn, es), w')"
  shows "db w' = db w \<and> ambient w' = ambient w \<and> find_transaction t i (db w) = Inr txn \<and>
    es = select_entries t i (db w)"
  using assms unfolding GetTransaction_repo_def
  by (auto elim!: bindC_InrE dest!: comp_InrD simp: ambient_def)

end
