(* ===== verification/Audit_Trail.thy ===== *)
theory Audit_Trail
  imports Ports
begin

text \<open>
  \<open>internal/audit\<close>: the append-only audit trail. \<open>RecordAudit\<close> satisfies the \<open>AuditRecorder\<close>
  interface; \<open>List\<close> reads a tenant's entries newest first, at most 200 of them.
\<close>

definition insert_audit :: "env \<Rightarrow> uuid \<Rightarrow> string \<Rightarrow> string \<Rightarrow> string \<Rightarrow> unit stmt" where
  "insert_audit E tenantID actorID action payload now uid d =
     (if uid \<in> aud_ID ` set (audit_log d) then Inl (UniqueViolation ''audit_log_pkey'')
      else if \<not> tenant_exists d tenantID then Inl (ForeignKeyViolation ''audit_log_tenant_id_fkey'')
      else Inr ((), d\<lparr>audit_log := audit_log d @
        [\<lparr>aud_ID = uid, aud_TenantID = tenantID, aud_Action = action, aud_ActorID = actorID,
          aud_Payload = pg_jsonb E payload, aud_CreatedAt = now\<rparr>]\<rparr>))"

definition RecordAudit :: "env \<Rightarrow> AuditRecorder" where
  "RecordAudit E tenantID actorID action payload =
     wrapE (\<lambda>e. Errorf ''audit: record: '' e '''')
       (pg E (insert_audit E tenantID actorID action payload))"

definition list_limit :: "int \<Rightarrow> int" where
  "list_limit limit = (if limit \<le> 0 \<or> 200 < limit then 200 else limit)"

definition select_audit :: "uuid \<Rightarrow> int \<Rightarrow> tables \<Rightarrow> AuditEntry list" where
  "select_audit tenantID limit d =
     take (nat limit)
       (sort_key (\<lambda>e. - aud_CreatedAt e) (filter (\<lambda>e. aud_TenantID e = tenantID) (audit_log d)))"

definition List_audit :: "env \<Rightarrow> uuid \<Rightarrow> int \<Rightarrow> (world, error, AuditEntry list) comp" where
  "List_audit E tenantID limit =
     wrapE (\<lambda>e. Errorf ''audit: list: '' e '''')
       (pg_select E (\<lambda>d. Inr (select_audit tenantID (list_limit limit) d)))"

lemma insert_audit_cases:
  assumes "insert_audit E t actor act p now uid d = Inr (u, d')"
  obtains a where "d' = d\<lparr>audit_log := audit_log d @ [a]\<rparr>" and "audit_for t actor act (pg_jsonb E p) a"
    and "aud_ID a = uid" and "aud_ID a \<notin> aud_ID ` set (audit_log d)"
  using assms
  by (auto simp: insert_audit_def audit_for_def split: if_splits)

text \<open>The repository honours the contract of the interface.\<close>

interpretation audit_repo: audit_port "pg_jsonb E" "Some (RecordAudit E)"
proof unfold_locales
  fix f t actor act p w w' u
  assume f: "Some (RecordAudit E) = Some f"
  show "keeps (\<lambda>w. sans_audit (db w)) (f t actor act p)"
    using f by (auto simp: RecordAudit_def sans_audit_def intro!: keeps_wrapE keeps_pg_db
        elim!: insert_audit_cases)
  show "keeps ambient (f t actor act p)"
    using f by (auto simp: RecordAudit_def ambient_def intro!: keeps_wrapE keeps_pg)
  assume "f t actor act p w = (Inr u, w')"
  with f show "one_audit t actor act (pg_jsonb E p) (db w) (db w')"
    by (auto simp: RecordAudit_def wrapE_def pg_def one_audit_def
        split: fault.splits sum.splits prod.splits elim!: insert_audit_cases)
qed

lemma list_limit_range: "0 < list_limit n \<and> list_limit n \<le> 200"
  by (simp add: list_limit_def)

lemma select_audit_length: "length (select_audit t n d) \<le> nat n"
  by (simp add: select_audit_def)

lemma select_audit_subset: "e \<in> set (select_audit t n d) \<Longrightarrow> e \<in> set (audit_log d) \<and> aud_TenantID e = t"
  by (auto simp: select_audit_def dest: in_set_takeD)

lemma sorted_take: "sorted xs \<Longrightarrow> sorted (take n xs)"
  by (metis append_take_drop_id sorted_append)

lemma select_audit_sorted: "sorted (map (\<lambda>e. - aud_CreatedAt e) (select_audit t n d))"
  by (simp add: select_audit_def take_map [symmetric] sorted_take)

lemma keeps_List_audit: "keeps (\<lambda>w. g (db w)) (List_audit E t n)"
  by (auto simp: List_audit_def intro!: keeps_wrapE keeps_pg_select)

end
