(* ===== verification/Queue.thy ===== *)
theory Queue
  imports Ports
begin

text \<open>
  \<open>internal/queue\<close>: the Postgres-backed job queue behind the transactional outbox. A repository is a
  pair of table names, checked against \<open>validIdentifier\<close> at construction; the schema has one table
  of each shape, \<open>webhook_events\<close> and \<open>dead_letter_events\<close>, and a statement over another name fails.
\<close>

section \<open>Repository\<close>

record QueueRepository =
  queueTable :: string
  deadLetterTable :: string

definition ErrJobNotFound :: error where
  "ErrJobNotFound = New ''queue: job not found''"

definition ident_start :: "char \<Rightarrow> bool" where
  "ident_start c \<longleftrightarrow> (CHR ''a'' \<le> c \<and> c \<le> CHR ''z'') \<or> c = CHR ''_''"

definition ident_char :: "char \<Rightarrow> bool" where
  "ident_char c \<longleftrightarrow> ident_start c \<or> (CHR ''0'' \<le> c \<and> c \<le> CHR ''9'')"

definition validIdentifier :: "string \<Rightarrow> bool" where
  "validIdentifier s = (case s of [] \<Rightarrow> False | c # cs \<Rightarrow> ident_start c \<and> list_all ident_char cs)"

text \<open>The panics of \<open>NewRepository\<close> are the left of its result.\<close>

datatype queue_panic = InvalidQueueTableName string | InvalidDeadLetterTableName string

definition NewQueueRepository :: "string \<Rightarrow> string \<Rightarrow> queue_panic + QueueRepository" where
  "NewQueueRepository qt dlt =
     (if \<not> validIdentifier qt then Inl (InvalidQueueTableName qt)
      else if \<not> validIdentifier dlt then Inl (InvalidDeadLetterTableName dlt)
      else Inr \<lparr>queueTable = qt, deadLetterTable = dlt\<rparr>)"

text \<open>A statement over the repository's queue table or dead-letter table.\<close>

definition on_queue :: "QueueRepository \<Rightarrow> 'a stmt \<Rightarrow> 'a stmt" where
  "on_queue r q now uid d =
     (if queueTable r = ''webhook_events'' then q now uid d else Inl (UndefinedTable (queueTable r)))"

definition on_dead_letter :: "QueueRepository \<Rightarrow> 'a stmt \<Rightarrow> 'a stmt" where
  "on_dead_letter r q now uid d =
     (if deadLetterTable r = ''dead_letter_events'' then q now uid d
      else Inl (UndefinedTable (deadLetterTable r)))"

section \<open>Enqueue\<close>

definition insert_job :: "env \<Rightarrow> uuid \<Rightarrow> string \<Rightarrow> string \<Rightarrow> (uuid \<times> int \<times> instant \<times> instant) stmt" where
  "insert_job E tenantID jobType payload now uid d =
     (if uid \<in> job_ID ` set (webhook_events d) then Inl (UniqueViolation ''webhook_events_pkey'')
      else if \<not> tenant_exists d tenantID then Inl (ForeignKeyViolation ''webhook_events_tenant_id_fkey'')
      else Inr ((uid, 0, now, now), d\<lparr>webhook_events := webhook_events d @
        [\<lparr>job_ID = uid, job_TenantID = tenantID, job_JobType = jobType,
          job_Payload = pg_jsonb E payload, job_Status = JobPending, job_AttemptCount = 0,
          job_NextRetryAt = now, job_CreatedAt = now, job_LastError = None\<rparr>]\<rparr>))"

definition Enqueue :: "env \<Rightarrow> QueueRepository \<Rightarrow> uuid \<Rightarrow> string \<Rightarrow> string \<Rightarrow> (world, error, Job) comp" where
  "Enqueue E r tenantID jobType payload =
     bindC (wrapE (\<lambda>e. Errorf ''queue: enqueue: '' e '''')
              (pg E (on_queue r (insert_job E tenantID jobType payload))))
       (\<lambda>(uid, attempts, retryAt, createdAt).
          ok \<lparr>job_ID = uid, job_TenantID = tenantID, job_JobType = jobType, job_Payload = payload,
              job_Status = JobPending, job_AttemptCount = attempts, job_NextRetryAt = retryAt,
              job_CreatedAt = createdAt, job_LastError = None\<rparr>)"

section \<open>ClaimPending\<close>

text \<open>
  The inner \<open>SELECT\<close>: pending, due, not locked by another session, in order of \<open>next_retry_at\<close>,
  at most \<open>limit\<close> of them.
\<close>

definition due :: "(uuid \<Rightarrow> bool) \<Rightarrow> instant \<Rightarrow> Job \<Rightarrow> bool" where
  "due locked now j \<longleftrightarrow> job_Status j = JobPending \<and> job_NextRetryAt j \<le> now \<and> \<not> locked (job_ID j)"

definition claimable :: "(uuid \<Rightarrow> bool) \<Rightarrow> instant \<Rightarrow> int \<Rightarrow> Job list \<Rightarrow> Job list" where
  "claimable locked now limit js = take (nat limit) (sort_key job_NextRetryAt (filter (due locked now) js))"

definition mark_processing :: "uuid set \<Rightarrow> Job \<Rightarrow> Job" where
  "mark_processing ids j = (if job_ID j \<in> ids then j\<lparr>job_Status := JobProcessing\<rparr> else j)"

definition claim_jobs :: "(uuid \<Rightarrow> bool) \<Rightarrow> int \<Rightarrow> (Job list) stmt" where
  "claim_jobs locked limit now uid d =
     (if limit < 0 then Inl InvalidLimit
      else let ids = job_ID ` set (claimable locked now limit (webhook_events d));
               js = map (mark_processing ids) (webhook_events d)
           in Inr (filter (\<lambda>j. job_ID j \<in> ids) js, d\<lparr>webhook_events := js\<rparr>))"

definition ClaimPending :: "env \<Rightarrow> QueueRepository \<Rightarrow> int \<Rightarrow> (world, error, Job list) comp" where
  "ClaimPending E r limit =
     wrapE (\<lambda>e. Errorf ''queue: claim pending: '' e '''')
       (\<lambda>w. pg E (on_queue r (claim_jobs (row_locked E (tick w)) limit)) w)"

section \<open>Get, MarkDelivered, ScheduleRetry, MoveToDeadLetter\<close>

definition select_job :: "uuid \<Rightarrow> uuid \<Rightarrow> tables \<Rightarrow> pg_error + Job" where
  "select_job tenantID jobID d =
     (case find (\<lambda>j. job_ID j = jobID \<and> job_TenantID j = tenantID) (webhook_events d) of
        None \<Rightarrow> Inl NoRows | Some j \<Rightarrow> Inr j)"

definition Get :: "env \<Rightarrow> QueueRepository \<Rightarrow> uuid \<Rightarrow> uuid \<Rightarrow> (world, error, Job) comp" where
  "Get E r tenantID jobID =
     wrapE (\<lambda>e. if errors_Is e (Pg NoRows) then ErrJobNotFound else Errorf ''queue: get: '' e '''')
       (pg E (on_queue r (\<lambda>_ _ d. case select_job tenantID jobID d of Inl e \<Rightarrow> Inl e | Inr j \<Rightarrow> Inr (j, d))))"

definition update_job :: "uuid \<Rightarrow> (Job \<Rightarrow> Job) \<Rightarrow> unit stmt" where
  "update_job jobID f now uid d =
     Inr ((), d\<lparr>webhook_events := map (\<lambda>j. if job_ID j = jobID then f j else j) (webhook_events d)\<rparr>)"

definition MarkDelivered :: "env \<Rightarrow> QueueRepository \<Rightarrow> uuid \<Rightarrow> (world, error, unit) comp" where
  "MarkDelivered E r jobID =
     wrapE (\<lambda>e. Errorf ''queue: mark delivered: '' e '''')
       (pg E (on_queue r (update_job jobID (\<lambda>j. j\<lparr>job_Status := JobDelivered\<rparr>))))"

definition retried :: "env \<Rightarrow> int \<Rightarrow> instant \<Rightarrow> string \<Rightarrow> Job \<Rightarrow> Job" where
  "retried E attemptCount nextRetryAt lastError j =
     j\<lparr>job_Status := JobPending, job_AttemptCount := attemptCount,
       job_NextRetryAt := pg_timestamptz E nextRetryAt, job_LastError := Some lastError\<rparr>"

definition ScheduleRetry ::
  "env \<Rightarrow> QueueRepository \<Rightarrow> uuid \<Rightarrow> int \<Rightarrow> instant \<Rightarrow> string \<Rightarrow> (world, error, unit) comp" where
  "ScheduleRetry E r jobID attemptCount nextRetryAt lastError =
     wrapE (\<lambda>e. Errorf ''queue: schedule retry: '' e '''')
       (pg E (on_queue r (update_job jobID (retried E attemptCount nextRetryAt lastError))))"

definition insert_dead_letter :: "env \<Rightarrow> Job \<Rightarrow> string \<Rightarrow> unit stmt" where
  "insert_dead_letter E j lastError now uid d =
     (if uid \<in> dl_ID ` set (dead_letter_events d) then Inl (UniqueViolation ''dead_letter_events_pkey'')
      else if \<not> tenant_exists d (job_TenantID j)
        then Inl (ForeignKeyViolation ''dead_letter_events_tenant_id_fkey'')
      else Inr ((), d\<lparr>dead_letter_events := dead_letter_events d @
        [\<lparr>dl_ID = uid, dl_TenantID = job_TenantID j, dl_OriginalJobID = job_ID j,
          dl_JobType = job_JobType j, dl_Payload = pg_jsonb E (job_Payload j),
          dl_AttemptCount = job_AttemptCount j, dl_LastError = Some lastError, dl_FailedAt = now\<rparr>]\<rparr>))"

definition MoveToDeadLetter :: "env \<Rightarrow> QueueRepository \<Rightarrow> Job \<Rightarrow> string \<Rightarrow> (world, error, unit) comp" where
  "MoveToDeadLetter E r j lastError =
     bindC (wrapE (\<lambda>e. Errorf ''queue: insert dead letter job: '' e '''')
              (pg E (on_dead_letter r (insert_dead_letter E j lastError))))
       (\<lambda>_. wrapE (\<lambda>e. Errorf ''queue: mark original job failed: '' e '''')
              (pg E (on_queue r (update_job (job_ID j)
                 (\<lambda>x. x\<lparr>job_Status := JobFailed, job_LastError := Some lastError\<rparr>)))))"

section \<open>What a claim takes\<close>

lemma claimable_due: "j \<in> set (claimable locked now limit js) \<Longrightarrow> j \<in> set js \<and> due locked now j"
  by (auto simp: claimable_def dest: in_set_takeD)

lemma length_claimable:
  "length (claimable locked now limit js) = min (nat limit) (length (filter (due locked now) js))"
  by (simp add: claimable_def min.commute)

lemma distinct_claimable:
  "distinct (map job_ID js) \<Longrightarrow> distinct (map job_ID (claimable locked now limit js))"
  by (auto simp: distinct_map claimable_def inj_on_def dest!: in_set_takeD)

lemma claimable_first:
  assumes "j \<in> set js" and "due locked now j" and "j \<notin> set (claimable locked now limit js)"
    and "k \<in> set (claimable locked now limit js)"
  shows "job_NextRetryAt k \<le> job_NextRetryAt j"
proof -
  let ?xs = "sort_key job_NextRetryAt (filter (due locked now) js)"
  have "j \<in> set ?xs" using assms(1,2) by simp
  then have "j \<in> set (drop (nat limit) ?xs)"
    using assms(3) by (metis UnE append_take_drop_id claimable_def set_append)
  moreover have "sorted (map job_NextRetryAt (take (nat limit) ?xs) @ map job_NextRetryAt (drop (nat limit) ?xs))"
    by (metis append_take_drop_id map_append sorted_sort_key)
  then have "\<forall>x \<in> set (take (nat limit) ?xs). \<forall>y \<in> set (drop (nat limit) ?xs). job_NextRetryAt x \<le> job_NextRetryAt y"
    by (simp only: sorted_append set_map) blast
  ultimately show ?thesis
    using assms(4) [unfolded claimable_def] by blast
qed

lemma id_eq_row:
  "distinct (map job_ID js) \<Longrightarrow> j \<in> set js \<Longrightarrow> k \<in> set js \<Longrightarrow> job_ID j = job_ID k \<Longrightarrow> j = k"
  by (auto simp: distinct_map inj_on_def)

lemma filter_ids_set:
  assumes "distinct (map job_ID js)" and "set ks \<subseteq> set js"
  shows "set (filter (\<lambda>j. job_ID j \<in> job_ID ` set ks) js) = set ks"
proof
  show "set (filter (\<lambda>j. job_ID j \<in> job_ID ` set ks) js) \<subseteq> set ks"
  proof
    fix j
    assume "j \<in> set (filter (\<lambda>j. job_ID j \<in> job_ID ` set ks) js)"
    then obtain k where "j \<in> set js" "k \<in> set ks" "job_ID j = job_ID k" by auto
    then show "j \<in> set ks" using id_eq_row [OF assms(1)] assms(2) by blast
  qed
  show "set ks \<subseteq> set (filter (\<lambda>j. job_ID j \<in> job_ID ` set ks) js)" using assms(2) by auto
qed

lemma length_filter_sub:
  assumes "distinct (map job_ID js)" and "set ks \<subseteq> set js" and "distinct (map job_ID ks)"
  shows "length (filter (\<lambda>j. job_ID j \<in> job_ID ` set ks) js) = length ks"
proof -
  note filter_ids_set [OF assms(1,2)]
  moreover have "distinct (filter (\<lambda>j. job_ID j \<in> job_ID ` set ks) js)" "distinct ks"
    using assms(1,3) by (auto simp: distinct_map)
  ultimately show ?thesis by (metis distinct_card)
qed

lemma job_ID_mark [simp]: "job_ID (mark_processing ids j) = job_ID j"
  by (simp add: mark_processing_def)

lemma claim_jobs_spec:
  assumes "claim_jobs locked limit now uid d = Inr (js, d')" and "distinct (map job_ID (webhook_events d))"
  defines "taken \<equiv> claimable locked now limit (webhook_events d)"
  shows "d' = d\<lparr>webhook_events := map (mark_processing (job_ID ` set taken)) (webhook_events d)\<rparr>"
    and "set js = (\<lambda>j. j\<lparr>job_Status := JobProcessing\<rparr>) ` set taken"
    and "length js = min (nat limit) (length (filter (due locked now) (webhook_events d)))"
    and "0 \<le> limit"
proof -
  have d': "d' = d\<lparr>webhook_events := map (mark_processing (job_ID ` set taken)) (webhook_events d)\<rparr>"
    and js: "js = filter (\<lambda>j. job_ID j \<in> job_ID ` set taken)
               (map (mark_processing (job_ID ` set taken)) (webhook_events d))"
    and lim: "0 \<le> limit"
    using assms(1) by (auto simp: claim_jobs_def taken_def Let_def split: if_splits)
  have sub: "set taken \<subseteq> set (webhook_events d)" using claimable_due by (auto simp: taken_def)
  have js': "js = map (\<lambda>j. j\<lparr>job_Status := JobProcessing\<rparr>)
      (filter (\<lambda>j. job_ID j \<in> job_ID ` set taken) (webhook_events d))"
    unfolding js by (auto simp: filter_map comp_def mark_processing_def)
  show "d' = d\<lparr>webhook_events := map (mark_processing (job_ID ` set taken)) (webhook_events d)\<rparr>"
    by (rule d')
  show "set js = (\<lambda>j. j\<lparr>job_Status := JobProcessing\<rparr>) ` set taken"
    unfolding js' set_map filter_ids_set [OF assms(2) sub] ..
  show "length js = min (nat limit) (length (filter (due locked now) (webhook_events d)))"
    using length_filter_sub [OF assms(2) sub distinct_claimable [OF assms(2), of locked now limit, folded taken_def]]
    by (simp add: js' taken_def length_claimable)
  show "0 \<le> limit" by (rule lim)
qed

text \<open>A repository over the two tables of the schema, as \<open>webhook.NewRepository\<close> builds it.\<close>

definition over_schema :: "QueueRepository \<Rightarrow> bool" where
  "over_schema r \<longleftrightarrow> queueTable r = ''webhook_events'' \<and> deadLetterTable r = ''dead_letter_events''"

lemma ClaimPending_InrD:
  assumes "ClaimPending E r limit w = (Inr js, w')"
  shows "claim_jobs (row_locked E (tick w)) limit (sql_now E w) (gen_random_uuid E (tick w)) (db w)
           = Inr (js, db w')"
    and "w' = (step w)\<lparr>db := db w'\<rparr>"
  using assms
  by (auto simp: ClaimPending_def wrapE_def pg_def on_queue_def
      split: prod.splits sum.splits fault.splits if_splits)

lemma keeps_ClaimPending: "(\<And>d js. g (d\<lparr>webhook_events := js\<rparr>) = g d) \<Longrightarrow> keeps (\<lambda>w. g (db w)) (ClaimPending E r limit)"
  by (auto simp: ClaimPending_def keeps_def wrapE_def pg_def on_queue_def claim_jobs_def Let_def
      split: prod.splits sum.splits fault.splits if_splits)

lemma keeps_update_job:
  "(\<And>d js. g (d\<lparr>webhook_events := js\<rparr>) = g d) \<Longrightarrow> keeps (\<lambda>w. g (db w)) (pg E (on_queue r (update_job i f)))"
  by (rule keeps_pg_db) (auto simp: on_queue_def update_job_def split: if_splits)

lemma insert_job_cases:
  assumes "insert_job E t ty p now uid d = Inr (x, d')"
  obtains j where "d' = d\<lparr>webhook_events := webhook_events d @ [j]\<rparr>" and "event_for t ty (pg_jsonb E p) j"
    and "job_ID j = uid" and "uid \<notin> job_ID ` set (webhook_events d)" and "job_Payload j = pg_jsonb E p"
    and "job_NextRetryAt j = now" and "tenant_exists d t"
  using assms by (auto simp: insert_job_def event_for_def split: if_splits)

lemma Enqueue_InrD:
  assumes "Enqueue E r t ty p w = (Inr j, w')"
  shows "\<exists>x. insert_job E t ty p (sql_now E w) (gen_random_uuid E (tick w)) (db w) = Inr (x, db w')"
  using assms
  by (auto simp: Enqueue_def bindC_def wrapE_def pg_def on_queue_def ok_def
      split: prod.splits sum.splits fault.splits if_splits)

section \<open>Properties\<close>

text \<open>
  C34. A claim that succeeds takes only jobs that were pending, due and not locked by another
  session, marks exactly those as processing, returns each of them once in its new state, takes
  as many as the limit allows, and leaves behind only jobs due no earlier than the ones it took.
\<close>

theorem ClaimPending_takes_the_first_due:
  assumes "ClaimPending E r limit w = (Inr js, w')"
    and "distinct (map job_ID (webhook_events (db w)))"
  defines "old \<equiv> webhook_events (db w)" and "lock \<equiv> row_locked E (tick w)" and "now \<equiv> sql_now E w"
  shows "\<exists>taken. set taken \<subseteq> set (filter (due lock now) old) \<and>
      set js = (\<lambda>j. j\<lparr>job_Status := JobProcessing\<rparr>) ` set taken \<and>
      length js = min (nat limit) (length (filter (due lock now) old)) \<and>
      db w' = (db w)\<lparr>webhook_events := map (mark_processing (job_ID ` set taken)) old\<rparr> \<and>
      (\<forall>k \<in> set taken. \<forall>j \<in> set (filter (due lock now) old) - set taken.
         job_NextRetryAt k \<le> job_NextRetryAt j)"
proof -
  note claim = claim_jobs_spec [OF ClaimPending_InrD(1) [OF assms(1)] assms(2)]
  show ?thesis
    using claim claimable_due [of _ lock now limit old] claimable_first [of _ old lock now limit]
    unfolding old_def lock_def now_def
    by (intro exI [of _ "claimable (row_locked E (tick w)) (sql_now E w) limit (webhook_events (db w))"])
      auto
qed


end
