(* ===== verification/Webhook.thy ===== *)
theory Webhook
  imports Queue "HOL-Library.Log_Nat"
begin

text \<open>
  \<open>internal/webhook\<close>: signing, delivery, retry policy and worker, on top of the queue. A goroutine's
  panic is the left of a computation's result; everything else \<open>ProcessEvent\<close> meets is handled.
\<close>

section \<open>Models and errors\<close>

datatype event_status = EventPending | EventProcessing | EventDelivered | EventFailed

record Event =
  ev_ID :: uuid
  ev_TenantID :: uuid
  ev_EventType :: string
  ev_Payload :: string
  ev_Status :: event_status
  ev_AttemptCount :: int
  ev_NextRetryAt :: instant
  ev_CreatedAt :: instant
  ev_LastError :: "string option"

definition ErrEventNotFound :: error where
  "ErrEventNotFound = New ''webhook: event not found''"

definition ErrNoEndpointConfigured :: error where
  "ErrNoEndpointConfigured = New ''webhook: tenant has no webhook endpoint configured''"

definition ErrDeliveryFailed :: error where
  "ErrDeliveryFailed = New ''webhook: delivery attempt failed''"

section \<open>Signer\<close>

definition Unix :: "instant \<Rightarrow> int" where
  "Unix t = t div 1000000000"

definition signedContent :: "instant \<Rightarrow> string \<Rightarrow> string" where
  "signedContent timestamp payload = FormatInt (Unix timestamp) @ ''.'' @ payload"

definition SignPayload :: "string \<Rightarrow> instant \<Rightarrow> string \<Rightarrow> string" where
  "SignPayload secret timestamp payload =
     hex_EncodeToString (hmac_sha256 secret (signedContent timestamp payload))"

definition VerifySignature :: "string \<Rightarrow> instant \<Rightarrow> string \<Rightarrow> string \<Rightarrow> bool" where
  "VerifySignature secret timestamp payload signature =
     (SignPayload secret timestamp payload = signature)"

section \<open>Repository\<close>

definition NewWebhookRepository :: "queue_panic + QueueRepository" where
  "NewWebhookRepository = NewQueueRepository ''webhook_events'' ''dead_letter_events''"

fun event_status_of :: "job_status \<Rightarrow> event_status" where
  "event_status_of JobPending = EventPending"
| "event_status_of JobProcessing = EventProcessing"
| "event_status_of JobDelivered = EventDelivered"
| "event_status_of JobFailed = EventFailed"

fun job_status_of :: "event_status \<Rightarrow> job_status" where
  "job_status_of EventPending = JobPending"
| "job_status_of EventProcessing = JobProcessing"
| "job_status_of EventDelivered = JobDelivered"
| "job_status_of EventFailed = JobFailed"

definition eventFromJob :: "Job \<Rightarrow> Event" where
  "eventFromJob j = \<lparr>ev_ID = job_ID j, ev_TenantID = job_TenantID j, ev_EventType = job_JobType j,
     ev_Payload = job_Payload j, ev_Status = event_status_of (job_Status j),
     ev_AttemptCount = job_AttemptCount j, ev_NextRetryAt = job_NextRetryAt j,
     ev_CreatedAt = job_CreatedAt j, ev_LastError = job_LastError j\<rparr>"

definition jobFromEvent :: "Event \<Rightarrow> Job" where
  "jobFromEvent ev = \<lparr>job_ID = ev_ID ev, job_TenantID = ev_TenantID ev, job_JobType = ev_EventType ev,
     job_Payload = ev_Payload ev, job_Status = job_status_of (ev_Status ev),
     job_AttemptCount = ev_AttemptCount ev, job_NextRetryAt = ev_NextRetryAt ev,
     job_CreatedAt = ev_CreatedAt ev, job_LastError = ev_LastError ev\<rparr>"

definition Enqueue_event :: "env \<Rightarrow> QueueRepository \<Rightarrow> uuid \<Rightarrow> string \<Rightarrow> string \<Rightarrow> (world, error, Event) comp" where
  "Enqueue_event E r tenantID eventType payload =
     bindC (wrapE (\<lambda>e. Errorf ''webhook: enqueue: '' e '''') (Enqueue E r tenantID eventType payload))
       (\<lambda>j. ok (eventFromJob j))"

definition ClaimPendingEvents :: "env \<Rightarrow> QueueRepository \<Rightarrow> int \<Rightarrow> (world, error, Event list) comp" where
  "ClaimPendingEvents E r limit =
     bindC (wrapE (\<lambda>e. Errorf ''webhook: claim pending events: '' e '''') (ClaimPending E r limit))
       (\<lambda>js. ok (map eventFromJob js))"

definition GetEvent :: "env \<Rightarrow> QueueRepository \<Rightarrow> uuid \<Rightarrow> uuid \<Rightarrow> (world, error, Event) comp" where
  "GetEvent E r tenantID eventID =
     bindC (wrapE (\<lambda>e. if errors_Is e ErrJobNotFound then ErrEventNotFound
                      else Errorf ''webhook: get event: '' e '''')
              (Get E r tenantID eventID))
       (\<lambda>j. ok (eventFromJob j))"

definition MarkDelivered_event :: "env \<Rightarrow> QueueRepository \<Rightarrow> uuid \<Rightarrow> (world, error, unit) comp" where
  "MarkDelivered_event E r eventID =
     wrapE (\<lambda>e. Errorf ''webhook: mark delivered: '' e '''') (MarkDelivered E r eventID)"

definition ScheduleRetry_event ::
  "env \<Rightarrow> QueueRepository \<Rightarrow> uuid \<Rightarrow> int \<Rightarrow> instant \<Rightarrow> string \<Rightarrow> (world, error, unit) comp" where
  "ScheduleRetry_event E r eventID attemptCount nextRetryAt lastError =
     wrapE (\<lambda>e. Errorf ''webhook: schedule retry: '' e '''')
       (ScheduleRetry E r eventID attemptCount nextRetryAt lastError)"

definition MoveToDeadLetter_event :: "env \<Rightarrow> QueueRepository \<Rightarrow> Event \<Rightarrow> string \<Rightarrow> (world, error, unit) comp" where
  "MoveToDeadLetter_event E r ev lastError =
     wrapE (\<lambda>e. Errorf ''webhook: move to dead letter: '' e '''')
       (MoveToDeadLetter E r (jobFromEvent ev) lastError)"

definition EnqueueEvent :: "env \<Rightarrow> QueueRepository \<Rightarrow> EventEnqueuer" where
  "EnqueueEvent E r tenantID eventType payload =
     bindC (Enqueue_event E r tenantID eventType payload) (\<lambda>_. ok ())"

definition select_webhook :: "uuid \<Rightarrow> tables \<Rightarrow> pg_error + (string option \<times> string option)" where
  "select_webhook tenantID d =
     (case find (\<lambda>t. tn_ID t = tenantID) (tenants d) of
        None \<Rightarrow> Inl NoRows | Some t \<Rightarrow> Inr (tn_WebhookURL t, tn_WebhookSecret t))"

definition GetTenantWebhookConfig :: "env \<Rightarrow> uuid \<Rightarrow> (world, error, string \<times> string) comp" where
  "GetTenantWebhookConfig E tenantID =
     bindC (wrapE (\<lambda>e. Errorf ''webhook: get tenant webhook config: '' e '''')
              (pg_select E (select_webhook tenantID)))
       (\<lambda>(nullURL, nullSecret).
          case nullURL of
            None \<Rightarrow> raise ErrNoEndpointConfigured
          | Some url \<Rightarrow> if url = [] then raise ErrNoEndpointConfigured
              else ok (url, case nullSecret of None \<Rightarrow> [] | Some s \<Rightarrow> s))"

section \<open>Service\<close>

definition Second :: duration where "Second = 1000000000"

definition DefaultMaxAttempts :: int where "DefaultMaxAttempts = 5"
definition DefaultBaseBackoff :: duration where "DefaultBaseBackoff = 30 * Second"
definition DefaultMaxBackoff :: duration where "DefaultMaxBackoff = 3600 * Second"

record WebhookService =
  ws_repo :: QueueRepository
  ws_maxAttempts :: int
  ws_baseBackoff :: duration
  ws_maxBackoff :: duration

definition WithMaxAttempts :: "int \<Rightarrow> WebhookService \<Rightarrow> WebhookService" where
  "WithMaxAttempts n s = s\<lparr>ws_maxAttempts := n\<rparr>"
definition WithBaseBackoff :: "duration \<Rightarrow> WebhookService \<Rightarrow> WebhookService" where
  "WithBaseBackoff d s = s\<lparr>ws_baseBackoff := d\<rparr>"
definition WithMaxBackoff :: "duration \<Rightarrow> WebhookService \<Rightarrow> WebhookService" where
  "WithMaxBackoff d s = s\<lparr>ws_maxBackoff := d\<rparr>"

definition NewWebhookService :: "QueueRepository \<Rightarrow> (WebhookService \<Rightarrow> WebhookService) list \<Rightarrow> WebhookService" where
  "NewWebhookService r opts =
     fold (\<lambda>opt s. opt s) opts
       \<lparr>ws_repo = r, ws_maxAttempts = DefaultMaxAttempts, ws_baseBackoff = DefaultBaseBackoff,
        ws_maxBackoff = DefaultMaxBackoff\<rparr>"

text \<open>
  \<open>deliver\<close>: one signed POST to the tenant's endpoint; the outcome of the request is the
  environment's, and the request itself is recorded.
\<close>

definition http_do :: "env \<Rightarrow> http_request \<Rightarrow> (world, 'e, string + int) comp" where
  "http_do E rq = (\<lambda>w. (Inr (http_Do E (tick w) rq), (step w)\<lparr>sent := sent w @ [rq]\<rparr>))"

definition delivery_request :: "Event \<Rightarrow> string \<Rightarrow> string \<Rightarrow> instant \<Rightarrow> http_request" where
  "delivery_request ev url secret timestamp =
     \<lparr>hr_URL = url,
      hr_Header = [(''Content-Type'', ''application/json''),
        (''X-Transacta-Event-Type'', ev_EventType ev),
        (''X-Transacta-Timestamp'', FormatInt (Unix timestamp)),
        (''X-Transacta-Signature'', ''sha256='' @ SignPayload secret timestamp (ev_Payload ev))],
      hr_Body = ev_Payload ev\<rparr>"

definition deliver :: "env \<Rightarrow> Event \<Rightarrow> (world, error, unit) comp" where
  "deliver E ev =
     bindC (GetTenantWebhookConfig E (ev_TenantID ev)) (\<lambda>(url, secret).
     bindC (go_now E) (\<lambda>timestamp.
       case http_NewRequest E url of
         Some msg \<Rightarrow> raise (Errorf ''webhook: build request: '' (Lib msg) '''')
       | None \<Rightarrow>
           bindC (http_do E (delivery_request ev url secret timestamp)) (\<lambda>resp.
             case resp of
               Inl msg \<Rightarrow> raise (Errorf '''' ErrDeliveryFailed ('': '' @ msg))
             | Inr statusCode \<Rightarrow>
                 if statusCode < 200 \<or> 300 \<le> statusCode
                 then raise (Errorf '''' ErrDeliveryFailed ('': received status '' @ FormatInt statusCode))
                 else ok ())))"

text \<open>
  \<open>float64\<close> of an \<open>int64\<close>: 53 significant bits, ties to even. Scaling by a power of two is exact, so
  \<open>time.Duration(float64(base) * math.Pow(2, attempt-1))\<close> is the scaled integer, rounded towards zero
  for a negative exponent, and is left to the processor once it leaves the \<open>int64\<close> range or the
  power is infinite.
\<close>

definition float64 :: "int \<Rightarrow> int" where
  "float64 x =
     (let a = \<bar>x\<bar>; k = floorlog 2 (nat a) - 53; q = a div 2 ^ k; m = a mod 2 ^ k; half = 2 ^ k div 2
      in if a < 2 ^ 53 then x
         else sgn x * (if half < m \<or> (m = half \<and> odd q) then q + 1 else q) * 2 ^ k)"

definition scaled_backoff :: "env \<Rightarrow> duration \<Rightarrow> int \<Rightarrow> duration" where
  "scaled_backoff E base att =
     (let v = (if 1 \<le> att then float64 base * 2 ^ nat (att - 1)
               else sgn base * (\<bar>float64 base\<bar> div 2 ^ nat (1 - att)))
      in if fits64 v \<and> att \<le> 1024 then v else int64_of_float E v)"

definition clamp_backoff :: "WebhookService \<Rightarrow> duration \<Rightarrow> duration" where
  "clamp_backoff s b = (if ws_maxBackoff s < b \<or> b \<le> 0 then ws_maxBackoff s else b)"

text \<open>\<open>rand.Int\<close> panics when its bound is not positive.\<close>

definition jitter :: "env \<Rightarrow> duration \<Rightarrow> (world, error, duration) comp" where
  "jitter E d =
     (if d \<le> 0 then ok 0
      else let spread = d div 5 in
        if 2 * spread \<le> 0 then raise (Lib ''panic: crypto/rand: argument to Int is <= 0'')
        else (\<lambda>w. (case rand_Int E (tick w) (2 * spread) of
                     None \<Rightarrow> (Inr d, step w)
                   | Some n \<Rightarrow> (Inr (wrap64 (d - spread + n)), step w))))"

definition backoffForAttempt :: "env \<Rightarrow> WebhookService \<Rightarrow> int \<Rightarrow> (world, error, duration) comp" where
  "backoffForAttempt E s att = jitter E (clamp_backoff s (scaled_backoff E (ws_baseBackoff s) att))"

definition ProcessEvent :: "env \<Rightarrow> WebhookService \<Rightarrow> Event \<Rightarrow> (world, error, unit) comp" where
  "ProcessEvent E s ev =
     bindC (attempt (deliver E ev)) (\<lambda>deliverErr.
       let att = ev_AttemptCount ev + 1 in
       case deliverErr of
         Inr _ \<Rightarrow>
           bindC (inc WebhookDeliveredTotal) (\<lambda>_.
           bindC (attempt (MarkDelivered_event E (ws_repo s) (ev_ID ev))) (\<lambda>_. ok ()))
       | Inl err \<Rightarrow>
           if errors_Is err ErrNoEndpointConfigured then
             bindC (inc WebhookSkippedNoEndpointTotal) (\<lambda>_.
             bindC (go_now E) (\<lambda>now.
             bindC (attempt (ScheduleRetry_event E (ws_repo s) (ev_ID ev) (ev_AttemptCount ev)
                       (now + ws_baseBackoff s) (Error (pg_message E) err))) (\<lambda>_. ok ())))
           else if ws_maxAttempts s \<le> att then
             bindC (inc WebhookDeadLetteredTotal) (\<lambda>_.
             bindC (attempt (in_tx E (\<lambda>e. e) (\<lambda>e. e)
                       (MoveToDeadLetter_event E (ws_repo s) (ev\<lparr>ev_AttemptCount := att\<rparr>)
                          (Error (pg_message E) err)))) (\<lambda>_. ok ()))
           else
             bindC (inc WebhookRetriedTotal) (\<lambda>_.
             bindC (go_now E) (\<lambda>now.
             bindC (backoffForAttempt E s att) (\<lambda>b.
             bindC (attempt (ScheduleRetry_event E (ws_repo s) (ev_ID ev) att (now + b)
                       (Error (pg_message E) err))) (\<lambda>_. ok ())))))"

section \<open>Worker\<close>

definition DefaultBatchSize :: int where "DefaultBatchSize = 20"
definition DefaultPollInterval :: duration where "DefaultPollInterval = 5 * Second"

record Worker =
  wk_repo :: QueueRepository
  wk_svc :: WebhookService
  wk_batchSize :: int
  wk_pollInterval :: duration

definition WithBatchSize :: "int \<Rightarrow> Worker \<Rightarrow> Worker" where
  "WithBatchSize n wk = wk\<lparr>wk_batchSize := n\<rparr>"
definition WithPollInterval :: "duration \<Rightarrow> Worker \<Rightarrow> Worker" where
  "WithPollInterval d wk = wk\<lparr>wk_pollInterval := d\<rparr>"

definition NewWorker :: "QueueRepository \<Rightarrow> WebhookService \<Rightarrow> (Worker \<Rightarrow> Worker) list \<Rightarrow> Worker" where
  "NewWorker r s opts =
     fold (\<lambda>opt wk. opt wk) opts
       \<lparr>wk_repo = r, wk_svc = s, wk_batchSize = DefaultBatchSize, wk_pollInterval = DefaultPollInterval\<rparr>"

text \<open>
  \<open>processBatch\<close>: claim in a transaction of its own, then process every claimed event. The
  goroutines of one batch run here one after the other; each writes only the rows of its own
  event (\<open>processed_other\<close> below).
\<close>

definition processBatch :: "env \<Rightarrow> Worker \<Rightarrow> (world, error, unit) comp" where
  "processBatch E wk =
     bindC (attempt (in_tx E (\<lambda>e. e) (\<lambda>e. e) (ClaimPendingEvents E (wk_repo wk) (wk_batchSize wk))))
       (\<lambda>r. case r of
              Inl _ \<Rightarrow> ok ()
            | Inr evs \<Rightarrow> bindC (mapC (ProcessEvent E (wk_svc wk)) evs) (\<lambda>_. ok ()))"

text \<open>\<open>Run\<close> over what its \<open>select\<close> receives: ticks of the ticker until the context is done.\<close>

datatype signal = Tick | CtxDone

fun Run :: "env \<Rightarrow> Worker \<Rightarrow> signal list \<Rightarrow> (world, error, unit) comp" where
  "Run E wk [] = ok ()"
| "Run E wk (CtxDone # _) = ok ()"
| "Run E wk (Tick # sigs) = bindC (processBatch E wk) (\<lambda>_. Run E wk sigs)"

section \<open>Adapters\<close>

lemma job_status_of_inv [simp]: "job_status_of (event_status_of st) = st"
  by (cases st) simp_all

lemma event_status_of_inv [simp]: "event_status_of (job_status_of st) = st"
  by (cases st) simp_all

lemma jobFromEvent_inv [simp]: "jobFromEvent (eventFromJob j) = j"
  by (simp add: jobFromEvent_def eventFromJob_def)

lemma eventFromJob_inv [simp]: "eventFromJob (jobFromEvent ev) = ev"
  by (simp add: jobFromEvent_def eventFromJob_def)

lemma eventFromJob_sel [simp]:
  "ev_ID (eventFromJob j) = job_ID j" "ev_AttemptCount (eventFromJob j) = job_AttemptCount j"
  "ev_TenantID (eventFromJob j) = job_TenantID j" "ev_Payload (eventFromJob j) = job_Payload j"
  by (simp_all add: eventFromJob_def)

lemma NewWebhookRepository_ok:
  "NewWebhookRepository = Inr \<lparr>queueTable = ''webhook_events'', deadLetterTable = ''dead_letter_events''\<rparr>"
  by (simp add: NewWebhookRepository_def NewQueueRepository_def validIdentifier_def ident_start_def
      ident_char_def)

text \<open>The webhook repository honours the contract of \<open>EventEnqueuer\<close>.\<close>

interpretation webhook_events: event_port "pg_jsonb E" "Some (EnqueueEvent E r)"
proof unfold_locales
  fix f t ty p w w' u
  assume f: "Some (EnqueueEvent E r) = Some f"
  show "keeps (\<lambda>w. sans_events (db w)) (f t ty p)"
    using f by (auto simp: EnqueueEvent_def Enqueue_event_def Enqueue_def sans_events_def on_queue_def
        intro!: keeps_bindC keeps_wrapE keeps_pg_db keeps_ok split: prod.splits if_splits
        elim!: insert_job_cases)
  show "keeps ambient (f t ty p)"
    using f by (auto simp: EnqueueEvent_def Enqueue_event_def Enqueue_def ambient_def
        intro!: keeps_bindC keeps_wrapE keeps_pg keeps_ok split: prod.splits)
  assume "f t ty p w = (Inr u, w')"
  with f obtain j where "Enqueue E r t ty p w = (Inr j, w')"
    by (auto simp: EnqueueEvent_def Enqueue_event_def bindC_def wrapE_def ok_def
        split: prod.splits sum.splits)
  then show "one_event t ty (pg_jsonb E p) (db w) (db w')"
    using Enqueue_InrD unfolding one_event_def by (fastforce elim!: insert_job_cases)
qed

section \<open>The life of one event\<close>

definition upd_row :: "uuid \<Rightarrow> (Job \<Rightarrow> Job) \<Rightarrow> tables \<Rightarrow> tables" where
  "upd_row i f d = d\<lparr>webhook_events := map (\<lambda>j. if job_ID j = i then f j else j) (webhook_events d)\<rparr>"

text \<open>
  The abstract transition of one \<open>ProcessEvent\<close> on the tables. \<open>stuck\<close> is what remains of a
  database failure or of a panic: the row is left as it was.
\<close>

inductive processed :: "WebhookService \<Rightarrow> Event \<Rightarrow> tables \<Rightarrow> tables \<Rightarrow> bool" for s ev where
  stuck: "processed s ev d d"
| delivered: "processed s ev d (upd_row (ev_ID ev) (\<lambda>j. j\<lparr>job_Status := JobDelivered\<rparr>) d)"
| skipped: "processed s ev d (upd_row (ev_ID ev) (\<lambda>j. j\<lparr>job_Status := JobPending,
     job_AttemptCount := ev_AttemptCount ev, job_NextRetryAt := t, job_LastError := Some msg\<rparr>) d)"
| retried: "ev_AttemptCount ev + 1 < ws_maxAttempts s \<Longrightarrow>
     processed s ev d (upd_row (ev_ID ev) (\<lambda>j. j\<lparr>job_Status := JobPending,
       job_AttemptCount := ev_AttemptCount ev + 1, job_NextRetryAt := t, job_LastError := Some msg\<rparr>) d)"
| dead: "ws_maxAttempts s \<le> ev_AttemptCount ev + 1 \<Longrightarrow>
     dl_OriginalJobID dl = ev_ID ev \<Longrightarrow> dl_TenantID dl = ev_TenantID ev \<Longrightarrow>
     dl_AttemptCount dl = ev_AttemptCount ev + 1 \<Longrightarrow> dl_LastError dl = Some msg \<Longrightarrow>
     processed s ev d (upd_row (ev_ID ev) (\<lambda>j. j\<lparr>job_Status := JobFailed, job_LastError := Some msg\<rparr>)
       (d\<lparr>dead_letter_events := dead_letter_events d @ [dl]\<rparr>))"

inductive_cases processedE: "processed s ev d d'"

lemma wp_update_job:
  "wp (pg E (on_queue r (update_job i f))) Q R w \<longleftrightarrow>
     (if queueTable r = ''webhook_events'' then
        (case outcome E (tick w) of
           Done \<Rightarrow> Q () ((step w)\<lparr>db := upd_row i f (db w)\<rparr>)
         | Failed \<Rightarrow> R (Pg Unavailable) (step w)
         | Lost \<Rightarrow> R (Pg Unavailable) ((step w)\<lparr>db := upd_row i f (db w)\<rparr>))
      else R (Pg (if outcome E (tick w) = Done then UndefinedTable (queueTable r) else Unavailable)) (step w))"
  by (auto simp: wp_pg on_queue_def update_job_def upd_row_def split: fault.splits)

lemma wp_http_do [wp_simps]:
  "wp (http_do E rq) Q R = (\<lambda>w. Q (http_Do E (tick w) rq) ((step w)\<lparr>sent := sent w @ [rq]\<rparr>))"
  by (simp add: wp_def http_do_def fun_eq_iff)

lemma keeps_deliver: "keeps db (deliver E ev)"
proof (rule keepsI)
  fix w
  have "wp (deliver E ev) (\<lambda>_ w'. db w' = db w) (\<lambda>_ w'. db w' = db w) w"
    unfolding deliver_def GetTenantWebhookConfig_def
    by (auto simp: wp_simps wp_pg_select split: fault.splits sum.splits option.splits prod.splits)
  then show "db (snd (deliver E ev w)) = db w"
    by (simp add: wp_def split: prod.splits sum.splits)
qed

lemma keeps_jitter: "keeps db (jitter E d)"
  by (auto simp: keeps_def jitter_def ok_def raise_def Let_def split: option.splits)

lemma leads_update:
  "P (db w) \<Longrightarrow> P (upd_row i f (db w)) \<Longrightarrow> leads (pg E (on_queue r (update_job i f))) P w"
  by (simp add: leads_wp wp_update_job split: fault.splits)

lemma leads_MarkDelivered:
  "P (db w) \<Longrightarrow> P (upd_row i (\<lambda>j. j\<lparr>job_Status := JobDelivered\<rparr>) (db w)) \<Longrightarrow>
   leads (MarkDelivered_event E r i) P w"
  using leads_update
  by (simp add: leads_wp MarkDelivered_event_def MarkDelivered_def wp_simps)

lemma leads_ScheduleRetry:
  "P (db w) \<Longrightarrow> P (upd_row i (\<lambda>j. j\<lparr>job_Status := JobPending, job_AttemptCount := a,
       job_NextRetryAt := pg_timestamptz E t, job_LastError := Some msg\<rparr>) (db w)) \<Longrightarrow>
   leads (ScheduleRetry_event E r i a t msg) P w"
  using leads_update [of P w i "retried E a t msg"]
  by (simp add: leads_wp ScheduleRetry_event_def ScheduleRetry_def wp_simps retried_def [abs_def])

lemma insert_dead_letter_cases:
  assumes "insert_dead_letter E j msg now uid d = Inr (u, d')"
  obtains dl where "d' = d\<lparr>dead_letter_events := dead_letter_events d @ [dl]\<rparr>"
    and "dl_OriginalJobID dl = job_ID j" and "dl_TenantID dl = job_TenantID j"
    and "dl_AttemptCount dl = job_AttemptCount j" and "dl_LastError dl = Some msg"
  using assms by (auto simp: insert_dead_letter_def split: if_splits)

lemma leads_dead_letter:
  assumes "P (db w)"
    and "\<And>dl. dl_OriginalJobID dl = ev_ID ev \<Longrightarrow> dl_TenantID dl = ev_TenantID ev \<Longrightarrow>
      dl_AttemptCount dl = ev_AttemptCount ev \<Longrightarrow> dl_LastError dl = Some msg \<Longrightarrow>
      P (upd_row (ev_ID ev) (\<lambda>j. j\<lparr>job_Status := JobFailed, job_LastError := Some msg\<rparr>)
        ((db w)\<lparr>dead_letter_events := dead_letter_events (db w) @ [dl]\<rparr>))"
  shows "leads (in_tx E (\<lambda>e. e) (\<lambda>e. e) (MoveToDeadLetter_event E r ev msg)) P w"
proof -
  have *: "\<exists>dl. db w1 = (db w)\<lparr>dead_letter_events := dead_letter_events (db w) @ [dl]\<rparr> \<and>
      dl_OriginalJobID dl = ev_ID ev \<and> dl_TenantID dl = ev_TenantID ev \<and>
      dl_AttemptCount dl = ev_AttemptCount ev \<and> dl_LastError dl = Some msg"
    if "pg E (on_dead_letter r (insert_dead_letter E (jobFromEvent ev) msg)) w0 = (Inr u, w1)"
      "db w0 = db w" for w0 w1 u
    using that
    by (auto simp: pg_def on_dead_letter_def jobFromEvent_def split: fault.splits sum.splits prod.splits if_splits
        elim!: insert_dead_letter_cases)
  have "wp (MoveToDeadLetter_event E r ev msg) (\<lambda>_ w'. P (db w')) (\<lambda>_ _. True) w0" if "db w0 = db w" for w0
    unfolding MoveToDeadLetter_event_def MoveToDeadLetter_def wp_simps
    using * [OF _ that] assms(2)
    by (fastforce simp: wp_def [of "pg E (on_dead_letter r _)"] wp_update_job jobFromEvent_def
        split: prod.splits sum.splits fault.splits)
  with assms(1) show ?thesis by (rule leads_in_tx)
qed

text \<open>Every run of \<open>ProcessEvent\<close>, whatever fails, is one of the abstract transitions.\<close>

lemma ProcessEvent_processed: "leads (ProcessEvent E s ev) (processed s ev (db w)) w"
proof -
  obtain dr w1 where dr: "deliver E ev w = (dr, w1)" and same: "db w1 = db w"
    using keepsD [OF keeps_deliver] by (metis surj_pair)
  note leads_intros = leads_MarkDelivered leads_ScheduleRetry leads_dead_letter
    leads_bind_keeps [OF keeps_jitter]
  show ?thesis
    unfolding ProcessEvent_def leads_bind_attempt [of "deliver E ev", OF dr] Let_def
    using same
    by (cases dr) (auto simp: leads_simps backoffForAttempt_def intro!: leads_intros processed.intros)
qed

section \<open>A batch and a run of the worker\<close>

lemma upd_row_other: "j \<in> set (webhook_events d) \<Longrightarrow> job_ID j \<noteq> i \<Longrightarrow> j \<in> set (webhook_events (upd_row i f d))"
  by (force simp: upd_row_def)

lemma upd_row_ids:
  "(\<And>j. job_ID (f j) = job_ID j) \<Longrightarrow> map job_ID (webhook_events (upd_row i f d)) = map job_ID (webhook_events d)"
  by (simp add: upd_row_def comp_def)

lemma processed_other:
  "processed s ev d d' \<Longrightarrow> j \<in> set (webhook_events d) \<Longrightarrow> job_ID j \<noteq> ev_ID ev \<Longrightarrow> j \<in> set (webhook_events d')"
  by (erule processedE) (simp_all add: upd_row_other)

lemma processed_ids: "processed s ev d d' \<Longrightarrow> map job_ID (webhook_events d') = map job_ID (webhook_events d)"
  by (erule processedE) (simp_all add: upd_row_ids)

text \<open>\<open>inflight d ev\<close>: the row of the event is processing, with the attempts the event was read with.\<close>

definition inflight :: "tables \<Rightarrow> Event \<Rightarrow> bool" where
  "inflight d ev \<longleftrightarrow> (\<exists>j \<in> set (webhook_events d).
     job_ID j = ev_ID ev \<and> job_Status j = JobProcessing \<and> job_AttemptCount j = ev_AttemptCount ev)"

text \<open>
  The queue's invariant: identifiers are unique, a job still to be delivered has used fewer
  attempts than the service allows, and the failed jobs are exactly those in the dead-letter
  table, each recorded there once.
\<close>

definition attempts_ok :: "WebhookService \<Rightarrow> Job \<Rightarrow> bool" where
  "attempts_ok s j \<longleftrightarrow> job_Status j \<in> {JobPending, JobProcessing} \<longrightarrow>
     0 \<le> job_AttemptCount j \<and> job_AttemptCount j < ws_maxAttempts s"

definition failed_ids :: "tables \<Rightarrow> uuid set" where
  "failed_ids d = job_ID ` {j \<in> set (webhook_events d). job_Status j = JobFailed}"

definition queue_inv :: "WebhookService \<Rightarrow> tables \<Rightarrow> bool" where
  "queue_inv s d \<longleftrightarrow>
     distinct (map job_ID (webhook_events d)) \<and>
     (\<forall>j \<in> set (webhook_events d). attempts_ok s j) \<and>
     distinct (map dl_OriginalJobID (dead_letter_events d)) \<and>
     failed_ids d = dl_OriginalJobID ` set (dead_letter_events d)"

lemma inflight_unique:
  assumes "distinct (map job_ID (webhook_events d))" and "inflight d ev"
    and "j \<in> set (webhook_events d)" and "job_ID j = ev_ID ev"
  shows "job_Status j = JobProcessing" and "job_AttemptCount j = ev_AttemptCount ev"
proof -
  obtain k where k: "k \<in> set (webhook_events d)" "job_ID k = ev_ID ev" "job_Status k = JobProcessing"
      "job_AttemptCount k = ev_AttemptCount ev"
    using assms(2) by (auto simp: inflight_def)
  then have "j = k" using id_eq_row [OF assms(1,3)] assms(4) by simp
  with k show "job_Status j = JobProcessing" and "job_AttemptCount j = ev_AttemptCount ev" by simp_all
qed

lemma failed_ids_map:
  assumes "\<And>j. job_ID (g j) = job_ID j"
  shows "failed_ids (d\<lparr>webhook_events := map g js\<rparr>) = job_ID ` {j \<in> set js. job_Status (g j) = JobFailed}"
proof -
  have "{x \<in> g ` set js. job_Status x = JobFailed} = g ` {j \<in> set js. job_Status (g j) = JobFailed}" by auto
  then show ?thesis by (simp add: failed_ids_def image_image assms)
qed

lemma failed_ids_upd:
  assumes "distinct (map job_ID (webhook_events d))" and "inflight d ev" and "\<And>j. job_ID (f j) = job_ID j"
  shows "failed_ids (upd_row (ev_ID ev) f d) =
    failed_ids d \<union> {i. i = ev_ID ev \<and> (\<exists>j \<in> set (webhook_events d). job_ID j = i \<and> job_Status (f j) = JobFailed)}"
proof -
  have "failed_ids (upd_row (ev_ID ev) f d) = job_ID ` {j \<in> set (webhook_events d).
      job_Status (if job_ID j = ev_ID ev then f j else j) = JobFailed}"
    unfolding upd_row_def by (rule failed_ids_map) (simp add: assms(3))
  also have "{j \<in> set (webhook_events d). job_Status (if job_ID j = ev_ID ev then f j else j) = JobFailed} =
      {j \<in> set (webhook_events d). job_Status j = JobFailed} \<union>
      {j \<in> set (webhook_events d). job_ID j = ev_ID ev \<and> job_Status (f j) = JobFailed}"
    using inflight_unique(1) [OF assms(1,2)] by auto
  finally show ?thesis by (auto simp: failed_ids_def image_Un)
qed

lemma processed_queue_inv:
  assumes "processed s ev d d'" and "queue_inv s d" and "inflight d ev"
  shows "queue_inv s d'"
proof -
  have dist: "distinct (map job_ID (webhook_events d))" using assms(2) by (simp add: queue_inv_def)
  note one = inflight_unique [OF dist assms(3)] and fail = failed_ids_upd [OF dist assms(3)]
  have att: "0 \<le> ev_AttemptCount ev \<and> ev_AttemptCount ev < ws_maxAttempts s"
    using assms(2,3) by (fastforce simp: queue_inv_def inflight_def attempts_ok_def)
  from assms(1) show ?thesis
  proof cases
    case stuck
    with assms(2) show ?thesis by simp
  next
    case delivered
    with assms(2) show ?thesis
      by (simp add: queue_inv_def upd_row_ids fail) (auto simp: upd_row_def attempts_ok_def)
  next
    case skipped
    with assms(2) att show ?thesis
      by (simp add: queue_inv_def upd_row_ids fail) (auto simp: upd_row_def attempts_ok_def)
  next
    case retried
    with assms(2) att show ?thesis
      by (simp add: queue_inv_def upd_row_ids fail) (auto simp: upd_row_def attempts_ok_def)
  next
    case (dead dl msg)
    let ?d = "d\<lparr>dead_letter_events := dead_letter_events d @ [dl]\<rparr>"
    have "inflight ?d ev" "distinct (map job_ID (webhook_events ?d))"
      using assms(3) dist by (simp_all add: inflight_def)
    note fail' = failed_ids_upd [OF this(2,1)]
    have "ev_ID ev \<notin> failed_ids d" using one(1) by (auto simp: failed_ids_def)
    moreover have "failed_ids ?d = failed_ids d" by (simp add: failed_ids_def)
    moreover have "\<exists>j \<in> set (webhook_events d). job_ID j = ev_ID ev" using assms(3) by (auto simp: inflight_def)
    ultimately show ?thesis
      using assms(2) dead(1,3)
      by (simp add: queue_inv_def upd_row_ids fail') (auto simp: upd_row_def attempts_ok_def)
  qed
qed

lemma processed_inflight:
  assumes "processed s ev d d'" and "inflight d ev'" and "ev_ID ev' \<noteq> ev_ID ev"
  shows "inflight d' ev'"
  using assms(2,3) processed_other [OF assms(1)] unfolding inflight_def by metis

text \<open>What a claim does to the rows, in the form the batch needs.\<close>

lemma claim_rows:
  assumes "claim_jobs locked limit now uid d = Inr (js, d')" and "distinct (map job_ID (webhook_events d))"
  shows "map job_ID (webhook_events d') = map job_ID (webhook_events d)"
    and "dead_letter_events d' = dead_letter_events d"
    and "distinct (map job_ID js)"
    and "j \<in> set js \<Longrightarrow> j \<in> set (webhook_events d') \<and> job_Status j = JobProcessing"
    and "j \<in> set (webhook_events d) \<Longrightarrow> job_Status j \<noteq> JobPending \<Longrightarrow>
      j \<in> set (webhook_events d') \<and> job_ID j \<notin> job_ID ` set js"
    and "j' \<in> set (webhook_events d') \<Longrightarrow> \<exists>j \<in> set (webhook_events d). j' = j \<or>
      (job_Status j = JobPending \<and> j' = j\<lparr>job_Status := JobProcessing\<rparr>)"
proof -
  let ?taken = "claimable locked now limit (webhook_events d)"
  let ?ids = "job_ID ` set ?taken"
  have d': "d' = d\<lparr>webhook_events := map (mark_processing ?ids) (webhook_events d)\<rparr>"
    and js: "js = filter (\<lambda>j. job_ID j \<in> ?ids) (map (mark_processing ?ids) (webhook_events d))"
    using assms(1) by (auto simp: claim_jobs_def Let_def split: if_splits)
  have taken: "job_Status j = JobPending" if mem: "j \<in> set (webhook_events d)" and inids: "job_ID j \<in> ?ids" for j
  proof -
    obtain k where k: "k \<in> set ?taken" "job_ID k = job_ID j" using inids by auto
    with claimable_due have "k \<in> set (webhook_events d)" "job_Status k = JobPending" by (auto simp: due_def)
    with id_eq_row [OF assms(2) _ mem k(2)] show ?thesis by simp
  qed
  show "map job_ID (webhook_events d') = map job_ID (webhook_events d)" by (simp add: d' comp_def)
  show "dead_letter_events d' = dead_letter_events d" by (simp add: d')
  show "distinct (map job_ID js)"
    unfolding js using assms(2) by (simp add: distinct_map_filter comp_def)
  show "j \<in> set (webhook_events d') \<and> job_Status j = JobProcessing" if "j \<in> set js"
    using that by (auto simp: js d' mark_processing_def)
  show "j \<in> set (webhook_events d') \<and> job_ID j \<notin> job_ID ` set js"
    if "j \<in> set (webhook_events d)" "job_Status j \<noteq> JobPending"
  proof -
    have "job_ID j \<notin> ?ids" using taken that by blast
    then show ?thesis using that(1) by (force simp: js d' mark_processing_def)
  qed
  show "\<exists>j \<in> set (webhook_events d). j' = j \<or> (job_Status j = JobPending \<and> j' = j\<lparr>job_Status := JobProcessing\<rparr>)"
    if "j' \<in> set (webhook_events d')"
    using that taken by (auto simp: d' mark_processing_def)
qed

lemma claim_queue_inv:
  assumes "claim_jobs locked limit now uid d = Inr (js, d')" and "queue_inv s d"
  shows "queue_inv s d'" and "ev \<in> set (map eventFromJob js) \<Longrightarrow> inflight d' ev"
proof -
  have dist: "distinct (map job_ID (webhook_events d))" using assms(2) by (simp add: queue_inv_def)
  note rows = claim_rows [OF assms(1) dist]
  have "failed_ids d' = failed_ids d"
  proof
    show "failed_ids d' \<subseteq> failed_ids d" using rows(6) by (fastforce simp: failed_ids_def)
    show "failed_ids d \<subseteq> failed_ids d'" using rows(5) by (fastforce simp: failed_ids_def)
  qed
  moreover have "attempts_ok s j'" if "j' \<in> set (webhook_events d')" for j'
    using rows(6) [OF that] assms(2) by (auto simp: queue_inv_def attempts_ok_def)
  ultimately show "queue_inv s d'"
    using assms(2) dist rows(1,2) by (simp add: queue_inv_def)
  show "inflight d' ev" if "ev \<in> set (map eventFromJob js)"
    using that rows(4) by (auto simp: inflight_def)
qed

lemma claim_tx_InrD:
  assumes "in_tx E bE cE (ClaimPendingEvents E r limit) w = (Inr evs, w')"
  obtains js now uid locked where "evs = map eventFromJob js"
    and "claim_jobs locked limit now uid (db w) = Inr (js, db w')"
proof -
  from assms obtain w1 where body: "ClaimPendingEvents E r limit ((step w)\<lparr>tx_now := Some (pg_now E (tick w))\<rparr>) = (Inr evs, w1)"
    and "db w' = db w1" by (rule in_tx_InrE)
  moreover from body obtain js where
    "ClaimPending E r limit ((step w)\<lparr>tx_now := Some (pg_now E (tick w))\<rparr>) = (Inr js, w1)" "evs = map eventFromJob js"
    by (auto simp: ClaimPendingEvents_def bindC_def wrapE_def ok_def split: prod.splits sum.splits)
  ultimately show thesis using that ClaimPending_InrD(1) by fastforce
qed

lemma leads_claim_tx:
  assumes "P (db w)"
    and "\<And>js locked now uid d'. claim_jobs locked limit now uid (db w) = Inr (js, d') \<Longrightarrow> P d'"
  shows "leads (in_tx E bE cE (ClaimPendingEvents E r limit)) P w"
proof (rule leads_in_tx)
  show "P (db w)" by (rule assms(1))
next
  fix w0 :: world
  assume "db w0 = db w"
  then show "wp (ClaimPendingEvents E r limit) (\<lambda>_ w'. P (db w')) (\<lambda>_ _. True) w0"
    using assms(2) ClaimPending_InrD(1)
    by (fastforce simp: ClaimPendingEvents_def wp_simps wp_def split: prod.splits sum.splits)
qed

text \<open>
  The batch rule: a property of the tables that a claim establishes for the claimed events and that
  processing any of them keeps holds at the end of the batch, however it ends.
\<close>

lemma leads_mapC_ProcessEvent:
  assumes "I evs (db w)" and "\<And>ev evs d d'. I (ev # evs) d \<Longrightarrow> processed s ev d d' \<Longrightarrow> I evs d'"
    and "\<And>evs d. I evs d \<Longrightarrow> P d"
  shows "leads (mapC (ProcessEvent E s) evs) P w"
  using assms(1)
proof (induction evs arbitrary: w)
  case Nil
  then show ?case using assms(3) by (simp add: leads_simps)
next
  case (Cons ev evs)
  obtain r w1 where run: "ProcessEvent E s ev w = (r, w1)" by fastforce
  with ProcessEvent_processed [of E s ev w] have "processed s ev (db w) (db w1)" by (simp add: leads_def)
  with Cons.prems assms(2) have I: "I evs (db w1)" by blast
  have rest: "leads (bindC (mapC (ProcessEvent E s) evs) (\<lambda>as. ok (a # as))) P w1" for a
    using Cons.IH [OF I] by (simp add: leads_wp wp_simps)
  show ?case
    using run rest assms(3) [OF I] by (cases r) (simp_all add: leads_def bindC_def [of "ProcessEvent E s ev"])
qed

lemma leads_processBatch:
  assumes "P (db w)" and "s = wk_svc wk"
    and "\<And>js locked now uid d'. claim_jobs locked (wk_batchSize wk) now uid (db w) = Inr (js, d') \<Longrightarrow>
      P d' \<and> I (map eventFromJob js) d'"
    and "\<And>ev evs d d'. I (ev # evs) d \<Longrightarrow> processed s ev d d' \<Longrightarrow> I evs d'"
    and "\<And>evs d. I evs d \<Longrightarrow> P d"
  shows "leads (processBatch E wk) P w"
proof -
  let ?claim = "in_tx E (\<lambda>e. e) (\<lambda>e. e) (ClaimPendingEvents E (wk_repo wk) (wk_batchSize wk))"
  obtain r w1 where run: "?claim w = (r, w1)" by fastforce
  have P1: "P (db w1)"
    using leads_claim_tx [of P w "wk_batchSize wk" E "\<lambda>e. e" "\<lambda>e. e" "wk_repo wk", OF assms(1)] assms(3) run
    by (auto simp: leads_def)
  show ?thesis
  proof (cases r)
    case (Inl e)
    with run P1 show ?thesis
      by (simp add: processBatch_def leads_bind_attempt [of ?claim, OF run] leads_simps)
  next
    case (Inr evs)
    with run have "?claim w = (Inr evs, w1)" by simp
    then have "I evs (db w1)" using assms(3) by (elim claim_tx_InrD) blast
    then have "leads (mapC (ProcessEvent E s) evs) P w1"
      by (rule leads_mapC_ProcessEvent) (use assms(4,5) in blast)+
    with Inr assms(2) show ?thesis
      by (simp add: processBatch_def leads_bind_attempt [of ?claim, OF run] leads_simps)
  qed
qed

lemma leads_Run:
  assumes "P (db w)" and "\<And>w. P (db w) \<Longrightarrow> leads (processBatch E wk) P w"
  shows "leads (Run E wk sigs) P w"
  using assms(1)
proof (induction sigs arbitrary: w)
  case Nil
  then show ?case by (simp add: leads_simps)
next
  case (Cons sig sigs)
  then show ?case
    using assms(2) by (cases sig) (auto simp: leads_simps intro!: leads_bind)
qed

end
