(* ===== verification/Ledger_Service.thy ===== *)
theory Ledger_Service
  imports Ledger_Repository Audit_Trail Webhook
begin

text \<open>
  \<open>internal/ledger/service.go\<close> with the payloads of \<open>events.go\<close> and \<open>audit.go\<close>: the transaction
  engine. Every state change, its outbox event and its audit row are written in one database
  transaction. The locale at the end states what the service relies on from the two interfaces it
  calls; it is interpreted for the service \<open>cmd/api/main.go\<close> builds and for one without either.
\<close>

section \<open>Events and audit payloads\<close>

definition EventTransactionPosted :: string where "EventTransactionPosted = ''transaction.posted''"
definition EventTransactionPending :: string where "EventTransactionPending = ''transaction.pending''"
definition EventTransactionFailed :: string where "EventTransactionFailed = ''transaction.failed''"

definition AuditAccountCreated :: string where "AuditAccountCreated = ''account.created''"
definition AuditTransactionTransferred :: string where
  "AuditTransactionTransferred = ''transaction.transferred''"
definition AuditTransactionPendingCreated :: string where
  "AuditTransactionPendingCreated = ''transaction.pending_created''"
definition AuditTransactionPosted :: string where "AuditTransactionPosted = ''transaction.posted''"
definition AuditTransactionFailed :: string where "AuditTransactionFailed = ''transaction.failed''"

definition transactionEventJSON :: "env \<Rightarrow> Transaction \<Rightarrow> string" where
  "transactionEventJSON E txn = json_Marshal (JStruct
     [(''transaction_id'', JStr (uuid_String E (txn_ID txn))),
      (''status'', JStr (status_string (txn_Status txn)))])"

definition transferAuditPayload :: "env \<Rightarrow> Transaction \<Rightarrow> EntryInput list \<Rightarrow> json" where
  "transferAuditPayload E txn es = JMap
     [(''transaction_id'', JStr (uuid_String E (txn_ID txn))),
      (''status'', JStr (status_string (txn_Status txn))),
      (''entries'', JArr (map (\<lambda>e. JStruct
         [(''account_id'', JStr (uuid_String E (ei_AccountID e))),
          (''amount_minor'', JInt (sint (ei_AmountMinor e)))]) es))]"

definition statusChangeAuditPayload :: "env \<Rightarrow> Transaction \<Rightarrow> json" where
  "statusChangeAuditPayload E txn = JMap
     [(''transaction_id'', JStr (uuid_String E (txn_ID txn))),
      (''status'', JStr (status_string (txn_Status txn)))]"

section \<open>Service\<close>

record Service =
  svc_events :: "EventEnqueuer option"
  svc_audit :: "AuditRecorder option"

definition WithEventEnqueuer :: "EventEnqueuer \<Rightarrow> Service \<Rightarrow> Service" where
  "WithEventEnqueuer f s = s\<lparr>svc_events := Some f\<rparr>"

definition WithAuditRecorder :: "AuditRecorder \<Rightarrow> Service \<Rightarrow> Service" where
  "WithAuditRecorder f s = s\<lparr>svc_audit := Some f\<rparr>"

definition NewService :: "(Service \<Rightarrow> Service) list \<Rightarrow> Service" where
  "NewService opts = fold (\<lambda>opt s. opt s) opts \<lparr>svc_events = None, svc_audit = None\<rparr>"

record TransferRequest =
  tr_TenantID :: uuid
  tr_Entries :: "EntryInput list"
  tr_ActorID :: string

definition validateEntries :: "EntryInput list \<Rightarrow> error option" where
  "validateEntries es =
     (if length es < 2 then Some ErrEmptyEntries
      else if list_ex (\<lambda>e. ei_AmountMinor e = 0) es then Some ErrZeroAmountEntry
      else if Sum es \<noteq> 0 then Some ErrUnbalancedEntries
      else None)"

fun unique_ids :: "uuid list \<Rightarrow> EntryInput list \<Rightarrow> uuid list" where
  "unique_ids ids [] = ids"
| "unique_ids ids (e # es) =
     unique_ids (if ei_AccountID e \<in> set ids then ids else ids @ [ei_AccountID e]) es"

definition uniqueAccountIDs :: "EntryInput list \<Rightarrow> uuid list" where
  "uniqueAccountIDs es = unique_ids [] es"

definition emitEvent :: "env \<Rightarrow> Service \<Rightarrow> uuid \<Rightarrow> string \<Rightarrow> Transaction \<Rightarrow> (world, error, unit) comp" where
  "emitEvent E s tenantID eventType txn =
     (case svc_events s of
        None \<Rightarrow> ok ()
      | Some enqueue \<Rightarrow> wrapE (\<lambda>e. Errorf ''ledger: enqueue event: '' e '''')
                         (enqueue tenantID eventType (transactionEventJSON E txn)))"

definition recordAudit :: "Service \<Rightarrow> uuid \<Rightarrow> string \<Rightarrow> string \<Rightarrow> json \<Rightarrow> (world, error, unit) comp" where
  "recordAudit s tenantID actorID action payload =
     (case svc_audit s of
        None \<Rightarrow> ok ()
      | Some recorder \<Rightarrow> recorder tenantID actorID action (json_Marshal payload))"

definition audited :: "Service \<Rightarrow> uuid \<Rightarrow> string \<Rightarrow> string \<Rightarrow> json \<Rightarrow> (world, error, unit) comp" where
  "audited s tenantID actorID action payload =
     wrapE (\<lambda>e. Errorf ''ledger: record audit: '' e '''') (recordAudit s tenantID actorID action payload)"

text \<open>
  The projected balances (a Go map, read as 0 where absent) and the check over them; the map is
  visited in an order the runtime picks, so any overdrawn account may be the one that is named.
\<close>

definition add_entry :: "EntryInput \<Rightarrow> (uuid \<times> money) list \<Rightarrow> (uuid \<times> money) list" where
  "add_entry e m =
     AList.update (ei_AccountID e)
       ((case map_of m (ei_AccountID e) of None \<Rightarrow> 0 | Some b \<Rightarrow> b) + ei_AmountMinor e) m"

definition project :: "(uuid \<times> Account) list \<Rightarrow> EntryInput list \<Rightarrow> (uuid \<times> money) list" where
  "project accs es = fold add_entry es (map (\<lambda>(i, a). (i, acct_Balance a)) accs)"

definition check_funds :: "env \<Rightarrow> (uuid \<times> money) list \<Rightarrow> (world, error, unit) comp" where
  "check_funds E projected = (\<lambda>w.
     let overdrawn = filter (\<lambda>(i, b). sint b < 0) projected in
     if overdrawn = [] then (Inr (), step w)
     else (Inl (Errorf '''' ErrInsufficientFunds ('': account '' @
             uuid_String E (fst (overdrawn ! (map_choice E (tick w) mod length overdrawn))))), step w))"

definition begin_err :: "error \<Rightarrow> error" where
  "begin_err e = Errorf ''ledger: begin tx: '' e ''''"

definition transfer_tx :: "env \<Rightarrow> Service \<Rightarrow> TransferRequest \<Rightarrow> (world, error, Transaction \<times> Entry list) comp" where
  "transfer_tx E s req =
     bindC (LockAccountsForUpdate E (tr_TenantID req) (uniqueAccountIDs (tr_Entries req))) (\<lambda>accs.
     bindC (check_funds E (project accs (tr_Entries req))) (\<lambda>_.
     bindC (InsertTransactionWithEntries E (tr_TenantID req) TxnPosted (tr_Entries req)) (\<lambda>(txn, rows).
     bindC (emitEvent E s (tr_TenantID req) EventTransactionPosted txn) (\<lambda>_.
     bindC (audited s (tr_TenantID req) (tr_ActorID req) AuditTransactionTransferred
              (transferAuditPayload E txn (tr_Entries req))) (\<lambda>_.
     ok (txn, rows))))))"

definition ExecuteTransfer :: "env \<Rightarrow> Service \<Rightarrow> TransferRequest \<Rightarrow> (world, error, Transaction \<times> Entry list) comp" where
  "ExecuteTransfer E s req =
     (case validateEntries (tr_Entries req) of
        Some err \<Rightarrow> raise err
      | None \<Rightarrow> in_tx E begin_err (\<lambda>e. Errorf ''ledger: commit transfer: '' e '''') (transfer_tx E s req))"

definition pending_tx :: "env \<Rightarrow> Service \<Rightarrow> TransferRequest \<Rightarrow> (world, error, Transaction \<times> Entry list) comp" where
  "pending_tx E s req =
     bindC (InsertTransactionWithEntries E (tr_TenantID req) TxnPending (tr_Entries req)) (\<lambda>(txn, rows).
     bindC (emitEvent E s (tr_TenantID req) EventTransactionPending txn) (\<lambda>_.
     bindC (audited s (tr_TenantID req) (tr_ActorID req) AuditTransactionPendingCreated
              (transferAuditPayload E txn (tr_Entries req))) (\<lambda>_.
     ok (txn, rows))))"

definition CreatePendingTransaction ::
  "env \<Rightarrow> Service \<Rightarrow> TransferRequest \<Rightarrow> (world, error, Transaction \<times> Entry list) comp" where
  "CreatePendingTransaction E s req =
     (case validateEntries (tr_Entries req) of
        Some err \<Rightarrow> raise err
      | None \<Rightarrow> in_tx E begin_err (\<lambda>e. Errorf ''ledger: commit pending transaction: '' e '''') (pending_tx E s req))"

definition post_tx :: "env \<Rightarrow> Service \<Rightarrow> uuid \<Rightarrow> uuid \<Rightarrow> string \<Rightarrow> (world, error, Transaction) comp" where
  "post_tx E s tenantID uid actorID =
     bindC (GetTransaction_repo E tenantID uid) (\<lambda>(txn, es).
     if txn_Status txn \<noteq> TxnPending then raise ErrTransactionNotPending
     else
       bindC (LockAccountsForUpdate E tenantID (map ent_AccountID es)) (\<lambda>accs.
       bindC (check_funds E (project accs (map entry_input es))) (\<lambda>_.
       bindC (UpdateTransactionStatusGuarded E tenantID (txn_ID txn) TxnPending TxnPosted) (\<lambda>_.
       let posted = txn\<lparr>txn_Status := TxnPosted\<rparr> in
       bindC (emitEvent E s tenantID EventTransactionPosted posted) (\<lambda>_.
       bindC (audited s tenantID actorID AuditTransactionPosted (statusChangeAuditPayload E posted)) (\<lambda>_.
       ok posted))))))"

definition PostPendingTransaction ::
  "env \<Rightarrow> Service \<Rightarrow> uuid \<Rightarrow> uuid \<Rightarrow> string \<Rightarrow> (world, error, Transaction) comp" where
  "PostPendingTransaction E s tenantID uid actorID =
     in_tx E begin_err (\<lambda>e. Errorf ''ledger: commit post: '' e '''') (post_tx E s tenantID uid actorID)"

definition fail_tx :: "env \<Rightarrow> Service \<Rightarrow> uuid \<Rightarrow> uuid \<Rightarrow> string \<Rightarrow> (world, error, Transaction) comp" where
  "fail_tx E s tenantID uid actorID =
     bindC (GetTransaction_repo E tenantID uid) (\<lambda>(txn, es).
     if txn_Status txn \<noteq> TxnPending then raise ErrTransactionNotPending
     else
       bindC (UpdateTransactionStatusGuarded E tenantID (txn_ID txn) TxnPending TxnFailed) (\<lambda>_.
       let failed = txn\<lparr>txn_Status := TxnFailed\<rparr> in
       bindC (emitEvent E s tenantID EventTransactionFailed failed) (\<lambda>_.
       bindC (audited s tenantID actorID AuditTransactionFailed (statusChangeAuditPayload E failed)) (\<lambda>_.
       ok failed))))"

definition FailPendingTransaction ::
  "env \<Rightarrow> Service \<Rightarrow> uuid \<Rightarrow> uuid \<Rightarrow> string \<Rightarrow> (world, error, Transaction) comp" where
  "FailPendingTransaction E s tenantID uid actorID =
     in_tx E begin_err (\<lambda>e. Errorf ''ledger: commit fail: '' e '''') (fail_tx E s tenantID uid actorID)"

definition account_tx :: "env \<Rightarrow> Service \<Rightarrow> uuid \<Rightarrow> string \<Rightarrow> string \<Rightarrow> (world, error, Account) comp" where
  "account_tx E s tenantID name actorID =
     bindC (CreateAccount_repo E tenantID name) (\<lambda>account.
     bindC (audited s tenantID actorID AuditAccountCreated
              (JMap [(''account_id'', JStr (uuid_String E (acct_ID account))), (''name'', JStr (acct_Name account))])) (\<lambda>_.
     ok account))"

definition CreateAccount :: "env \<Rightarrow> Service \<Rightarrow> uuid \<Rightarrow> string \<Rightarrow> string \<Rightarrow> (world, error, Account) comp" where
  "CreateAccount E s tenantID name actorID =
     in_tx E begin_err (\<lambda>e. Errorf ''ledger: commit create account: '' e '''') (account_tx E s tenantID name actorID)"

definition GetTransaction :: "env \<Rightarrow> uuid \<Rightarrow> uuid \<Rightarrow> (world, error, Transaction \<times> Entry list) comp" where
  "GetTransaction E tenantID uid = GetTransaction_repo E tenantID uid"

definition GetAccount :: "env \<Rightarrow> uuid \<Rightarrow> uuid \<Rightarrow> (world, error, Account) comp" where
  "GetAccount E tenantID uid = GetAccount_repo E tenantID uid"

text \<open>The service of \<open>main.go\<close>, over the webhook and audit repositories.\<close>

definition ledgerSvc :: "env \<Rightarrow> QueueRepository \<Rightarrow> Service" where
  "ledgerSvc E webhookRepo =
     NewService [WithEventEnqueuer (EnqueueEvent E webhookRepo), WithAuditRecorder (RecordAudit E)]"

section \<open>Validation and projection\<close>

definition delta :: "EntryInput list \<Rightarrow> uuid \<Rightarrow> money" where
  "delta es i = sum_list (map ei_AmountMinor (filter (\<lambda>e. ei_AccountID e = i) es))"

lemma delta_simps [simp]:
  "delta [] i = 0"
  "delta (e # es) i = (if ei_AccountID e = i then ei_AmountMinor e else 0) + delta es i"
  by (simp_all add: delta_def)

lemma delta_absent: "i \<notin> ei_AccountID ` set es \<Longrightarrow> delta es i = 0"
  by (induction es) auto

lemma validateEntries_None:
  "validateEntries es = None \<longleftrightarrow> 2 \<le> length es \<and> (\<forall>e \<in> set es. ei_AmountMinor e \<noteq> 0) \<and> Sum es = 0"
  by (auto simp: validateEntries_def list_ex_iff)

lemma set_unique_ids: "set (unique_ids ids es) = set ids \<union> ei_AccountID ` set es"
  by (induction ids es rule: unique_ids.induct) auto

lemma distinct_unique_ids: "distinct ids \<Longrightarrow> distinct (unique_ids ids es)"
  by (induction ids es rule: unique_ids.induct) auto

lemma set_uniqueAccountIDs [simp]: "set (uniqueAccountIDs es) = ei_AccountID ` set es"
  by (simp add: uniqueAccountIDs_def set_unique_ids)

lemma map_of_add_entry:
  "map_of (add_entry e m) i =
     (if i = ei_AccountID e then Some ((case map_of m i of None \<Rightarrow> 0 | Some b \<Rightarrow> b) + ei_AmountMinor e) else map_of m i)"
  by (simp add: add_entry_def AList.update_conv')

lemma map_of_fold_add_entry:
  "map_of (fold add_entry es m) i =
     (if i \<in> ei_AccountID ` set es then Some ((case map_of m i of None \<Rightarrow> 0 | Some b \<Rightarrow> b) + delta es i)
      else map_of m i)"
proof (induction es arbitrary: m)
  case (Cons e es)
  then show ?case by (auto simp: map_of_add_entry add.assoc delta_absent)
qed simp

lemma map_of_project:
  "i \<in> ei_AccountID ` set es \<Longrightarrow> map_of accs i = Some a \<Longrightarrow>
   map_of (project accs es) i = Some (acct_Balance a + delta es i)"
  by (simp add: project_def map_of_fold_add_entry map_of_map)

lemma check_funds_InrD:
  "check_funds E m w = (Inr u, w') \<Longrightarrow> w' = step w \<and> (\<forall>i b. map_of m i = Some b \<longrightarrow> 0 \<le> sint b)"
  by (auto simp: check_funds_def Let_def filter_empty_conv split: if_splits dest!: map_of_SomeD)

section \<open>Effects\<close>

text \<open>
  \<open>funded t es d\<close>: every account the entries name is the tenant's, its balance fits 64 bits, and the
  wrapped sum of balance and entries is not negative. \<open>inserted\<close> and \<open>moved\<close> say what a successful
  operation did to the ledger's own tables, \<open>emitted\<close> and \<open>recorded\<close> what it did to the outbox and to
  the audit trail.
\<close>

definition funded :: "uuid \<Rightarrow> EntryInput list \<Rightarrow> tables \<Rightarrow> bool" where
  "funded t es d \<longleftrightarrow> (\<forall>i \<in> ei_AccountID ` set es.
     (\<exists>a \<in> set (accounts d). acct_ID a = i \<and> acct_TenantID a = t) \<and>
     fits64 (posted_balance d i) \<and> 0 \<le> sint (word_of_int (posted_balance d i) + delta es i))"

definition inserted ::
  "uuid \<Rightarrow> txn_status \<Rightarrow> EntryInput list \<Rightarrow> Transaction \<Rightarrow> Entry list \<Rightarrow> tables \<Rightarrow> tables \<Rightarrow> bool" where
  "inserted t st es txn rows d d' \<longleftrightarrow>
     domain d' = domain (d\<lparr>transactions := transactions d @ [txn], entries := entries d @ rows\<rparr>) \<and>
     txn_ID txn \<notin> txn_ID ` set (transactions d) \<and> txn_TenantID txn = t \<and> txn_Status txn = st \<and>
     rows_for t (txn_ID txn) es rows \<and> validateEntries es = None \<and> tenant_exists d t \<and>
     (\<forall>e \<in> set es. ei_AccountID e \<in> acct_ID ` set (accounts d))"

definition moved :: "uuid \<Rightarrow> uuid \<Rightarrow> txn_status \<Rightarrow> tables \<Rightarrow> tables \<Rightarrow> bool" where
  "moved t i st d d' \<longleftrightarrow>
     domain d' = domain (set_status t i TxnPending st d) \<and>
     (\<exists>x \<in> set (transactions d). guard_matches t i TxnPending x)"

definition emitted :: "Service \<Rightarrow> uuid \<Rightarrow> string \<Rightarrow> string \<Rightarrow> tables \<Rightarrow> tables \<Rightarrow> bool" where
  "emitted s t ty p d d' \<longleftrightarrow>
     (case svc_events s of None \<Rightarrow> webhook_events d' = webhook_events d | Some _ \<Rightarrow> one_event t ty p d d')"

definition recorded :: "Service \<Rightarrow> uuid \<Rightarrow> string \<Rightarrow> string \<Rightarrow> string \<Rightarrow> tables \<Rightarrow> tables \<Rightarrow> bool" where
  "recorded s t actor act p d d' \<longleftrightarrow>
     (case svc_audit s of None \<Rightarrow> audit_log d' = audit_log d | Some _ \<Rightarrow> one_audit t actor act p d d')"

lemma check_project_funded:
  assumes lock: "LockAccountsForUpdate E t ids w = (Inr accs, w1)" and ids: "set ids = ei_AccountID ` set es"
    and chk: "check_funds E (project accs es) w1 = (Inr u, w2)"
  shows "funded t es (db w)"
  unfolding funded_def
proof (intro ballI conjI)
  fix i
  assume i: "i \<in> ei_AccountID ` set es"
  note lk = LockAccountsForUpdate_InrD(3-5) [OF lock, of i]
  show "\<exists>a \<in> set (accounts (db w)). acct_ID a = i \<and> acct_TenantID a = t" "fits64 (posted_balance (db w) i)"
    using lk i ids by simp_all
  obtain a where "map_of accs i = Some a" "acct_Balance a = word_of_int (posted_balance (db w) i)"
    using lk(3) i ids by auto
  with check_funds_InrD [OF chk] map_of_project [OF i] show "0 \<le> sint (word_of_int (posted_balance (db w) i) + delta es i)"
    by fastforce
qed

section \<open>What the service relies on\<close>

locale ledger_service = event_port stored "svc_events s" + audit_port stored "svc_audit s"
  for stored :: "string \<Rightarrow> string" and s :: Service
begin

lemma emitEvent_InrD:
  assumes "emitEvent E s t ty txn w = (Inr u, w')"
  shows "domain (db w') = domain (db w) \<and> audit_log (db w') = audit_log (db w) \<and> emitted s t ty (stored (transactionEventJSON E txn)) (db w) (db w')"
proof (cases "svc_events s")
  case None
  with assms show ?thesis by (auto simp: emitEvent_def emitted_def dest!: ok_InrD)
next
  case (Some f)
  with assms have run: "f t ty (transactionEventJSON E txn) w = (Inr u, w')"
    by (auto simp: emitEvent_def dest!: wrapE_InrD)
  from enqueue_domain [OF Some run] enqueue_audit [OF Some run] enqueue_appends [OF Some run] Some
  show ?thesis by (simp add: emitted_def)
qed

lemma audited_InrD:
  assumes "audited s t actor act p w = (Inr u, w')"
  shows "domain (db w') = domain (db w) \<and> webhook_events (db w') = webhook_events (db w) \<and>
    recorded s t actor act (stored (json_Marshal p)) (db w) (db w')"
proof (cases "svc_audit s")
  case None
  with assms show ?thesis by (auto simp: audited_def recordAudit_def recorded_def dest!: wrapE_InrD ok_InrD)
next
  case (Some f)
  with assms have run: "f t actor act (json_Marshal p) w = (Inr u, w')"
    by (auto simp: audited_def recordAudit_def dest!: wrapE_InrD)
  from record_domain [OF Some run] record_events [OF Some run] record_appends [OF Some run] Some
  show ?thesis by (simp add: recorded_def)
qed

lemma report_InrD:
  assumes "emitEvent E s t ty txn w = (Inr u, w1)" and "audited s t actor act p w1 = (Inr v, w2)"
  shows "domain (db w2) = domain (db w) \<and> 
    emitted s t ty (stored (transactionEventJSON E txn)) (db w) (db w2) \<and>
    recorded s t actor act (stored (json_Marshal p)) (db w) (db w2)"
  using emitEvent_InrD [OF assms(1)] audited_InrD [OF assms(2)]
  by (auto simp: emitted_def recorded_def one_event_def one_audit_def split: option.splits)

lemma transfer_tx_InrD:
  assumes "transfer_tx E s req w = (Inr (txn, rows), w')" and "validateEntries (tr_Entries req) = None"
  shows "inserted (tr_TenantID req) TxnPosted (tr_Entries req) txn rows (db w) (db w') \<and>
    funded (tr_TenantID req) (tr_Entries req) (db w) \<and>
    emitted s (tr_TenantID req) EventTransactionPosted (stored (transactionEventJSON E txn)) (db w) (db w') \<and>
    recorded s (tr_TenantID req) (tr_ActorID req) AuditTransactionTransferred
      (stored (json_Marshal (transferAuditPayload E txn (tr_Entries req)))) (db w) (db w')"
proof -
  from assms(1) obtain accs u w1 w2 w3 w4 v x where
    lock: "LockAccountsForUpdate E (tr_TenantID req) (uniqueAccountIDs (tr_Entries req)) w = (Inr accs, w1)"
    and chk: "check_funds E (project accs (tr_Entries req)) w1 = (Inr u, w2)"
    and ins: "InsertTransactionWithEntries E (tr_TenantID req) TxnPosted (tr_Entries req) w2 = (Inr (txn, rows), w3)"
    and ev: "emitEvent E s (tr_TenantID req) EventTransactionPosted txn w3 = (Inr v, w4)"
    and au: "audited s (tr_TenantID req) (tr_ActorID req) AuditTransactionTransferred
          (transferAuditPayload E txn (tr_Entries req)) w4 = (Inr x, w')"
    unfolding transfer_tx_def by (auto elim!: bindC_InrE dest!: ok_InrD)
  have "db w2 = db w"
    using LockAccountsForUpdate_InrD(1) [OF lock] check_funds_InrD [OF chk] by simp
  with report_InrD [OF ev au] InsertTransactionWithEntries_InrD [OF ins] check_project_funded [OF lock _ chk] assms(2)
  show ?thesis
    by (auto simp: inserted_def emitted_def recorded_def one_event_def one_audit_def domain_def split: option.splits)
qed

lemma pending_tx_InrD:
  assumes "pending_tx E s req w = (Inr (txn, rows), w')" and "validateEntries (tr_Entries req) = None"
  shows "inserted (tr_TenantID req) TxnPending (tr_Entries req) txn rows (db w) (db w') \<and>
    emitted s (tr_TenantID req) EventTransactionPending (stored (transactionEventJSON E txn)) (db w) (db w') \<and>
    recorded s (tr_TenantID req) (tr_ActorID req) AuditTransactionPendingCreated
      (stored (json_Marshal (transferAuditPayload E txn (tr_Entries req)))) (db w) (db w')"
proof -
  from assms(1) obtain w3 w4 v x where
    ins: "InsertTransactionWithEntries E (tr_TenantID req) TxnPending (tr_Entries req) w = (Inr (txn, rows), w3)"
    and ev: "emitEvent E s (tr_TenantID req) EventTransactionPending txn w3 = (Inr v, w4)"
    and au: "audited s (tr_TenantID req) (tr_ActorID req) AuditTransactionPendingCreated
          (transferAuditPayload E txn (tr_Entries req)) w4 = (Inr x, w')"
    unfolding pending_tx_def by (auto elim!: bindC_InrE dest!: ok_InrD)
  with report_InrD [OF ev au] InsertTransactionWithEntries_InrD [OF ins] assms(2)
  show ?thesis
    by (auto simp: inserted_def emitted_def recorded_def one_event_def one_audit_def domain_def split: option.splits)
qed

lemma post_tx_InrD:
  assumes "post_tx E s t i actor w = (Inr txn, w')"
  shows "moved t i TxnPosted (db w) (db w') \<and>
    funded t (map entry_input (select_entries t i (db w))) (db w) \<and>
    (\<exists>old. find_transaction t i (db w) = Inr old \<and> txn_Status old = TxnPending \<and> txn = old\<lparr>txn_Status := TxnPosted\<rparr>) \<and>
    emitted s t EventTransactionPosted (stored (transactionEventJSON E txn)) (db w) (db w') \<and>
    recorded s t actor AuditTransactionPosted
      (stored (json_Marshal (statusChangeAuditPayload E txn))) (db w) (db w')"
proof -
  from assms obtain old es accs u v x y w1 w2 w3 w4 w5 where
    get: "GetTransaction_repo E t i w = (Inr (old, es), w1)" and pend: "txn_Status old = TxnPending"
    and lock: "LockAccountsForUpdate E t (map ent_AccountID es) w1 = (Inr accs, w2)"
    and chk: "check_funds E (project accs (map entry_input es)) w2 = (Inr u, w3)"
    and upd: "UpdateTransactionStatusGuarded E t (txn_ID old) TxnPending TxnPosted w3 = (Inr v, w4)"
    and ev: "emitEvent E s t EventTransactionPosted (old\<lparr>txn_Status := TxnPosted\<rparr>) w4 = (Inr x, w5)"
    and au: "audited s t actor AuditTransactionPosted (statusChangeAuditPayload E (old\<lparr>txn_Status := TxnPosted\<rparr>)) w5 = (Inr y, w')"
    and txn: "txn = old\<lparr>txn_Status := TxnPosted\<rparr>"
    unfolding post_tx_def Let_def by (auto elim!: bindC_InrE dest!: ok_InrD raise_InrD split: if_splits)
  have db: "db w3 = db w" "db w1 = db w"
    using LockAccountsForUpdate_InrD(1) [OF lock] check_funds_InrD [OF chk] GetTransaction_InrD [OF get] by simp_all
  moreover have "txn_ID old = i" using GetTransaction_InrD [OF get] find_transaction_InrD by blast
  moreover have "set (map ent_AccountID es) = ei_AccountID ` set (map entry_input es)" by (simp add: image_image)
  note check_project_funded [OF lock this chk]
  moreover note report_InrD [OF ev au] UpdateTransactionStatusGuarded_InrD [OF upd] GetTransaction_InrD [OF get]
  ultimately show ?thesis
    using pend txn
    by (auto simp: moved_def emitted_def recorded_def one_event_def one_audit_def set_status_def split: option.splits)
qed

lemma fail_tx_InrD:
  assumes "fail_tx E s t i actor w = (Inr txn, w')"
  shows "moved t i TxnFailed (db w) (db w') \<and>
    (\<exists>old. find_transaction t i (db w) = Inr old \<and> txn_Status old = TxnPending \<and> txn = old\<lparr>txn_Status := TxnFailed\<rparr>) \<and>
    emitted s t EventTransactionFailed (stored (transactionEventJSON E txn)) (db w) (db w') \<and>
    recorded s t actor AuditTransactionFailed
      (stored (json_Marshal (statusChangeAuditPayload E txn))) (db w) (db w')"
proof -
  from assms obtain old es v x y w1 w4 w5 where
    get: "GetTransaction_repo E t i w = (Inr (old, es), w1)" and pend: "txn_Status old = TxnPending"
    and upd: "UpdateTransactionStatusGuarded E t (txn_ID old) TxnPending TxnFailed w1 = (Inr v, w4)"
    and ev: "emitEvent E s t EventTransactionFailed (old\<lparr>txn_Status := TxnFailed\<rparr>) w4 = (Inr x, w5)"
    and au: "audited s t actor AuditTransactionFailed (statusChangeAuditPayload E (old\<lparr>txn_Status := TxnFailed\<rparr>)) w5 = (Inr y, w')"
    and txn: "txn = old\<lparr>txn_Status := TxnFailed\<rparr>"
    unfolding fail_tx_def Let_def by (auto elim!: bindC_InrE dest!: ok_InrD raise_InrD split: if_splits)
  have "txn_ID old = i" using GetTransaction_InrD [OF get] find_transaction_InrD by blast
  moreover note report_InrD [OF ev au] UpdateTransactionStatusGuarded_InrD [OF upd] GetTransaction_InrD [OF get]
  ultimately show ?thesis
    using pend txn
    by (auto simp: moved_def emitted_def recorded_def one_event_def one_audit_def set_status_def split: option.splits)
qed

lemma account_tx_InrD:
  assumes "account_tx E s t name actor w = (Inr a, w')"
  shows "\<exists>row. domain (db w') = domain ((db w)\<lparr>accounts := accounts (db w) @ [row]\<rparr>) \<and>
    a = with_balance row 0 \<and> acct_TenantID row = t \<and> acct_Name row = name \<and>
    acct_ID row \<notin> acct_ID ` set (accounts (db w)) \<and> tenant_exists (db w) t \<and>
    webhook_events (db w') = webhook_events (db w) \<and>
    recorded s t actor AuditAccountCreated (stored (json_Marshal
      (JMap [(''account_id'', JStr (uuid_String E (acct_ID a))), (''name'', JStr name)]))) (db w) (db w')"
proof -
  from assms obtain uid c w1 v where
    ins: "pg E (insert_account t name) w = (Inr (uid, c), w1)"
    and a: "a = \<lparr>acct_ID = uid, acct_TenantID = t, acct_Name = name, acct_CreatedAt = c, acct_Balance = 0\<rparr>"
    and au: "audited s t actor AuditAccountCreated
      (JMap [(''account_id'', JStr (uuid_String E (acct_ID a))), (''name'', JStr (acct_Name a))]) w1 = (Inr v, w')"
    unfolding account_tx_def CreateAccount_repo_def by (auto elim!: bindC_InrE dest!: ok_InrD wrapE_InrD)
  let ?row = "\<lparr>acct_ID = uid, acct_TenantID = t, acct_Name = name, acct_CreatedAt = c\<rparr>"
  from pg_InrD [OF ins] have "uid \<notin> acct_ID ` set (accounts (db w)) \<and> tenant_exists (db w) t \<and>
      db w1 = (db w)\<lparr>accounts := accounts (db w) @ [?row]\<rparr>"
    by (auto dest!: insert_account_InrD)
  with audited_InrD [OF au] a show ?thesis
    by (intro exI [of _ ?row])
      (auto simp: with_balance_def recorded_def one_audit_def split: option.splits)
qed

end

text \<open>The service of \<open>main.go\<close>, and one with neither interface, satisfy what the operations rely on.\<close>

lemma ledgerSvc_sel [simp]:
  "svc_events (ledgerSvc E r) = Some (EnqueueEvent E r)" "svc_audit (ledgerSvc E r) = Some (RecordAudit E)"
  by (simp_all add: ledgerSvc_def NewService_def WithEventEnqueuer_def WithAuditRecorder_def)

interpretation prod: ledger_service "pg_jsonb E" "ledgerSvc E r"
  unfolding ledger_service_def ledgerSvc_sel
  using webhook_events.event_port_axioms audit_repo.audit_port_axioms by blast

interpretation bare: ledger_service stored "NewService []"
  by unfold_locales (simp_all add: NewService_def)

end
