(* ===== verification/Ledger_Spec.thy ===== *)
theory Ledger_Spec imports Ledger_Service
begin

text \<open>
  What the ledger promises, over all its operations: an abstract transition relation on the tables
  that every operation of the service implements whatever fails on the way, a well-formedness
  invariant, conservation of money, balances that never go below zero, tenants that never touch
  each other's rows, and transactions that reach one terminal status and stay there.
\<close>

section \<open>The abstract ledger\<close>

inductive ledger_step :: "uuid \<Rightarrow> tables \<Rightarrow> tables \<Rightarrow> bool" for t where
  other: "accounts d' = accounts d \<Longrightarrow> transactions d' = transactions d \<Longrightarrow> entries d' = entries d \<Longrightarrow>
    ledger_step t d d'"
| account: "accounts d' = accounts d @ [a] \<Longrightarrow> acct_ID a \<notin> acct_ID ` set (accounts d) \<Longrightarrow> acct_TenantID a = t \<Longrightarrow>
    transactions d' = transactions d \<Longrightarrow> entries d' = entries d \<Longrightarrow> ledger_step t d d'"
| transfer: "inserted t TxnPosted es txn rows d d' \<Longrightarrow> funded t es d \<Longrightarrow> ledger_step t d d'"
| pending: "inserted t TxnPending es txn rows d d' \<Longrightarrow> ledger_step t d d'"
| post: "moved t i TxnPosted d d' \<Longrightarrow> funded t (map entry_input (select_entries t i d)) d \<Longrightarrow> ledger_step t d d'"
| fail: "moved t i TxnFailed d d' \<Longrightarrow> ledger_step t d d'"

inductive_cases ledger_stepE: "ledger_step t d d'"

text \<open>A run of the ledger: steps of any tenants in any order.\<close>

abbreviation ledger_steps :: "tables \<Rightarrow> tables \<Rightarrow> bool" where
  "ledger_steps \<equiv> (\<lambda>d d'. \<exists>t. ledger_step t d d')\<^sup>*\<^sup>*"

section \<open>The balance sheet\<close>

text \<open>\<open>posted_sum d g\<close>: the sum of \<open>g\<close> over the entries of posted transactions.\<close>

definition posted_sum :: "tables \<Rightarrow> (Entry \<Rightarrow> int) \<Rightarrow> int" where
  "posted_sum d g = (\<Sum>e \<leftarrow> entries d. if is_posted d (ent_TransactionID e) then g e else 0)"

definition entries_of :: "tables \<Rightarrow> uuid \<Rightarrow> Entry list" where
  "entries_of d i = filter (\<lambda>e. ent_TransactionID e = i) (entries d)"

definition volume :: "tables \<Rightarrow> int" where
  "volume d = (\<Sum>e \<leftarrow> entries d. \<bar>sint (ent_AmountMinor e)\<bar>)"

text \<open>
  Well-formed ledger tables: identifiers are unique, an entry's transaction exists and is its
  tenant's, its account exists and is its tenant's once the transaction is posted, and the entries of
  a pending transaction add up to zero in 64-bit arithmetic.
\<close>

definition ledger_wf :: "tables \<Rightarrow> bool" where
  "ledger_wf d \<longleftrightarrow>
     distinct (map txn_ID (transactions d)) \<and> distinct (map acct_ID (accounts d)) \<and>
     (\<forall>e \<in> set (entries d).
        (\<exists>x \<in> set (transactions d). txn_ID x = ent_TransactionID e \<and> txn_TenantID x = ent_TenantID e) \<and>
        ent_AccountID e \<in> acct_ID ` set (accounts d) \<and>
        (is_posted d (ent_TransactionID e) \<longrightarrow>
           (\<exists>a \<in> set (accounts d). acct_ID a = ent_AccountID e \<and> acct_TenantID a = ent_TenantID e))) \<and>
     (\<forall>x \<in> set (transactions d). txn_Status x = TxnPending \<longrightarrow>
        sum_list (map ent_AmountMinor (entries_of d (txn_ID x))) = 0)"

lemma ledger_wfD:
  assumes "ledger_wf d"
  shows "distinct (map txn_ID (transactions d))" and "distinct (map acct_ID (accounts d))"
    and "e \<in> set (entries d) \<Longrightarrow>
      \<exists>x \<in> set (transactions d). txn_ID x = ent_TransactionID e \<and> txn_TenantID x = ent_TenantID e"
    and "e \<in> set (entries d) \<Longrightarrow> ent_AccountID e \<in> acct_ID ` set (accounts d)"
    and "e \<in> set (entries d) \<Longrightarrow> is_posted d (ent_TransactionID e) \<Longrightarrow>
      \<exists>a \<in> set (accounts d). acct_ID a = ent_AccountID e \<and> acct_TenantID a = ent_TenantID e"
    and "x \<in> set (transactions d) \<Longrightarrow> txn_Status x = TxnPending \<Longrightarrow>
      sum_list (map ent_AmountMinor (entries_of d (txn_ID x))) = 0"
  using assms by (simp_all add: ledger_wf_def)

lemma inserted_tables:
  assumes "inserted t st es txn rows d d'"
  shows "accounts d' = accounts d" "transactions d' = transactions d @ [txn]" "entries d' = entries d @ rows"
proof -
  from assms have dom: "domain d' = domain (d\<lparr>transactions := transactions d @ [txn], entries := entries d @ rows\<rparr>)"
    by (simp add: inserted_def)
  show "accounts d' = accounts d" "transactions d' = transactions d @ [txn]" "entries d' = entries d @ rows"
    using arg_cong [OF dom, of accounts] arg_cong [OF dom, of transactions] arg_cong [OF dom, of entries]
    by (simp_all add: domain_proj)
qed

lemma inserted_fresh: "inserted t st es txn rows d d' \<Longrightarrow> txn_ID txn \<notin> txn_ID ` set (transactions d)"
  by (simp add: inserted_def)

lemma moved_tables:
  assumes "moved t i st d d'"
  shows "accounts d' = accounts d" "entries d' = entries d"
    "transactions d' = map (\<lambda>x. if guard_matches t i TxnPending x then x\<lparr>txn_Status := st\<rparr> else x) (transactions d)"
proof -
  from assms have dom: "domain d' = domain (set_status t i TxnPending st d)" by (simp add: moved_def)
  show "accounts d' = accounts d" "entries d' = entries d"
    "transactions d' = map (\<lambda>x. if guard_matches t i TxnPending x then x\<lparr>txn_Status := st\<rparr> else x) (transactions d)"
    using arg_cong [OF dom, of accounts] arg_cong [OF dom, of transactions] arg_cong [OF dom, of entries]
    by (simp_all add: domain_proj set_status_def)
qed

lemma is_posted_inserted:
  assumes "inserted t st es txn rows d d'"
  shows "is_posted d' i \<longleftrightarrow> is_posted d i \<or> (i = txn_ID txn \<and> st = TxnPosted)"
  using inserted_tables(2) [OF assms] assms by (auto simp: is_posted_def inserted_def)

lemma is_posted_moved:
  assumes "moved t i st d d'" and "distinct (map txn_ID (transactions d))"
  shows "is_posted d' j \<longleftrightarrow> is_posted d j \<or> (j = i \<and> st = TxnPosted)"
proof -
  let ?f = "\<lambda>x. if guard_matches t i TxnPending x then x\<lparr>txn_Status := st\<rparr> else x"
  obtain x where x: "x \<in> set (transactions d)" "txn_ID x = i" "txn_TenantID x = t" "txn_Status x = TxnPending"
    using assms(1) by (auto simp: moved_def guard_matches_def)
  have one: "y = x" if "y \<in> set (transactions d)" "txn_ID y = i" for y
    using that x assms(2) by (auto simp: distinct_map inj_on_def)
  have "is_posted d' j \<longleftrightarrow> (\<exists>y \<in> set (transactions d). txn_ID (?f y) = j \<and> txn_Status (?f y) = TxnPosted)"
    unfolding is_posted_def moved_tables(3) [OF assms(1)] set_map by blast
  also have "\<dots> \<longleftrightarrow> is_posted d j \<or> (j = i \<and> st = TxnPosted)"
  proof (cases "j = i")
    case True
    have "txn_ID (?f y) = txn_ID y" for y by simp
    then have "(\<exists>y \<in> set (transactions d). txn_ID (?f y) = j \<and> txn_Status (?f y) = TxnPosted) \<longleftrightarrow>
        txn_Status (?f x) = TxnPosted"
      using x(1,2) one True by metis
    moreover have "\<not> is_posted d j" using x(4) one True by (auto simp: is_posted_def)
    moreover have "?f x = x\<lparr>txn_Status := st\<rparr>" using x by (simp add: guard_matches_def)
    ultimately show ?thesis using True by simp
  next
    case False
    then have "txn_ID (?f y) = j \<and> txn_Status (?f y) = TxnPosted \<longleftrightarrow> txn_ID y = j \<and> txn_Status y = TxnPosted" for y
      by (auto simp: guard_matches_def)
    with False show ?thesis by (simp add: is_posted_def)
  qed
  finally show ?thesis .
qed

lemma posted_sum_inserted:
  assumes "inserted t st es txn rows d d'" and "ledger_wf d"
  shows "posted_sum d' g = posted_sum d g + (if st = TxnPosted then sum_list (map g rows) else 0)"
proof -
  have old: "ent_TransactionID e \<noteq> txn_ID txn" if "e \<in> set (entries d)" for e
    using ledger_wfD(3) [OF assms(2) that] inserted_fresh [OF assms(1)] by (metis imageI)
  have new: "ent_TransactionID e = txn_ID txn" if "e \<in> set rows" for e
    using assms(1) that by (simp add: inserted_def rows_for_def)
  have np: "\<not> is_posted d (txn_ID txn)"
    using inserted_fresh [OF assms(1)] by (metis imageI is_posted_def)
  have "(\<Sum>e \<leftarrow> entries d. if is_posted d' (ent_TransactionID e) then g e else 0) = posted_sum d g"
    unfolding posted_sum_def
    by (rule arg_cong [of _ _ sum_list], rule map_cong) (auto simp: is_posted_inserted [OF assms(1)] old)
  moreover have "(\<Sum>e \<leftarrow> rows. if is_posted d' (ent_TransactionID e) then g e else 0) =
      (if st = TxnPosted then sum_list (map g rows) else 0)"
    using new np
    by (induction rows) (auto simp: is_posted_inserted [OF assms(1)])
  ultimately show ?thesis
    by (simp add: posted_sum_def [of d'] inserted_tables [OF assms(1)])
qed

lemma posted_sum_moved:
  assumes "moved t i st d d'" and "ledger_wf d"
  shows "posted_sum d' g = posted_sum d g + (if st = TxnPosted then sum_list (map g (entries_of d i)) else 0)"
proof -
  have dist: "distinct (map txn_ID (transactions d))" using assms(2) by (simp add: ledger_wf_def)
  note posted = is_posted_moved [OF assms(1) dist]
  obtain x where x: "x \<in> set (transactions d)" "txn_ID x = i" "txn_Status x = TxnPending"
    using assms(1) by (auto simp: moved_def guard_matches_def)
  then have np: "\<not> is_posted d i"
    using dist by (auto simp: is_posted_def distinct_map inj_on_def)
  have "(\<Sum>e \<leftarrow> es. if is_posted d' (ent_TransactionID e) then g e else 0) =
      (\<Sum>e \<leftarrow> es. if is_posted d (ent_TransactionID e) then g e else 0) +
      (if st = TxnPosted then sum_list (map g (filter (\<lambda>e. ent_TransactionID e = i) es)) else 0)" for es
    by (induction es) (auto simp: posted np)
  then show ?thesis by (simp add: posted_sum_def entries_of_def moved_tables [OF assms(1)])
qed

section \<open>Well-formedness\<close>

lemma entries_of_inserted:
  assumes "inserted t st es txn rows d d'" and "ledger_wf d"
  shows "entries_of d' i = (if i = txn_ID txn then rows else entries_of d i)"
proof -
  have "ent_TransactionID e \<noteq> txn_ID txn" if "e \<in> set (entries d)" for e
    using ledger_wfD(3) [OF assms(2) that] inserted_fresh [OF assms(1)] by (metis imageI)
  then have "filter (\<lambda>e. ent_TransactionID e = txn_ID txn) (entries d) = []" by (simp add: filter_empty_conv)
  moreover have "\<forall>e \<in> set rows. ent_TransactionID e = txn_ID txn"
    using assms(1) by (simp add: inserted_def rows_for_def)
  ultimately show ?thesis
    by (auto simp: entries_of_def inserted_tables [OF assms(1)] filter_empty_conv filter_id_conv)
qed

lemma rows_amounts: "rows_for t i es rows \<Longrightarrow> map ent_AmountMinor rows = map ei_AmountMinor es"
  by (auto simp: rows_for_def)

lemma wf_inserted:
  assumes "inserted t st es txn rows d d'" and "ledger_wf d" and "st = TxnPosted \<Longrightarrow> funded t es d"
  shows "ledger_wf d'"
  unfolding ledger_wf_def inserted_tables [OF assms(1)]
proof (intro conjI ballI impI)
  note wf = ledger_wfD [OF assms(2)] and posted = is_posted_inserted [OF assms(1)]
  have rows: "rows_for t (txn_ID txn) es rows" "txn_TenantID txn = t" "txn_Status txn = st"
    "\<forall>e \<in> set es. ei_AccountID e \<in> acct_ID ` set (accounts d)" "Sum es = 0"
    using assms(1) by (simp_all add: inserted_def validateEntries_None)
  have row: "ent_TransactionID e = txn_ID txn \<and> ent_TenantID e = t \<and> entry_input e \<in> set es" if "e \<in> set rows" for e
    using rows(1) that by (auto simp: rows_for_def)
  show "distinct (map txn_ID (transactions d @ [txn]))" using wf(1) inserted_fresh [OF assms(1)] by simp
  show "distinct (map acct_ID (accounts d))" by (rule wf(2))
  fix e
  assume "e \<in> set (entries d @ rows)"
  then consider (old) "e \<in> set (entries d)" | (new) "e \<in> set rows" by auto
  note cases = this
  show "\<exists>x \<in> set (transactions d @ [txn]). txn_ID x = ent_TransactionID e \<and> txn_TenantID x = ent_TenantID e"
    by (cases rule: cases) (use wf(3) in fastforce, use row rows(2) in auto)
  show "ent_AccountID e \<in> acct_ID ` set (accounts d)"
    by (cases rule: cases) (use wf(4) in blast, metis row rows(4) entry_input_sel(1))
  assume post: "is_posted d' (ent_TransactionID e)"
  show "\<exists>a \<in> set (accounts d). acct_ID a = ent_AccountID e \<and> acct_TenantID a = ent_TenantID e"
  proof (cases rule: cases)
    case old
    with wf(3) [OF old] inserted_fresh [OF assms(1)] post posted have "is_posted d (ent_TransactionID e)"
      by (metis imageI)
    with wf(5) [OF old] show ?thesis .
  next
    case new
    with post posted row inserted_fresh [OF assms(1)] have "st = TxnPosted"
      by (metis imageI is_posted_def)
    with assms(3) row [OF new] show ?thesis
      unfolding funded_def by (metis imageI entry_input_sel(1))
  qed
next
  fix x
  assume x: "x \<in> set (transactions d @ [txn])" and pend: "txn_Status x = TxnPending"
  note wf = ledger_wfD [OF assms(2)]
  have "Sum es = 0" "rows_for t (txn_ID txn) es rows" using assms(1) by (simp_all add: inserted_def validateEntries_None)
  then have new: "sum_list (map ent_AmountMinor rows) = 0" by (simp add: Sum_eq rows_amounts)
  show "sum_list (map ent_AmountMinor (entries_of d' (txn_ID x))) = 0"
    using x new wf(6) [OF _ pend] inserted_fresh [OF assms(1)]
    by (auto simp: entries_of_inserted [OF assms(1,2)])
qed

lemma select_entries_set: "set (select_entries t i d) = {e \<in> set (entries_of d i). ent_TenantID e = t}"
  by (auto simp: select_entries_def entries_of_def)

lemma wf_moved:
  assumes "moved t i st d d'" and "ledger_wf d" and "st \<noteq> TxnPending"
    and "st = TxnPosted \<Longrightarrow> funded t (map entry_input (select_entries t i d)) d"
  shows "ledger_wf d'"
  unfolding ledger_wf_def moved_tables [OF assms(1)]
proof (intro conjI ballI impI)
  let ?f = "\<lambda>x. if guard_matches t i TxnPending x then x\<lparr>txn_Status := st\<rparr> else x"
  note wf = ledger_wfD [OF assms(2)]
  obtain y where y: "y \<in> set (transactions d)" "txn_ID y = i" "txn_TenantID y = t"
    using assms(1) by (auto simp: moved_def guard_matches_def)
  have ids: "txn_ID (?f x) = txn_ID x" "txn_TenantID (?f x) = txn_TenantID x" for x by simp_all
  show "distinct (map txn_ID (map ?f (transactions d)))" using wf(1) by (simp add: comp_def ids)
  show "distinct (map acct_ID (accounts d))" by (rule wf(2))
  fix e
  assume e: "e \<in> set (entries d)"
  from wf(3) [OF e] obtain x where x: "x \<in> set (transactions d)" "txn_ID x = ent_TransactionID e" "txn_TenantID x = ent_TenantID e"
    by blast
  then show "\<exists>x \<in> set (map ?f (transactions d)). txn_ID x = ent_TransactionID e \<and> txn_TenantID x = ent_TenantID e"
    using ids unfolding set_map by (metis (no_types, lifting) imageI)
  show "ent_AccountID e \<in> acct_ID ` set (accounts d)" by (rule wf(4) [OF e])
  assume "is_posted d' (ent_TransactionID e)"
  then consider (old) "is_posted d (ent_TransactionID e)" | (new) "ent_TransactionID e = i" "st = TxnPosted"
    using is_posted_moved [OF assms(1) wf(1)] by blast
  then show "\<exists>a \<in> set (accounts d). acct_ID a = ent_AccountID e \<and> acct_TenantID a = ent_TenantID e"
  proof cases
    case old
    then show ?thesis by (rule wf(5) [OF e])
  next
    case new
    have "x = y" using wf(1) x y new by (auto simp: distinct_map inj_on_def)
    with x y e new have "e \<in> set (select_entries t i d)" by (auto simp: select_entries_set entries_of_def)
    then have "ent_AccountID e \<in> ei_AccountID ` set (map entry_input (select_entries t i d))" by force
    with assms(4) [OF new(2)] x y \<open>x = y\<close> show ?thesis unfolding funded_def by metis
  qed
next
  let ?f = "\<lambda>x. if guard_matches t i TxnPending x then x\<lparr>txn_Status := st\<rparr> else x"
  fix x
  assume "x \<in> set (map ?f (transactions d))" and "txn_Status x = TxnPending"
  then have "x \<in> set (transactions d)" using assms(3) by (auto split: if_splits)
  with ledger_wfD(6) [OF assms(2)] \<open>txn_Status x = TxnPending\<close> moved_tables(2) [OF assms(1)]
  show "sum_list (map ent_AmountMinor (entries_of d' (txn_ID x))) = 0" by (simp add: entries_of_def)
qed

lemma wf_frame:
  assumes "transactions d' = transactions d" and "entries d' = entries d" and "accounts d' = accounts d @ as"
    and "distinct (map acct_ID (accounts d'))" and "ledger_wf d"
  shows "ledger_wf d'"
  using assms unfolding ledger_wf_def entries_of_def is_posted_def by auto

lemma ledger_step_wf:
  assumes "ledger_step t d d'" and "ledger_wf d"
  shows "ledger_wf d'"
  using assms(1)
proof cases
  case other
  then show ?thesis using wf_frame [of d' d "[]"] assms(2) ledger_wfD(2) by auto
next
  case (account a)
  then show ?thesis using wf_frame [of d' d "[a]"] assms(2) ledger_wfD(2) [OF assms(2)] by auto
next
  case (transfer es txn rows)
  then show ?thesis using wf_inserted assms(2) by blast
next
  case (pending es txn rows)
  then show ?thesis using wf_inserted assms(2) by blast
next
  case (post i)
  then show ?thesis using wf_moved assms(2) by blast
next
  case (fail i)
  then show ?thesis using wf_moved assms(2) by blast
qed

section \<open>Balances as sums over the balance sheet\<close>

definition amount_for :: "uuid \<Rightarrow> Entry \<Rightarrow> int" where
  "amount_for i e = (if ent_AccountID e = i then sint (ent_AmountMinor e) else 0)"

definition amount_of_tenant :: "uuid \<Rightarrow> Entry \<Rightarrow> int" where
  "amount_of_tenant t e = (if ent_TenantID e = t then sint (ent_AmountMinor e) else 0)"

lemma posted_balance_sum: "ledger_wf d \<Longrightarrow> posted_balance d i = posted_sum d (amount_for i)"
  unfolding posted_balance_eq [OF ledger_wfD(1)] posted_sum_def amount_for_def
  by (rule arg_cong [of _ _ sum_list], rule map_cong) auto

lemma abs_posted_sum_le:
  assumes "\<And>e. \<bar>g e\<bar> \<le> \<bar>sint (ent_AmountMinor e)\<bar>"
  shows "\<bar>posted_sum d g\<bar> \<le> volume d"
proof -
  have "\<bar>\<Sum>e \<leftarrow> es. if P e then g e else 0\<bar> \<le> (\<Sum>e \<leftarrow> es. \<bar>sint (ent_AmountMinor e)\<bar>)" for es and P :: "Entry \<Rightarrow> bool"
  proof (induction es)
    case (Cons e es)
    then show ?case using assms [of e] by (cases "P e") simp_all
  qed simp
  then show ?thesis by (simp add: posted_sum_def volume_def)
qed

lemma abs_posted_balance: "ledger_wf d \<Longrightarrow> \<bar>posted_balance d i\<bar> \<le> volume d"
  by (simp add: posted_balance_sum abs_posted_sum_le amount_for_def)

lemma volume_nonneg: "0 \<le> volume d"
  by (auto simp: volume_def intro!: sum_list_nonneg)

lemma sum_sint_mod: "(\<Sum>e \<leftarrow> es. sint (f e :: money)) mod 2 ^ 64 = uint (sum_list (map f es))"
proof -
  have "sum_list (map f es) = word_of_int (\<Sum>e \<leftarrow> es. sint (f e))"
    using sum_list_word [of "map f es"] by (simp add: comp_def)
  then show ?thesis by (simp add: uint_word_of_int)
qed

text \<open>The change of an account's balance that a list of entries makes, without wrap-around.\<close>

definition change :: "EntryInput list \<Rightarrow> uuid \<Rightarrow> int" where
  "change es i = (\<Sum>e \<leftarrow> es. if ei_AccountID e = i then sint (ei_AmountMinor e) else 0)"

lemma delta_change: "delta es i = word_of_int (change es i)"
  by (induction es) (simp_all add: change_def delta_def)

lemma change_entry_input: "change (map entry_input es) i = sum_list (map (amount_for i) es)"
  by (induction es) (simp_all add: change_def amount_for_def)

lemma change_rows: "rows_for t j es rows \<Longrightarrow> sum_list (map (amount_for i) rows) = change es i"
  by (auto simp: rows_for_def change_entry_input)

lemma change_absent: "i \<notin> ei_AccountID ` set es \<Longrightarrow> change es i = 0"
  by (induction es) (auto simp: change_def)

lemma projected_exact:
  assumes "funded t es d" and "i \<in> ei_AccountID ` set es" and "fits64 (posted_balance d i + change es i)"
  shows "0 \<le> posted_balance d i + change es i"
proof -
  have "0 \<le> sint (word_of_int (posted_balance d i) + delta es i)" using assms(1,2) unfolding funded_def by blast
  also have "word_of_int (posted_balance d i) + delta es i = (word_of_int (posted_balance d i + change es i) :: money)"
    by (simp add: delta_change)
  finally show ?thesis using sint_of_int64 [OF assms(3)] by simp
qed

lemma sum_list_sort_key: "(\<Sum>e \<leftarrow> sort_key k es. g e) = (\<Sum>e \<leftarrow> es. (g e :: int))"
proof (induction es)
  case (Cons e es)
  have "(\<Sum>x \<leftarrow> insort_key k e xs. g x) = g e + (\<Sum>x \<leftarrow> xs. g x)" for xs by (induction xs) simp_all
  with Cons show ?case by simp
qed simp

lemma entries_of_tenant:
  assumes "moved t i st d d'" and "ledger_wf d" and "e \<in> set (entries_of d i)"
  shows "ent_TenantID e = t"
proof -
  obtain y where y: "y \<in> set (transactions d)" "txn_ID y = i" "txn_TenantID y = t"
    using assms(1) by (auto simp: moved_def guard_matches_def)
  have e: "e \<in> set (entries d)" "ent_TransactionID e = i" using assms(3) by (auto simp: entries_of_def)
  from ledger_wfD(3) [OF assms(2) e(1)] obtain x where "x \<in> set (transactions d)" "txn_ID x = i" "txn_TenantID x = ent_TenantID e"
    using e(2) by auto
  with y ledger_wfD(1) [OF assms(2)] show ?thesis by (auto simp: distinct_map inj_on_def)
qed

lemma change_select:
  assumes "moved t i st d d'" and "ledger_wf d"
  shows "sum_list (map (amount_for a) (entries_of d i)) = change (map entry_input (select_entries t i d)) a"
proof -
  have "filter (\<lambda>e. ent_TransactionID e = i \<and> ent_TenantID e = t) (entries d) = entries_of d i"
    using entries_of_tenant [OF assms] by (auto simp: entries_of_def intro!: filter_cong)
  then show ?thesis
    by (simp add: change_entry_input select_entries_def sum_list_sort_key)
qed

lemma posted_balance_inserted:
  assumes "inserted t st es txn rows d d'" and "ledger_wf d" and "ledger_wf d'"
  shows "posted_balance d' i = posted_balance d i + (if st = TxnPosted then change es i else 0)"
proof -
  have "rows_for t (txn_ID txn) es rows" using assms(1) by (simp add: inserted_def)
  with posted_sum_inserted [OF assms(1,2)] show ?thesis
    by (simp add: posted_balance_sum [OF assms(2)] posted_balance_sum [OF assms(3)] change_rows)
qed

lemma posted_balance_moved:
  assumes "moved t i st d d'" and "ledger_wf d" and "ledger_wf d'"
  shows "posted_balance d' a = posted_balance d a +
    (if st = TxnPosted then change (map entry_input (select_entries t i d)) a else 0)"
  by (simp add: posted_balance_sum [OF assms(2)] posted_balance_sum [OF assms(3)]
      posted_sum_moved [OF assms(1,2)] change_select [OF assms(1,2)])

lemma posted_sum_frame:
  "transactions d' = transactions d \<Longrightarrow> entries d' = entries d \<Longrightarrow> posted_sum d' g = posted_sum d g"
  by (simp add: posted_sum_def is_posted_def)

lemma volume_mono:
  assumes "ledger_step t d d'"
  shows "volume d \<le> volume d'"
  using assms
proof cases
  case (transfer es txn rows)
  then show ?thesis by (auto simp: volume_def inserted_tables(3) intro!: sum_list_nonneg)
next
  case (pending es txn rows)
  then show ?thesis by (auto simp: volume_def inserted_tables(3) intro!: sum_list_nonneg)
qed (simp_all add: volume_def moved_tables(2))

text \<open>No balance goes below zero in a step, as long as the sums involved stay in 64 bits.\<close>

definition solvent :: "tables \<Rightarrow> bool" where
  "solvent d \<longleftrightarrow> (\<forall>i. 0 \<le> posted_balance d i)"

lemma step_solvent_aux:
  assumes "ledger_wf d'" and "volume d' < 2 ^ 63" and "solvent d" and "funded t es d"
    and "\<And>i. posted_balance d' i = posted_balance d i + change es i"
  shows "solvent d'"
  unfolding solvent_def
proof
  fix i
  have "\<bar>posted_balance d' i\<bar> < 2 ^ 63" using abs_posted_balance [OF assms(1), of i] assms(2) by simp
  then have fit: "fits64 (posted_balance d i + change es i)" using assms(5) [of i] by (auto simp: fits64_def)
  show "0 \<le> posted_balance d' i"
  proof (cases "i \<in> ei_AccountID ` set es")
    case True
    then show ?thesis using projected_exact [OF assms(4) True fit] assms(5) by simp
  next
    case False
    then show ?thesis using assms(3,5) by (simp add: change_absent solvent_def)
  qed
qed

lemma posted_balance_frame:
  "ledger_wf d \<Longrightarrow> ledger_wf d' \<Longrightarrow> transactions d' = transactions d \<Longrightarrow> entries d' = entries d \<Longrightarrow>
   posted_balance d' i = posted_balance d i"
  using posted_sum_frame [of d' d "amount_for i"] by (simp add: posted_balance_sum)

lemma ledger_step_solvent:
  assumes "ledger_step t d d'" and "ledger_wf d" and "solvent d" and "volume d' < 2 ^ 63"
  shows "solvent d'"
proof -
  have wf': "ledger_wf d'" using ledger_step_wf assms(1,2) by blast
  note frame = posted_balance_frame [OF assms(2) wf'] and aux = step_solvent_aux [OF wf' assms(4,3)]
  from assms(1) show ?thesis
  proof cases
    case other
    with frame assms(3) show ?thesis by (simp add: solvent_def)
  next
    case account
    with frame assms(3) show ?thesis by (simp add: solvent_def)
  next
    case (transfer es txn rows)
    with posted_balance_inserted [OF _ assms(2) wf'] show ?thesis by (intro aux [of t es]) simp_all
  next
    case (pending es txn rows)
    with posted_balance_inserted [OF _ assms(2) wf'] assms(3) show ?thesis by (simp add: solvent_def)
  next
    case (post i)
    with posted_balance_moved [OF _ assms(2) wf'] show ?thesis
      by (intro aux [of t "map entry_input (select_entries t i d)"]) simp_all
  next
    case (fail i)
    with posted_balance_moved [OF _ assms(2) wf'] assms(3) show ?thesis by (simp add: solvent_def)
  qed
qed

section \<open>Conservation\<close>

text \<open>What a tenant's accounts hold together.\<close>

definition tenant_total :: "tables \<Rightarrow> uuid \<Rightarrow> int" where
  "tenant_total d t = (\<Sum>a \<leftarrow> filter (\<lambda>a. acct_TenantID a = t) (accounts d). posted_balance d (acct_ID a))"

lemma posted_sum_cong:
  "(\<And>e. e \<in> set (entries d) \<Longrightarrow> is_posted d (ent_TransactionID e) \<Longrightarrow> g e = h e) \<Longrightarrow> posted_sum d g = posted_sum d h"
  unfolding posted_sum_def by (rule arg_cong [of _ _ sum_list], rule map_cong) auto

lemma posted_sum_add: "posted_sum d (\<lambda>e. g e + h e) = posted_sum d g + posted_sum d h"
proof -
  have "(\<Sum>e \<leftarrow> es. if P e then g e + h e else 0) =
      (\<Sum>e \<leftarrow> es. if P e then g e else 0) + (\<Sum>e \<leftarrow> es. if P e then h e else 0)" for es and P :: "Entry \<Rightarrow> bool"
    by (induction es) simp_all
  then show ?thesis by (simp add: posted_sum_def)
qed

lemma posted_sum_list: "(\<Sum>a \<leftarrow> as. posted_sum d (g a)) = posted_sum d (\<lambda>e. \<Sum>a \<leftarrow> as. g a e)"
  by (induction as) (simp_all add: posted_sum_add, simp add: posted_sum_def sum_list_0)

lemma one_account:
  assumes "distinct (map acct_ID as)" and "a \<in> set as" and "acct_ID a = i"
  shows "(\<Sum>b \<leftarrow> filter P as. if i = acct_ID b then v else (0 :: int)) = (if P a then v else 0)"
  using assms
proof (induction as)
  case (Cons b as)
  have none: "(\<Sum>b \<leftarrow> filter P as. if i = acct_ID b then v else (0 :: int)) = 0" if "i \<notin> acct_ID ` set as" for as
    using that by (induction as) auto
  show ?case
  proof (cases "acct_ID b = i")
    case True
    with Cons.prems have "b = a" "i \<notin> acct_ID ` set as" by auto
    with True none show ?thesis by simp
  next
    case False
    with Cons show ?thesis by auto
  qed
qed simp

lemma tenant_total_sum:
  assumes "ledger_wf d"
  shows "tenant_total d t = posted_sum d (amount_of_tenant t)"
proof -
  note wf = ledger_wfD [OF assms]
  let ?as = "filter (\<lambda>a. acct_TenantID a = t) (accounts d)"
  have "tenant_total d t = posted_sum d (\<lambda>e. \<Sum>a \<leftarrow> ?as. amount_for (acct_ID a) e)"
    by (simp add: tenant_total_def posted_balance_sum [OF assms] posted_sum_list)
  also have "\<dots> = posted_sum d (amount_of_tenant t)"
  proof (rule posted_sum_cong)
    fix e
    assume e: "e \<in> set (entries d)" "is_posted d (ent_TransactionID e)"
    from wf(5) [OF e] obtain a where "a \<in> set (accounts d)" "acct_ID a = ent_AccountID e" "acct_TenantID a = ent_TenantID e"
      by blast
    with one_account [OF wf(2), of a "ent_AccountID e"] show "(\<Sum>a \<leftarrow> ?as. amount_for (acct_ID a) e) = amount_of_tenant t e"
      by (simp add: amount_for_def amount_of_tenant_def)
  qed
  finally show ?thesis .
qed

lemma zero_sum_mod:
  assumes "sum_list (map ent_AmountMinor rows) = 0"
  shows "(\<Sum>e \<leftarrow> rows. sint (ent_AmountMinor e)) mod 2 ^ 64 = 0"
  using sum_sint_mod [of ent_AmountMinor rows] assms by simp

lemma tenant_rows:
  "\<forall>e \<in> set rows. ent_TenantID e = t' \<Longrightarrow>
   sum_list (map (amount_of_tenant t) rows) = (if t' = t then \<Sum>e \<leftarrow> rows. sint (ent_AmountMinor e) else 0)"
  by (induction rows) (auto simp: amount_of_tenant_def)

lemma abs_sum_rows: "\<bar>\<Sum>e \<leftarrow> filter P es. sint (ent_AmountMinor e)\<bar> \<le> (\<Sum>e \<leftarrow> es. \<bar>sint (ent_AmountMinor e)\<bar>)"
  by (induction es) auto

lemma small_zero: "(z :: int) mod 2 ^ 64 = 0 \<Longrightarrow> \<bar>z\<bar> < 2 ^ 63 \<Longrightarrow> z = 0"
  using dvd_imp_le_int [of z "2 ^ 64"] by (cases "z = 0") (simp_all add: mod_eq_0_iff_dvd)

lemma ledger_step_total:
  assumes "ledger_step t' d d'" and "ledger_wf d"
  shows "\<exists>z. tenant_total d' t = tenant_total d t + z \<and> z mod 2 ^ 64 = 0 \<and> \<bar>z\<bar> \<le> volume d'"
proof -
  have wf': "ledger_wf d'" using ledger_step_wf assms by blast
  note total = tenant_total_sum [OF assms(2)] tenant_total_sum [OF wf']
  have none: ?thesis if "posted_sum d' (amount_of_tenant t) = posted_sum d (amount_of_tenant t)"
    using that volume_nonneg by (auto simp: total intro!: exI [of _ 0])
  have some: ?thesis if "posted_sum d' (amount_of_tenant t) = posted_sum d (amount_of_tenant t) +
      sum_list (map (amount_of_tenant t) rows)" and "\<forall>e \<in> set rows. ent_TenantID e = t'"
      and "sum_list (map ent_AmountMinor rows) = 0" and "rows = filter P (entries d')" for rows P
    using that(1) tenant_rows [OF that(2), of t] zero_sum_mod [OF that(3)] volume_nonneg [of d']
      abs_sum_rows [of P "entries d'"]
    by (auto simp: total volume_def that(4) intro!: exI [of _ "sum_list (map (amount_of_tenant t) rows)"])
  from assms(1) show ?thesis
  proof cases
    case other
    then show ?thesis by (intro none posted_sum_frame)
  next
    case account
    then show ?thesis by (intro none posted_sum_frame)
  next
    case (transfer es txn rows)
    then have ins: "rows_for t' (txn_ID txn) es rows" "Sum es = 0" by (simp_all add: inserted_def validateEntries_None)
    have "rows = filter (\<lambda>e. ent_TransactionID e = txn_ID txn) (entries d')"
      using entries_of_inserted [OF transfer(1) assms(2), of "txn_ID txn"] by (simp add: entries_of_def)
    moreover have "sum_list (map ent_AmountMinor rows) = 0" using ins by (simp add: Sum_eq rows_amounts)
    moreover have "\<forall>e \<in> set rows. ent_TenantID e = t'" using ins(1) by (simp add: rows_for_def)
    ultimately show ?thesis
      by (intro some [of rows]) (simp_all only: posted_sum_inserted [OF transfer(1) assms(2)], simp)
  next
    case (pending es txn rows)
    then show ?thesis by (intro none) (simp add: posted_sum_inserted [OF pending assms(2)])
  next
    case (post i)
    obtain y where y: "y \<in> set (transactions d)" "txn_ID y = i" "txn_Status y = TxnPending"
      using post(1) by (auto simp: moved_def guard_matches_def)
    show ?thesis
    proof (rule some [of "entries_of d i"])
      show "sum_list (map ent_AmountMinor (entries_of d i)) = 0" using ledger_wfD(6) [OF assms(2) y(1,3)] y(2) by simp
      show "\<forall>e \<in> set (entries_of d i). ent_TenantID e = t'" using entries_of_tenant [OF post(1) assms(2)] by blast
    qed (simp_all add: posted_sum_moved [OF post(1) assms(2)] entries_of_def moved_tables(2) [OF post(1)])
  next
    case (fail i)
    then show ?thesis by (intro none) (simp add: posted_sum_moved [OF fail assms(2)])
  qed
qed

lemma ledger_steps_invariants:
  assumes "ledger_steps d d'" and "ledger_wf d"
  shows "ledger_wf d'" and "volume d \<le> volume d'"
    and "solvent d \<Longrightarrow> volume d' < 2 ^ 63 \<Longrightarrow> solvent d'"
    and "tenant_total d' t mod 2 ^ 64 = tenant_total d t mod 2 ^ 64"
    and "volume d' < 2 ^ 63 \<Longrightarrow> tenant_total d' t = tenant_total d t"
proof -
  have "ledger_wf d' \<and> volume d \<le> volume d' \<and> (solvent d \<longrightarrow> volume d' < 2 ^ 63 \<longrightarrow> solvent d') \<and>
      tenant_total d' t mod 2 ^ 64 = tenant_total d t mod 2 ^ 64 \<and>
      (volume d' < 2 ^ 63 \<longrightarrow> tenant_total d' t = tenant_total d t)"
    using assms(1)
  proof (induction rule: rtranclp_induct)
    case base
    then show ?case using assms(2) by simp
  next
    case (step d1 d2)
    then have wf: "ledger_wf d1" by simp
    from step(2) obtain t' where one: "ledger_step t' d1 d2" by blast
    obtain z where z: "tenant_total d2 t = tenant_total d1 t + z" "z mod 2 ^ 64 = 0" "\<bar>z\<bar> \<le> volume d2"
      using ledger_step_total [OF one wf, of t] by (elim exE conjE) (rule that; assumption)
    have "tenant_total d2 t mod 2 ^ 64 = tenant_total d1 t mod 2 ^ 64"
      unfolding z(1) by (subst mod_add_right_eq [symmetric]) (simp only: z(2) add_0_right)
    moreover have "z = 0" if "volume d2 < 2 ^ 63" by (rule small_zero [OF z(2)]) (rule le_less_trans [OF z(3) that])
    moreover note ledger_step_wf [OF one wf] volume_mono [OF one] ledger_step_solvent [OF one wf]
    moreover have "volume d1 < 2 ^ 63" if "volume d2 < 2 ^ 63" using that volume_mono [OF one] by simp
    ultimately show ?case
      using step(3) z(1) by (intro conjI impI) simp_all
  qed
  then show "ledger_wf d'" "volume d \<le> volume d'" "solvent d \<Longrightarrow> volume d' < 2 ^ 63 \<Longrightarrow> solvent d'"
    "tenant_total d' t mod 2 ^ 64 = tenant_total d t mod 2 ^ 64"
    "volume d' < 2 ^ 63 \<Longrightarrow> tenant_total d' t = tenant_total d t" by simp_all
qed

end
