(* ===== verification/Fixtures.thy ===== *)
theory Fixtures
  imports Models
begin

text \<open>
  Concrete environments, rows and tables at which the properties of the other theories are
  instantiated: an environment in which every call succeeds, one whose calls fail from a given
  point on, and small tables with one tenant.
\<close>

text \<open>
  Stand-ins for the libraries: ASCII lower case; identifiers in decimal; a password hash that spells the password; and access
  tokens that spell the secret, the user, the tenant and the role.
\<close>

definition to_lower_ascii :: "char \<Rightarrow> char" where
  "to_lower_ascii c = (if CHR ''A'' \<le> c \<and> c \<le> CHR ''Z'' then char_of (of_char c + 32 :: nat) else c)"

definition demo_parse_uuid :: "string \<Rightarrow> uuid option" where
  "demo_parse_uuid s = (if s \<noteq> [] \<and> list_all (\<lambda>c. CHR ''0'' \<le> c \<and> c \<le> CHR ''9'') s
     then Some (of_nat (digits_val s)) else None)"

fun put_field :: "string \<Rightarrow> string" where
  "put_field [] = ''.''"
| "put_field (x # xs) = CHR ''c'' # x # put_field xs"

fun get_field :: "string \<Rightarrow> string \<times> string" where
  "get_field (t # x # r) = (if t = CHR ''c'' then (case get_field r of (s, r') \<Rightarrow> (x # s, r')) else ([], x # r))"
| "get_field r = ([], [])"

definition demo_sign :: "string \<Rightarrow> Claims \<Rightarrow> string + string" where
  "demo_sign secret c = Inr (put_field secret @ put_field (cl_UserID c) @ put_field (cl_TenantID c) @ put_field (cl_RoleID c))"

definition demo_parse :: "instant \<Rightarrow> (jwt_method \<Rightarrow> error + string) \<Rightarrow> string \<Rightarrow> string + (Claims \<times> bool)" where
  "demo_parse now key tok =
     (case get_field tok of (secret, r) \<Rightarrow> (case get_field r of (user, r) \<Rightarrow> (case get_field r of (tenant, r) \<Rightarrow>
       (case key (SigningMethodHMAC ''HS256'') of
           Inl e \<Rightarrow> Inl ''unverifiable''
         | Inr k \<Rightarrow> if k = secret
             then Inr (\<lparr>cl_UserID = user, cl_TenantID = tenant, cl_RoleID = fst (get_field r), cl_Subject = user,
                        cl_ExpiresAt = None, cl_IssuedAt = None\<rparr>, True)
             else Inl ''signature is invalid''))))"

lemma put_field_not_Nil [simp]: "put_field s \<noteq> []"
  by (cases s) simp_all

lemma get_put_field: "r \<noteq> [] \<Longrightarrow> get_field (put_field s @ r) = (s, r)"
  by (induction s) (auto simp: neq_Nil_conv)

lemma get_put_field_end: "get_field (put_field s) = (s, [])"
  by (induction s) auto

definition demo_env :: env where
  "demo_env = \<lparr>outcome = (\<lambda>_. Done), gen_random_uuid = (\<lambda>n. 1000 + of_nat n), pg_now = (\<lambda>n. 100 + int n),
     time_Now = (\<lambda>n. 100 + int n), pg_timestamptz = (\<lambda>t. t), pg_jsonb = (\<lambda>s. s),
     pg_message = (\<lambda>_. ''pg''), uuid_String = (\<lambda>u. FormatInt (uint u)), uuid_Parse = demo_parse_uuid,
     rand_Read = (\<lambda>_ n. Some (replicate n (CHR ''x''))), rand_Int = (\<lambda>_ _. Some 0),
     map_choice = (\<lambda>_. 0), row_locked = (\<lambda>_ _. False), int64_of_float = (\<lambda>_. 0), http_NewRequest = (\<lambda>_. None),
     http_Do = (\<lambda>_ _. Inr 200), pg_lower = map to_lower_ascii,
     bcrypt_Generate = (\<lambda>_ pw _. Inr (CHR ''$'' # pw)), bcrypt_Compare = (\<lambda>h pw. h = CHR ''$'' # pw),
     jwt_NewNumericDate = (\<lambda>t. t - t mod 1000000000), jwt_SignHS256 = demo_sign, jwt_Parse = demo_parse,
     unicode_IsPrint = (\<lambda>n. 32 \<le> n \<and> n < 127), time_RFC3339 = FormatInt, time_RFC3339Nano = FormatInt, time_RFC3339Nano_UTC = FormatInt,
     debug_Stack = (\<lambda>_. ''goroutine 1'')\<rparr>"

definition demo_tenant :: "uuid \<Rightarrow> tenant_row" where
  "demo_tenant t = \<lparr>tn_ID = t, tn_Name = ''acme'', tn_APIKeyHash = ''h'', tn_CreatedAt = 0,
     tn_WebhookURL = Some ''https://acme.example/hook'', tn_WebhookSecret = Some ''secret''\<rparr>"

definition demo_account :: "uuid \<Rightarrow> uuid \<Rightarrow> account_row" where
  "demo_account i t = \<lparr>acct_ID = i, acct_TenantID = t, acct_Name = ''wallet'', acct_CreatedAt = 0\<rparr>"

definition demo_job :: "uuid \<Rightarrow> instant \<Rightarrow> job_status \<Rightarrow> Job" where
  "demo_job i t st = \<lparr>job_ID = i, job_TenantID = 1, job_JobType = ''transaction.posted'',
     job_Payload = ''{}'', job_Status = st, job_AttemptCount = 0, job_NextRetryAt = t,
     job_CreatedAt = 0, job_LastError = None\<rparr>"

definition demo_txn :: "uuid \<Rightarrow> uuid \<Rightarrow> txn_status \<Rightarrow> Transaction" where
  "demo_txn i t st = \<lparr>txn_ID = i, txn_TenantID = t, txn_Status = st, txn_CreatedAt = 0\<rparr>"

definition demo_entry :: "uuid \<Rightarrow> uuid \<Rightarrow> uuid \<Rightarrow> uuid \<Rightarrow> money \<Rightarrow> Entry" where
  "demo_entry i t x a amt = \<lparr>ent_ID = i, ent_TenantID = t, ent_TransactionID = x, ent_AccountID = a,
     ent_AmountMinor = amt, ent_CreatedAt = 0\<rparr>"

text \<open>Two tenants; tenant 1 has the accounts 11, with a balance of 100, and 12; tenant 2 has 21.\<close>

definition demo_ledger :: tables where
  "demo_ledger = empty_tables\<lparr>tenants := [demo_tenant 1, demo_tenant 2],
     accounts := [demo_account 11 1, demo_account 12 1, demo_account 21 2],
     transactions := [demo_txn 5 1 TxnPosted], entries := [demo_entry 6 1 5 11 100]\<rparr>"

definition demo_world :: "tables \<Rightarrow> world" where
  "demo_world d = \<lparr>db = d, tick = 0, tx_now = None, counters = (\<lambda>_. 0), sent = [], logs = []\<rparr>"

lemmas demo_defs = demo_env_def demo_tenant_def demo_account_def demo_job_def demo_world_def
  demo_txn_def demo_entry_def demo_ledger_def
  empty_tables_def

lemma demo_calm: "calm demo_env"
  by (simp add: calm_def demo_env_def)

end
