(* ===== verification/Ledger.thy ===== *)
theory Ledger
  imports Ledger_Spec Fixtures
begin

text \<open>
  The properties of the ledger as a client sees it: every call of the service implements a step of the
  abstract ledger, whatever fails on the way, and what follows for the results of single calls and
  for the tables after any sequence of calls.
\<close>

section \<open>Requests\<close>

text \<open>
  One call of the service, with its result dropped, and a sequence of calls: what a client can do,
  whatever the calls return.
\<close>

datatype ledger_op =
    OpCreateAccount uuid string string
  | OpExecuteTransfer TransferRequest
  | OpCreatePending TransferRequest
  | OpPostPending uuid uuid string
  | OpFailPending uuid uuid string
  | OpGetTransaction uuid uuid
  | OpGetAccount uuid uuid

definition discard :: "(world, error, 'a) comp \<Rightarrow> (world, error, unit) comp" where
  "discard m = bindC m (\<lambda>_. ok ())"

primrec run_op :: "env \<Rightarrow> Service \<Rightarrow> ledger_op \<Rightarrow> (world, error, unit) comp" where
  "run_op E s (OpCreateAccount t name actor) = discard (CreateAccount E s t name actor)"
| "run_op E s (OpExecuteTransfer req) = discard (ExecuteTransfer E s req)"
| "run_op E s (OpCreatePending req) = discard (CreatePendingTransaction E s req)"
| "run_op E s (OpPostPending t i actor) = discard (PostPendingTransaction E s t i actor)"
| "run_op E s (OpFailPending t i actor) = discard (FailPendingTransaction E s t i actor)"
| "run_op E s (OpGetTransaction t i) = discard (GetTransaction E t i)"
| "run_op E s (OpGetAccount t i) = discard (GetAccount E t i)"

primrec run_ops :: "env \<Rightarrow> Service \<Rightarrow> ledger_op list \<Rightarrow> world \<Rightarrow> world" where
  "run_ops E s [] w = w"
| "run_ops E s (x # xs) w = run_ops E s xs (snd (run_op E s x w))"

primrec op_tenant :: "ledger_op \<Rightarrow> uuid" where
  "op_tenant (OpCreateAccount t name actor) = t"
| "op_tenant (OpExecuteTransfer req) = tr_TenantID req"
| "op_tenant (OpCreatePending req) = tr_TenantID req"
| "op_tenant (OpPostPending t i actor) = t"
| "op_tenant (OpFailPending t i actor) = t"
| "op_tenant (OpGetTransaction t i) = t"
| "op_tenant (OpGetAccount t i) = t"

lemma domain_eqD:
  assumes "domain d = domain d'"
  shows "accounts d = accounts d'" "transactions d = transactions d'" "entries d = entries d'" "tenants d = tenants d'"
  using domain_proj [of d] domain_proj [of d'] unfolding assms by simp_all

lemma snd_discard: "snd (discard m w) = snd (m w)"
  by (simp add: discard_def bindC_def ok_def split: prod.splits sum.splits)

lemma keeps_pg_select_db: "keeps db (pg_select E f)"
  by (rule keeps_pg_select [of "\<lambda>d. d"])

lemma keeps_reads: "keeps db (GetTransaction E t i)" "keeps db (GetAccount E t i)"
  by (auto simp: GetTransaction_def GetTransaction_repo_def GetAccount_def GetAccount_repo_def
      intro!: keeps_bindC keeps_wrapE keeps_ok keeps_pg_select_db)

text \<open>The outcome of an operation that runs in a transaction: nothing, or its whole effect.\<close>

definition outcome_of :: "string \<Rightarrow> (error + 'a) \<Rightarrow> tables \<Rightarrow> tables \<Rightarrow> ('a \<Rightarrow> bool) \<Rightarrow> bool" where
  "outcome_of msg r d d' effect \<longleftrightarrow>
     (\<exists>err. r = Inl err \<and> d' = d) \<or>
     (\<exists>a. (r = Inr a \<or> r = Inl (Errorf msg (Pg Unavailable) '''')) \<and> effect a)"

lemma in_tx_outcome_of:
  assumes "in_tx E bE (\<lambda>e. Errorf msg e '''') body w = (r, w')"
    and "\<And>w0 a w1. body w0 = (Inr a, w1) \<Longrightarrow> db w0 = db w \<Longrightarrow> db w1 = db w' \<Longrightarrow> effect a"
  shows "outcome_of msg r (db w) (db w') effect"
  using assms(1)
proof (cases rule: in_tx_cases)
  case nothing
  then show ?thesis by (auto simp: outcome_of_def)
next
  case (all a w1)
  then have "effect a" using assms(2) [OF all(1)] by simp
  with all(3) show ?thesis by (auto simp: outcome_of_def)
qed

context ledger_service
begin

lemma ExecuteTransfer_outcome:
  assumes "ExecuteTransfer E s req w = (r, w')"
  shows "outcome_of ''ledger: commit transfer: '' r (db w) (db w') (\<lambda>(txn, rows).
    inserted (tr_TenantID req) TxnPosted (tr_Entries req) txn rows (db w) (db w') \<and>
    funded (tr_TenantID req) (tr_Entries req) (db w) \<and>
    emitted s (tr_TenantID req) EventTransactionPosted (stored (transactionEventJSON E txn)) (db w) (db w') \<and>
    recorded s (tr_TenantID req) (tr_ActorID req) AuditTransactionTransferred
      (stored (json_Marshal (transferAuditPayload E txn (tr_Entries req)))) (db w) (db w'))"
proof (cases "validateEntries (tr_Entries req)")
  case None
  with assms show ?thesis
    unfolding ExecuteTransfer_def
    by (simp, elim in_tx_outcome_of) (auto dest!: transfer_tx_InrD [OF _ None])
next
  case (Some err)
  with assms show ?thesis by (auto simp: ExecuteTransfer_def outcome_of_def raise_def)
qed

lemma CreatePending_outcome:
  assumes "CreatePendingTransaction E s req w = (r, w')"
  shows "outcome_of ''ledger: commit pending transaction: '' r (db w) (db w') (\<lambda>(txn, rows).
    inserted (tr_TenantID req) TxnPending (tr_Entries req) txn rows (db w) (db w') \<and>
    emitted s (tr_TenantID req) EventTransactionPending (stored (transactionEventJSON E txn)) (db w) (db w') \<and>
    recorded s (tr_TenantID req) (tr_ActorID req) AuditTransactionPendingCreated
      (stored (json_Marshal (transferAuditPayload E txn (tr_Entries req)))) (db w) (db w'))"
proof (cases "validateEntries (tr_Entries req)")
  case None
  with assms show ?thesis
    unfolding CreatePendingTransaction_def
    by (simp, elim in_tx_outcome_of) (auto dest!: pending_tx_InrD [OF _ None])
next
  case (Some err)
  with assms show ?thesis by (auto simp: CreatePendingTransaction_def outcome_of_def raise_def)
qed

lemma PostPending_outcome:
  assumes "PostPendingTransaction E s t i actor w = (r, w')"
  shows "outcome_of ''ledger: commit post: '' r (db w) (db w') (\<lambda>txn.
    moved t i TxnPosted (db w) (db w') \<and>
    funded t (map entry_input (select_entries t i (db w))) (db w) \<and>
    (\<exists>old. find_transaction t i (db w) = Inr old \<and> txn_Status old = TxnPending \<and> txn = old\<lparr>txn_Status := TxnPosted\<rparr>) \<and>
    emitted s t EventTransactionPosted (stored (transactionEventJSON E txn)) (db w) (db w') \<and>
    recorded s t actor AuditTransactionPosted
      (stored (json_Marshal (statusChangeAuditPayload E txn))) (db w) (db w'))"
  using assms unfolding PostPendingTransaction_def
  by (elim in_tx_outcome_of) (drule post_tx_InrD, simp)

lemma FailPending_outcome:
  assumes "FailPendingTransaction E s t i actor w = (r, w')"
  shows "outcome_of ''ledger: commit fail: '' r (db w) (db w') (\<lambda>txn.
    moved t i TxnFailed (db w) (db w') \<and>
    (\<exists>old. find_transaction t i (db w) = Inr old \<and> txn_Status old = TxnPending \<and> txn = old\<lparr>txn_Status := TxnFailed\<rparr>) \<and>
    emitted s t EventTransactionFailed (stored (transactionEventJSON E txn)) (db w) (db w') \<and>
    recorded s t actor AuditTransactionFailed
      (stored (json_Marshal (statusChangeAuditPayload E txn))) (db w) (db w'))"
  using assms unfolding FailPendingTransaction_def
  by (elim in_tx_outcome_of) (drule fail_tx_InrD, simp)

lemma CreateAccount_outcome:
  assumes "CreateAccount E s t name actor w = (r, w')"
  shows "outcome_of ''ledger: commit create account: '' r (db w) (db w') (\<lambda>a.
    \<exists>row. domain (db w') = domain ((db w)\<lparr>accounts := accounts (db w) @ [row]\<rparr>) \<and>
    a = with_balance row 0 \<and> acct_TenantID row = t \<and> acct_Name row = name \<and>
    acct_ID row \<notin> acct_ID ` set (accounts (db w)) \<and> tenant_exists (db w) t \<and>
    webhook_events (db w') = webhook_events (db w) \<and>
    recorded s t actor AuditAccountCreated (stored (json_Marshal
      (JMap [(''account_id'', JStr (uuid_String E (acct_ID a))), (''name'', JStr name)]))) (db w) (db w'))"
  using assms unfolding CreateAccount_def
  by (elim in_tx_outcome_of) (drule account_tx_InrD, simp)

lemma run_op_step: "ledger_step (op_tenant x) (db w) (db (snd (run_op E s x w)))"
proof (cases x)
  case (OpCreateAccount t name actor)
  obtain r w' where run: "CreateAccount E s t name actor w = (r, w')" by fastforce
  have "ledger_step (op_tenant x) (db w) (db w')"
  proof -
    consider "db w' = db w" | row where "domain (db w') = domain ((db w)\<lparr>accounts := accounts (db w) @ [row]\<rparr>)"
        "acct_ID row \<notin> acct_ID ` set (accounts (db w))" "acct_TenantID row = t"
      using CreateAccount_outcome [OF run] by (auto simp: outcome_of_def)
    then show ?thesis
    proof cases
      case (2 row)
      then show ?thesis
        using domain_eqD(1-3) [OF 2(1)] by (intro ledger_step.account [of _ _ row]) (simp_all add: OpCreateAccount)
    qed (simp add: ledger_step.other)
  qed
  with run OpCreateAccount show ?thesis by (simp add: snd_discard)
next
  case (OpExecuteTransfer req)
  obtain r w' where run: "ExecuteTransfer E s req w = (r, w')" by fastforce
  have "ledger_step (op_tenant x) (db w) (db w')"
    using ExecuteTransfer_outcome [OF run] by (auto simp: outcome_of_def OpExecuteTransfer intro: ledger_step.intros)
  with run OpExecuteTransfer show ?thesis by (simp add: snd_discard)
next
  case (OpCreatePending req)
  obtain r w' where run: "CreatePendingTransaction E s req w = (r, w')" by fastforce
  have "ledger_step (op_tenant x) (db w) (db w')"
    using CreatePending_outcome [OF run] by (auto simp: outcome_of_def OpCreatePending intro: ledger_step.intros)
  with run OpCreatePending show ?thesis by (simp add: snd_discard)
next
  case (OpPostPending t i actor)
  obtain r w' where run: "PostPendingTransaction E s t i actor w = (r, w')" by fastforce
  have "ledger_step (op_tenant x) (db w) (db w')"
    using PostPending_outcome [OF run] by (auto simp: outcome_of_def OpPostPending intro: ledger_step.intros)
  with run OpPostPending show ?thesis by (simp add: snd_discard)
next
  case (OpFailPending t i actor)
  obtain r w' where run: "FailPendingTransaction E s t i actor w = (r, w')" by fastforce
  have "ledger_step (op_tenant x) (db w) (db w')"
    using FailPending_outcome [OF run] by (auto simp: outcome_of_def OpFailPending intro: ledger_step.intros)
  with run OpFailPending show ?thesis by (simp add: snd_discard)
next
  case (OpGetTransaction t i)
  then show ?thesis using keeps_reads(1) by (simp add: snd_discard keeps_def ledger_step.other)
next
  case (OpGetAccount t i)
  then show ?thesis using keeps_reads(2) by (simp add: snd_discard keeps_def ledger_step.other)
qed

lemma run_ops_steps: "ledger_steps (db w) (db (run_ops E s xs w))"
proof (induction xs arbitrary: w)
  case (Cons x xs)
  have "\<exists>t. ledger_step t (db w) (db (snd (run_op E s x w)))" using run_op_step by blast
  then show ?case using Cons.IH by (simp add: converse_rtranclp_into_rtranclp)
qed simp

end

section \<open>History\<close>

definition txn_advances :: "Transaction \<Rightarrow> Transaction \<Rightarrow> bool" where
  "txn_advances x y \<longleftrightarrow> y = x \<or> (txn_Status x = TxnPending \<and>
     (y = x\<lparr>txn_Status := TxnPosted\<rparr> \<or> y = x\<lparr>txn_Status := TxnFailed\<rparr>))"

definition history_kept :: "tables \<Rightarrow> tables \<Rightarrow> bool" where
  "history_kept d d' \<longleftrightarrow>
     take (length (accounts d)) (accounts d') = accounts d \<and>
     take (length (entries d)) (entries d') = entries d \<and>
     list_all2 txn_advances (transactions d) (take (length (transactions d)) (transactions d'))"

lemma txn_advances_trans: "txn_advances x y \<Longrightarrow> txn_advances y z \<Longrightarrow> txn_advances x z"
  by (auto simp: txn_advances_def)

lemma txn_advances_refl [simp]: "txn_advances x x"
  by (simp add: txn_advances_def)

lemma history_kept_refl [simp]: "history_kept d d"
  by (simp add: history_kept_def list_all2_refl)

lemma take_take_prefix: "take (length xs) ys = xs \<Longrightarrow> take (length ys) zs = ys \<Longrightarrow> take (length xs) zs = xs"
  by (metis min.absorb1 nat_le_linear take_all take_take)

lemma history_kept_trans:
  assumes "history_kept d1 d2" and "history_kept d2 d3"
  shows "history_kept d1 d3"
  unfolding history_kept_def
proof (intro conjI)
  show "take (length (accounts d1)) (accounts d3) = accounts d1" "take (length (entries d1)) (entries d3) = entries d1"
    using assms take_take_prefix unfolding history_kept_def by metis+
  let ?n = "length (transactions d1)" and ?m = "length (transactions d2)"
  have a: "list_all2 txn_advances (transactions d1) (take ?n (transactions d2))"
    and b: "list_all2 txn_advances (transactions d2) (take ?m (transactions d3))"
    using assms by (simp_all add: history_kept_def)
  have le: "?n \<le> ?m" using list_all2_lengthD [OF a] by simp
  have "list_all2 txn_advances (take ?n (transactions d2)) (take ?n (take ?m (transactions d3)))"
    using list_all2_takeI [OF b] .
  then have "list_all2 txn_advances (take ?n (transactions d2)) (take ?n (transactions d3))"
    using le by (simp add: min_absorb1)
  with a show "list_all2 txn_advances (transactions d1) (take ?n (transactions d3))"
    using list_all2_trans [of txn_advances txn_advances txn_advances] txn_advances_trans by blast
qed

lemma ledger_step_history:
  assumes "ledger_step t d d'"
  shows "history_kept d d'"
  using assms
proof cases
  case (transfer es txn rows)
  then show ?thesis by (simp add: history_kept_def inserted_tables list_all2_refl)
next
  case (pending es txn rows)
  then show ?thesis by (simp add: history_kept_def inserted_tables list_all2_refl)
next
  case (post i)
  then show ?thesis
    by (auto simp: history_kept_def moved_tables list_all2_conv_all_nth txn_advances_def guard_matches_def)
next
  case (fail i)
  then show ?thesis
    by (auto simp: history_kept_def moved_tables list_all2_conv_all_nth txn_advances_def guard_matches_def)
qed (simp_all add: history_kept_def list_all2_refl)

lemma ledger_steps_history: "ledger_steps d d' \<Longrightarrow> history_kept d d'"
  by (induction rule: rtranclp_induct) (auto intro: history_kept_trans dest: ledger_step_history)

section \<open>Isolation\<close>

text \<open>Everything a tenant owns in the ledger, the outbox and the audit trail.\<close>

definition tenant_rows_of :: "uuid \<Rightarrow> tables \<Rightarrow> account_row list \<times> Transaction list \<times> Entry list \<times> Job list \<times> AuditEntry list" where
  "tenant_rows_of t d =
     (filter (\<lambda>a. acct_TenantID a = t) (accounts d), filter (\<lambda>x. txn_TenantID x = t) (transactions d),
      filter (\<lambda>e. ent_TenantID e = t) (entries d), filter (\<lambda>j. job_TenantID j = t) (webhook_events d),
      filter (\<lambda>a. aud_TenantID a = t) (audit_log d))"

lemma filter_map_other:
  "(\<And>x. P x \<Longrightarrow> f x = x) \<Longrightarrow> (\<And>x. P (f x) \<longleftrightarrow> P x) \<Longrightarrow> filter P (map f xs) = filter P xs"
  by (induction xs) auto

lemma ledger_step_other_rows:
  assumes "ledger_step t' d d'" and "t' \<noteq> t"
  shows "filter (\<lambda>a. acct_TenantID a = t) (accounts d') = filter (\<lambda>a. acct_TenantID a = t) (accounts d) \<and>
    filter (\<lambda>x. txn_TenantID x = t) (transactions d') = filter (\<lambda>x. txn_TenantID x = t) (transactions d) \<and>
    filter (\<lambda>e. ent_TenantID e = t) (entries d') = filter (\<lambda>e. ent_TenantID e = t) (entries d)"
proof -
  have ins: ?thesis if "inserted t' st es txn rows d d'" for st es txn rows
  proof -
    have "\<forall>e \<in> set rows. ent_TenantID e = t'" "txn_TenantID txn = t'" using that by (simp_all add: inserted_def rows_for_def)
    then show ?thesis using assms(2) by (auto simp: inserted_tables [OF that] filter_empty_conv)
  qed
  have mov: ?thesis if "moved t' i st d d'" for i st
    using assms(2) unfolding moved_tables [OF that]
    by (auto intro!: filter_map_other simp: guard_matches_def)
  from assms(1) show ?thesis
    by cases (use ins mov assms(2) in simp_all)
qed

lemma ledger_step_other_balance:
  assumes "ledger_step t' d d'" and "t' \<noteq> t" and "ledger_wf d" and "a \<in> set (accounts d)" and "acct_TenantID a = t"
  shows "posted_balance d' (acct_ID a) = posted_balance d (acct_ID a)"
proof -
  have wf': "ledger_wf d'" using ledger_step_wf assms(1,3) by blast
  have zero: "change es (acct_ID a) = 0" if fund: "funded t' es d" for es
  proof (rule change_absent, rule notI)
    assume "acct_ID a \<in> ei_AccountID ` set es"
    then obtain b where "b \<in> set (accounts d)" "acct_ID b = acct_ID a" "acct_TenantID b = t'"
      using fund unfolding funded_def by blast
    with ledger_wfD(2) [OF assms(3)] assms(2,4,5) show False by (auto simp: distinct_map inj_on_def)
  qed
  note bal = posted_balance_frame [OF assms(3) wf'] posted_balance_inserted [OF _ assms(3) wf'] posted_balance_moved [OF _ assms(3) wf']
  from assms(1) show ?thesis by cases (simp_all add: bal zero)
qed

definition side_rows :: "uuid \<Rightarrow> tables \<Rightarrow> tables \<Rightarrow> bool" where
  "side_rows t d d' \<longleftrightarrow> (\<exists>js as. webhook_events d' = webhook_events d @ js \<and> audit_log d' = audit_log d @ as \<and>
     (\<forall>j \<in> set js. job_TenantID j = t) \<and> (\<forall>a \<in> set as. aud_TenantID a = t))"

lemma side_rows_same: "side_rows t d d"
  by (simp add: side_rows_def)

lemma side_rows_reported:
  assumes "emitted s t ty p d d'" and "recorded s t actor act q d d'"
  shows "side_rows t d d'"
proof -
  obtain js where js: "webhook_events d' = webhook_events d @ js" "\<forall>j \<in> set js. job_TenantID j = t"
    using assms(1) that [of "[]"] by (auto simp: emitted_def one_event_def event_for_def split: option.splits)
  obtain as where as: "audit_log d' = audit_log d @ as" "\<forall>a \<in> set as. aud_TenantID a = t"
    using assms(2) that [of "[]"] by (auto simp: recorded_def one_audit_def audit_for_def split: option.splits)
  from js as show ?thesis unfolding side_rows_def by blast
qed

lemma side_rows_audited:
  assumes "webhook_events d' = webhook_events d" and "recorded s t actor act q d d'"
  shows "side_rows t d d'"
  using assms side_rows_reported [of "\<lparr>svc_events = None, svc_audit = svc_audit s\<rparr>" t]
  by (simp add: emitted_def recorded_def)

lemma outcome_side_rows:
  assumes "outcome_of msg r d d' eff" and "\<And>a. eff a \<Longrightarrow> side_rows t d d'"
  shows "side_rows t d d'"
  using assms side_rows_same by (auto simp: outcome_of_def)

context ledger_service
begin

lemma run_op_side_rows: "side_rows (op_tenant x) (db w) (db (snd (run_op E s x w)))"
proof (cases x)
  case (OpCreateAccount t name actor)
  obtain r w' where run: "CreateAccount E s t name actor w = (r, w')" by fastforce
  from CreateAccount_outcome [OF run] have "side_rows t (db w) (db w')"
    by (rule outcome_side_rows) (auto intro: side_rows_audited)
  with run OpCreateAccount show ?thesis by (simp add: snd_discard)
next
  case (OpExecuteTransfer req)
  obtain r w' where run: "ExecuteTransfer E s req w = (r, w')" by fastforce
  from ExecuteTransfer_outcome [OF run] have "side_rows (tr_TenantID req) (db w) (db w')"
    by (rule outcome_side_rows) (auto intro: side_rows_reported)
  with run OpExecuteTransfer show ?thesis by (simp add: snd_discard)
next
  case (OpCreatePending req)
  obtain r w' where run: "CreatePendingTransaction E s req w = (r, w')" by fastforce
  from CreatePending_outcome [OF run] have "side_rows (tr_TenantID req) (db w) (db w')"
    by (rule outcome_side_rows) (auto intro: side_rows_reported)
  with run OpCreatePending show ?thesis by (simp add: snd_discard)
next
  case (OpPostPending t i actor)
  obtain r w' where run: "PostPendingTransaction E s t i actor w = (r, w')" by fastforce
  from PostPending_outcome [OF run] have "side_rows t (db w) (db w')"
    by (rule outcome_side_rows) (auto intro: side_rows_reported)
  with run OpPostPending show ?thesis by (simp add: snd_discard)
next
  case (OpFailPending t i actor)
  obtain r w' where run: "FailPendingTransaction E s t i actor w = (r, w')" by fastforce
  from FailPending_outcome [OF run] have "side_rows t (db w) (db w')"
    by (rule outcome_side_rows) (auto intro: side_rows_reported)
  with run OpFailPending show ?thesis by (simp add: snd_discard)
next
  case (OpGetTransaction t i)
  then show ?thesis using keeps_reads(1) by (simp add: snd_discard keeps_def side_rows_same)
next
  case (OpGetAccount t i)
  then show ?thesis using keeps_reads(2) by (simp add: snd_discard keeps_def side_rows_same)
qed

lemma run_op_isolated:
  assumes "op_tenant x \<noteq> t"
  shows "tenant_rows_of t (db (snd (run_op E s x w))) = tenant_rows_of t (db w)"
proof -
  obtain js as where "webhook_events (db (snd (run_op E s x w))) = webhook_events (db w) @ js"
    "audit_log (db (snd (run_op E s x w))) = audit_log (db w) @ as"
    "\<forall>j \<in> set js. job_TenantID j = op_tenant x" "\<forall>a \<in> set as. aud_TenantID a = op_tenant x"
    using run_op_side_rows [of x w E] unfolding side_rows_def by blast
  with ledger_step_other_rows [OF run_op_step assms] assms show ?thesis
    by (auto simp: tenant_rows_of_def filter_empty_conv)
qed

end

section \<open>Properties of single calls\<close>

text \<open>
  C6. \<open>ExecuteTransfer\<close> is all or nothing, whatever call fails: either the caller gets an error and
  the database is unchanged, or exactly one posted transaction with the requested entries exists in
  addition, written together with one outbox event and one audit row that describe it, and only
  because every account is the tenant's and none is overdrawn; the caller then gets the transaction,
  or the error of a commit whose answer was lost.
\<close>

theorem ExecuteTransfer_all_or_nothing:
  "case ExecuteTransfer E (ledgerSvc E repo) req w of (r, w') \<Rightarrow>
     outcome_of ''ledger: commit transfer: '' r (db w) (db w') (\<lambda>(txn, rows).
       inserted (tr_TenantID req) TxnPosted (tr_Entries req) txn rows (db w) (db w') \<and>
       funded (tr_TenantID req) (tr_Entries req) (db w) \<and>
       one_event (tr_TenantID req) EventTransactionPosted
         (pg_jsonb E (transactionEventJSON E txn)) (db w) (db w') \<and>
       one_audit (tr_TenantID req) (tr_ActorID req) AuditTransactionTransferred
         (pg_jsonb E (json_Marshal (transferAuditPayload E txn (tr_Entries req)))) (db w) (db w'))"
proof -
  obtain r w' where run: "ExecuteTransfer E (ledgerSvc E repo) req w = (r, w')" by fastforce
  from prod.ExecuteTransfer_outcome [OF run] show ?thesis
    by (simp add: run emitted_def recorded_def)
qed

text \<open>
  \<open>PostPendingTransaction\<close> is all or nothing: either an error and an unchanged database, or the
  tenant's pending transaction of that identifier, and nothing else, is now posted, with its event and
  its audit row, and only because its accounts are the tenant's and none is overdrawn by it.
\<close>

theorem PostPendingTransaction_all_or_nothing:
  "case PostPendingTransaction E (ledgerSvc E repo) t i actor w of (r, w') \<Rightarrow>
     outcome_of ''ledger: commit post: '' r (db w) (db w') (\<lambda>txn.
       moved t i TxnPosted (db w) (db w') \<and>
       funded t (map entry_input (select_entries t i (db w))) (db w) \<and>
       (\<exists>old. find_transaction t i (db w) = Inr old \<and> txn_Status old = TxnPending \<and>
          txn = old\<lparr>txn_Status := TxnPosted\<rparr>) \<and>
       one_event t EventTransactionPosted (pg_jsonb E (transactionEventJSON E txn)) (db w) (db w') \<and>
       one_audit t actor AuditTransactionPosted
         (pg_jsonb E (json_Marshal (statusChangeAuditPayload E txn))) (db w) (db w'))"
proof -
  obtain r w' where run: "PostPendingTransaction E (ledgerSvc E repo) t i actor w = (r, w')" by fastforce
  from prod.PostPending_outcome [OF run] show ?thesis
    by (simp add: run emitted_def recorded_def)
qed

text \<open>
  \<open>CreatePendingTransaction\<close> is all or nothing: an error and an unchanged database, or one
  pending transaction with the requested entries, one event and one audit row.
\<close>

theorem CreatePendingTransaction_all_or_nothing:
  "case CreatePendingTransaction E (ledgerSvc E repo) req w of (r, w') \<Rightarrow>
     outcome_of ''ledger: commit pending transaction: '' r (db w) (db w') (\<lambda>(txn, rows).
       inserted (tr_TenantID req) TxnPending (tr_Entries req) txn rows (db w) (db w') \<and>
       one_event (tr_TenantID req) EventTransactionPending
         (pg_jsonb E (transactionEventJSON E txn)) (db w) (db w') \<and>
       one_audit (tr_TenantID req) (tr_ActorID req) AuditTransactionPendingCreated
         (pg_jsonb E (json_Marshal (transferAuditPayload E txn (tr_Entries req)))) (db w) (db w'))"
proof -
  obtain r w' where run: "CreatePendingTransaction E (ledgerSvc E repo) req w = (r, w')" by fastforce
  from prod.CreatePending_outcome [OF run] show ?thesis
    by (simp add: run emitted_def recorded_def)
qed

text \<open>
  \<open>FailPendingTransaction\<close> is all or nothing: an error and an unchanged database, or the tenant's
  pending transaction of that identifier is now failed, with one event and one audit row.
\<close>

theorem FailPendingTransaction_all_or_nothing:
  "case FailPendingTransaction E (ledgerSvc E repo) t i actor w of (r, w') \<Rightarrow>
     outcome_of ''ledger: commit fail: '' r (db w) (db w') (\<lambda>txn.
       moved t i TxnFailed (db w) (db w') \<and>
       (\<exists>old. find_transaction t i (db w) = Inr old \<and> txn_Status old = TxnPending \<and>
          txn = old\<lparr>txn_Status := TxnFailed\<rparr>) \<and>
       one_event t EventTransactionFailed (pg_jsonb E (transactionEventJSON E txn)) (db w) (db w') \<and>
       one_audit t actor AuditTransactionFailed
         (pg_jsonb E (json_Marshal (statusChangeAuditPayload E txn))) (db w) (db w'))"
proof -
  obtain r w' where run: "FailPendingTransaction E (ledgerSvc E repo) t i actor w = (r, w')" by fastforce
  from prod.FailPending_outcome [OF run] show ?thesis
    by (simp add: run emitted_def recorded_def)
qed

section \<open>Properties of any sequence of calls\<close>

text \<open>
  C13. Refinement: one call of the service with any arguments, in any environment, changes the ledger's
  tables only as a step of the abstract ledger of the calling tenant.
\<close>

theorem service_refines_ledger:
  "ledger_step (op_tenant x) (db w) (db (snd (run_op E (ledgerSvc E repo) x w)))"
  by (rule prod.run_op_step)

text \<open>
  The ledger's tables stay well-formed under any sequence of calls with any failures.
\<close>

theorem ledger_stays_well_formed:
  assumes "ledger_wf (db w)"
  shows "ledger_wf (db (run_ops E (ledgerSvc E repo) xs w))"
  using ledger_steps_invariants(1) [OF prod.run_ops_steps assms] .

text \<open>
  C7. No balance ever goes below zero: from well-formed tables in which no balance is negative, any
  sequence of calls leads to tables in which none is, as long as the absolute amounts ever entered
  add up to less than \<open>2^63\<close>.
\<close>

theorem balances_never_negative:
  assumes "ledger_wf (db w)" and "solvent (db w)"
    and "volume (db (run_ops E (ledgerSvc E repo) xs w)) < 2 ^ 63"
  shows "0 \<le> posted_balance (db (run_ops E (ledgerSvc E repo) xs w)) i"
  using ledger_steps_invariants(3) [OF prod.run_ops_steps assms] by (simp add: solvent_def)

text \<open>
  C8. Money is conserved: what a tenant's accounts hold together is the same after any sequence of
  calls, modulo \<open>2^64\<close> always and exactly while the absolute amounts add up to less than \<open>2^63\<close>.
\<close>

theorem money_is_conserved:
  assumes "ledger_wf (db w)"
  shows "tenant_total (db (run_ops E (ledgerSvc E repo) xs w)) t mod 2 ^ 64 = tenant_total (db w) t mod 2 ^ 64 \<and>
    (volume (db (run_ops E (ledgerSvc E repo) xs w)) < 2 ^ 63 \<longrightarrow>
     tenant_total (db (run_ops E (ledgerSvc E repo) xs w)) t = tenant_total (db w) t)"
  using ledger_steps_invariants(4,5) [OF prod.run_ops_steps assms] by (intro conjI impI)

text \<open>
  C14. History is append-only: after any sequence of calls every account and every entry is still
  there unchanged, and every transaction is unchanged but for a pending one having become posted or
  failed; a posted or failed one never changes again.
\<close>

theorem history_is_append_only: "history_kept (db w) (db (run_ops E (ledgerSvc E repo) xs w))"
  using ledger_steps_history [OF prod.run_ops_steps] .

text \<open>
  C15. Tenant isolation: a call made for one tenant leaves every account, transaction, entry, event and
  audit row of another tenant, and the balance of each of its accounts, as they were.
\<close>

theorem other_tenants_untouched:
  assumes "op_tenant x \<noteq> t" and "ledger_wf (db w)" and "a \<in> set (accounts (db w))" and "acct_TenantID a = t"
  shows "tenant_rows_of t (db (snd (run_op E (ledgerSvc E repo) x w))) = tenant_rows_of t (db w) \<and>
    posted_balance (db (snd (run_op E (ledgerSvc E repo) x w))) (acct_ID a) = posted_balance (db w) (acct_ID a)"
  using prod.run_op_isolated [OF assms(1)] ledger_step_other_balance [OF prod.run_op_step assms(1-4)] by blast

end
