(* ===== verification/Ledger_Decisions.thy ===== *)
theory Ledger_Decisions
  imports Ledger
begin

text \<open>
  What a call of the ledger service returns when every call to the database is answered: each error
  exactly in the cases the code names it for, success in all others. An insert draws its identifier
  from the database; \<open>ready\<close> says that the draws of the call do not collide.
\<close>

section \<open>Fresh identifiers\<close>

definition all_ids :: "tables \<Rightarrow> uuid set" where
  "all_ids d = acct_ID ` set (accounts d) \<union> txn_ID ` set (transactions d) \<union> ent_ID ` set (entries d) \<union>
     job_ID ` set (webhook_events d) \<union> aud_ID ` set (audit_log d)"

text \<open>The identifiers drawn from now until interaction \<open>N\<close> are new and differ from each other.\<close>

definition fresh_ids :: "env \<Rightarrow> nat \<Rightarrow> world \<Rightarrow> bool" where
  "fresh_ids E N w \<longleftrightarrow> inj_on (gen_random_uuid E) {tick w..<N} \<and>
     (\<forall>n \<in> {tick w..<N}. gen_random_uuid E n \<notin> all_ids (db w))"

lemma fresh_ids_mono:
  assumes "fresh_ids E N w" and "tick w < tick w'"
    and "all_ids (db w') \<subseteq> insert (gen_random_uuid E (tick w)) (all_ids (db w))"
  shows "fresh_ids E N w'"
  unfolding fresh_ids_def
proof (intro conjI ballI)
  have inj: "inj_on (gen_random_uuid E) {tick w..<N}" using assms(1) by (simp add: fresh_ids_def)
  then show "inj_on (gen_random_uuid E) {tick w'..<N}" by (rule inj_on_subset) (use assms(2) in auto)
  fix n
  assume n: "n \<in> {tick w'..<N}"
  then have "n \<in> {tick w..<N}" "tick w \<in> {tick w..<N}" "n \<noteq> tick w" using assms(2) by auto
  then have "gen_random_uuid E n \<noteq> gen_random_uuid E (tick w)" "gen_random_uuid E n \<notin> all_ids (db w)"
    using inj assms(1) by (auto simp: inj_on_eq_iff fresh_ids_def)
  then show "gen_random_uuid E n \<notin> all_ids (db w')" using assms(3) by blast
qed

lemma fresh_now: "fresh_ids E N w \<Longrightarrow> tick w < N \<Longrightarrow> gen_random_uuid E (tick w) \<notin> all_ids (db w)"
  by (simp add: fresh_ids_def)

section \<open>Locking and checking\<close>

definition owned :: "tables \<Rightarrow> uuid \<Rightarrow> uuid \<Rightarrow> bool" where
  "owned d t i \<longleftrightarrow> (\<exists>a \<in> set (accounts d). acct_ID a = i \<and> acct_TenantID a = t)"

definition refusal :: "tables \<Rightarrow> uuid \<Rightarrow> EntryInput list \<Rightarrow> error \<Rightarrow> bool" where
  "refusal d t es err \<longleftrightarrow>
     (if \<not> (\<forall>e \<in> set es. owned d t (ei_AccountID e)) then errors_Is err ErrAccountNotFound
      else if \<not> (\<forall>e \<in> set es. fits64 (posted_balance d (ei_AccountID e))) then errors_Is err (Pg ScanRange)
      else errors_Is err ErrInsufficientFunds \<and> \<not> funded t es d)"

lemma locked_all_iff:
  "find (\<lambda>i. map_of (fold (\<lambda>a. AList.update (acct_ID a) (with_balance a 0)) (lock_accounts t ids d) []) i = None) ids = None
     \<longleftrightarrow> (\<forall>i \<in> set ids. owned d t i)"
  unfolding find_None_iff map_of_locked owned_def by (auto simp: lock_accounts_def)

lemma sum_balances_InlD: "sum_balances ids d = Inl e \<Longrightarrow> e = ScanRange \<and> \<not> (\<forall>i \<in> set ids. fits64 (posted_balance d i))"
  by (auto simp: sum_balances_def Let_def list_all_iff split: if_splits)

lemma wp_LockAccounts_calm:
  assumes "calm E"
  shows "wp (LockAccountsForUpdate E t ids)
    (\<lambda>accs w'. db w' = db w \<and> tick w \<le> tick w' \<and> tick w' \<le> tick w + 2)
    (\<lambda>err w'. if \<forall>i \<in> set ids. owned (db w) t i
       then errors_Is err (Pg ScanRange) \<and> \<not> (\<forall>i \<in> set ids. fits64 (posted_balance (db w) i))
       else errors_Is err ErrAccountNotFound) w"
proof (cases "ids = []")
  case True
  then show ?thesis by (simp add: LockAccountsForUpdate_def wp_simps)
next
  case False
  let ?ids = "sort_key (uuid_String E) ids"
  have own: "(\<forall>i \<in> set ?ids. owned (db w) t i) \<longleftrightarrow> (\<forall>i \<in> set ids. owned (db w) t i)" by simp
  show ?thesis
    using False locked_all_iff [of t ?ids "db w"] sum_balances_InlD [of ?ids "db w"]
    by (auto simp: LockAccountsForUpdate_def Let_def wp_simps wp_pg_select_calm [OF assms] own
        split: option.splits sum.splits)
qed

lemma distinct_set_balance: "distinct (map fst out) \<Longrightarrow> distinct (map fst (set_balance r out))"
  by (auto simp: set_balance_def distinct_update split: prod.splits option.splits)

lemma distinct_LockAccounts:
  assumes "LockAccountsForUpdate E t ids w = (Inr out, w')"
  shows "distinct (map fst out)"
proof -
  have 1: "distinct (map fst (fold (\<lambda>a. AList.update (acct_ID a) (with_balance a 0)) rows m))"
    if "distinct (map fst m)" for rows and m :: "(uuid \<times> Account) list"
    using that by (induction rows arbitrary: m) (simp_all add: distinct_update)
  have 2: "distinct (map fst (fold set_balance brows m))" if "distinct (map fst m)" for brows m
    using that by (induction brows arbitrary: m) (simp_all add: distinct_set_balance)
  show ?thesis
    using assms 1 2
    by (auto simp: LockAccountsForUpdate_def Let_def split: if_splits option.splits
        elim!: bindC_InrE dest!: comp_InrD)
qed

lemma distinct_project: "distinct (map fst accs) \<Longrightarrow> distinct (map fst (project accs es))"
proof -
  have "distinct (map fst (fold add_entry es m))" if "distinct (map fst m)" for m
    using that by (induction es arbitrary: m) (simp_all add: add_entry_def distinct_update)
  moreover assume "distinct (map fst accs)"
  ultimately show ?thesis by (simp add: project_def comp_def case_prod_unfold)
qed

lemma check_funds_Inl:
  "\<exists>(i, b) \<in> set m. sint b < 0 \<Longrightarrow> \<exists>err. check_funds E m w = (Inl err, step w) \<and> errors_Is err ErrInsufficientFunds"
  by (auto simp: check_funds_def Let_def filter_empty_conv)

lemma wp_lock_and_check:
  assumes "calm E" and "set ids = ei_AccountID ` set es"
  shows "wp (bindC (LockAccountsForUpdate E t ids) (\<lambda>accs. check_funds E (project accs es)))
    (\<lambda>_ w'. funded t es (db w) \<and> db w' = db w \<and> tick w < tick w' \<and> tick w' \<le> tick w + 3) (\<lambda>err _. refusal (db w) t es err) w"
proof -
  obtain r w1 where lock: "LockAccountsForUpdate E t ids w = (r, w1)" by fastforce
  note calm = wp_LockAccounts_calm [OF assms(1), of t ids w]
  show ?thesis
  proof (cases r)
    case (Inl err)
    with lock calm assms(2) show ?thesis
      by (auto simp: wp_def bindC_def refusal_def split: if_splits)
  next
    case (Inr accs)
    then have lk: "LockAccountsForUpdate E t ids w = (Inr accs, w1)" using lock by simp
    note ld = LockAccountsForUpdate_InrD [OF lk]
    have w1: "db w1 = db w" "tick w \<le> tick w1" "tick w1 \<le> tick w + 2" using calm lk by (simp_all add: wp_def)
    have own: "\<forall>e \<in> set es. owned (db w) t (ei_AccountID e)" "\<forall>e \<in> set es. fits64 (posted_balance (db w) (ei_AccountID e))"
      using ld(3,4) assms(2) by (auto simp: owned_def)
    show ?thesis
    proof (cases "\<exists>(i, b) \<in> set (project accs es). sint b < 0")
      case False
      then have chk: "check_funds E (project accs es) w1 = (Inr (), step w1)"
        by (auto simp: check_funds_def Let_def filter_empty_conv)
      with lk w1 check_project_funded [OF lk assms(2) chk] show ?thesis
        by (simp add: wp_def bindC_def)
    next
      case True
      then obtain i b where ib: "(i, b) \<in> set (project accs es)" "sint b < 0" by auto
      then have mo: "map_of (project accs es) i = Some b"
        using distinct_project [OF distinct_LockAccounts [OF lk]] by simp
      have i: "i \<in> ei_AccountID ` set es"
      proof (rule ccontr)
        assume "i \<notin> ei_AccountID ` set es"
        with ld(6) [of i] assms(2) mo show False by (simp add: project_def map_of_fold_add_entry map_of_map)
      qed
      with ld(5) [of i] assms(2) obtain a where "map_of accs i = Some a" "acct_Balance a = word_of_int (posted_balance (db w) i)" by auto
      with map_of_project [OF i] mo ib(2) i have "\<not> funded t es (db w)" by (force simp: funded_def)
      moreover obtain err where "check_funds E (project accs es) w1 = (Inl err, step w1)" "errors_Is err ErrInsufficientFunds"
        using check_funds_Inl [OF True] by blast
      ultimately show ?thesis using lk own by (simp add: wp_def bindC_def refusal_def)
    qed
  qed
qed

section \<open>Writing\<close>

text \<open>\<open>ready E N t w\<close>: the tenant exists and the identifiers drawn until interaction \<open>N\<close> are new.\<close>

definition ready :: "env \<Rightarrow> nat \<Rightarrow> uuid \<Rightarrow> world \<Rightarrow> bool" where
  "ready E N t w \<longleftrightarrow> fresh_ids E N w \<and> tenant_exists (db w) t"

lemma ready_step:
  assumes "ready E N t w" and "tick w < tick w'" and "tenants (db w') = tenants (db w)"
    and "all_ids (db w') \<subseteq> insert (gen_random_uuid E (tick w)) (all_ids (db w))"
  shows "ready E N t w'"
  using assms fresh_ids_mono [of E N w w'] by (simp add: ready_def tenant_exists_def)

lemma ready_fresh:
  assumes "ready E N t w" and "tick w < N"
  shows "gen_random_uuid E (tick w) \<notin> acct_ID ` set (accounts (db w))"
    "gen_random_uuid E (tick w) \<notin> txn_ID ` set (transactions (db w))"
    "gen_random_uuid E (tick w) \<notin> ent_ID ` set (entries (db w))"
    "gen_random_uuid E (tick w) \<notin> job_ID ` set (webhook_events (db w))"
    "gen_random_uuid E (tick w) \<notin> aud_ID ` set (audit_log (db w))"
    "tenant_exists (db w) t"
  using assms fresh_now [of E N w] by (simp_all add: ready_def all_ids_def)

lemma InsertEntry_calm:
  assumes "calm E" and "ready E N t w" and "tick w < N" and "ei_AmountMinor e \<noteq> 0" and "i \<in> txn_ID ` set (transactions (db w))"
    and "ei_AccountID e \<in> acct_ID ` set (accounts (db w))"
  shows "\<exists>row w'. InsertEntry E t i e w = (Inr row, w') \<and> ready E N t w' \<and>
    transactions (db w') = transactions (db w) \<and> accounts (db w') = accounts (db w) \<and> tick w' = Suc (tick w)"
proof -
  let ?uid = "gen_random_uuid E (tick w)"
  let ?row = "\<lparr>ent_ID = ?uid, ent_TenantID = t, ent_TransactionID = i, ent_AccountID = ei_AccountID e,
    ent_AmountMinor = ei_AmountMinor e, ent_CreatedAt = sql_now E w\<rparr>"
  let ?w = "(step w)\<lparr>db := (db w)\<lparr>entries := entries (db w) @ [?row]\<rparr>\<rparr>"
  have "InsertEntry E t i e w = (Inr ?row, ?w)"
    using assms(1,4-6) ready_fresh [OF assms(2,3)]
    by (simp add: InsertEntry_def bindC_def wrapE_def pg_def calm_def insert_entry_def ok_def)
  moreover have "ready E N t ?w" by (rule ready_step [OF assms(2)]) (auto simp: all_ids_def)
  ultimately show ?thesis by auto
qed

lemma InsertEntries_calm:
  assumes "calm E" and "ready E N t w" and "tick w + length es \<le> N" and "\<forall>e \<in> set es. ei_AmountMinor e \<noteq> 0" and "i \<in> txn_ID ` set (transactions (db w))"
    and "\<forall>e \<in> set es. ei_AccountID e \<in> acct_ID ` set (accounts (db w))"
  shows "\<exists>rows w'. mapC (InsertEntry E t i) es w = (Inr rows, w') \<and> ready E N t w' \<and> tick w' = tick w + length es"
  using assms(2-6)
proof (induction es arbitrary: w)
  case (Cons e es)
  then obtain row w1 where one: "InsertEntry E t i e w = (Inr row, w1)" "ready E N t w1"
    "transactions (db w1) = transactions (db w)" "accounts (db w1) = accounts (db w)" "tick w1 = Suc (tick w)"
    using InsertEntry_calm [OF assms(1), of N t w e i] by auto
  with Cons.prems Cons.IH [of w1] obtain rows w2 where "mapC (InsertEntry E t i) es w1 = (Inr rows, w2)" "ready E N t w2"
    "tick w2 = tick w + length (e # es)" by auto
  with one show ?case by (simp add: bindC_def ok_def)
qed (simp add: ok_def)

lemma InsertTransaction_calm:
  assumes "calm E" and "ready E N t w" and "tick w + length es < N" and "\<forall>e \<in> set es. ei_AmountMinor e \<noteq> 0"
    and "\<forall>e \<in> set es. ei_AccountID e \<in> acct_ID ` set (accounts (db w))"
  shows "\<exists>txn rows w'. InsertTransactionWithEntries E t st es w = (Inr (txn, rows), w') \<and> ready E N t w' \<and>
    tick w' = Suc (tick w + length es)"
proof -
  let ?uid = "gen_random_uuid E (tick w)"
  let ?txn = "\<lparr>txn_ID = ?uid, txn_TenantID = t, txn_Status = st, txn_CreatedAt = sql_now E w\<rparr>"
  let ?w = "(step w)\<lparr>db := (db w)\<lparr>transactions := transactions (db w) @ [?txn]\<rparr>\<rparr>"
  have ins: "pg E (insert_transaction t st) w = (Inr (?uid, sql_now E w), ?w)"
    using assms(1) ready_fresh [OF assms(2)] assms(3) by (simp add: pg_def calm_def insert_transaction_def)
  have "ready E N t ?w" by (rule ready_step [OF assms(2)]) (auto simp: all_ids_def)
  then obtain rows w2 where "mapC (InsertEntry E t ?uid) es ?w = (Inr rows, w2)" "ready E N t w2"
      "tick w2 = Suc (tick w + length es)"
    using InsertEntries_calm [OF assms(1), of N t ?w es ?uid] assms(3-5) by auto
  with ins show ?thesis by (simp add: InsertTransactionWithEntries_def bindC_def wrapE_def ok_def)
qed

lemma emitEvent_calm:
  assumes "calm E" and "ready E N t w" and "over_schema repo" and "tick w < N"
  shows "\<exists>w'. emitEvent E (ledgerSvc E repo) t ty txn w = (Inr (), w') \<and> ready E N t w' \<and> tick w' = Suc (tick w)"
proof -
  let ?p = "transactionEventJSON E txn" and ?uid = "gen_random_uuid E (tick w)"
  obtain j where ins: "insert_job E t ty ?p (sql_now E w) ?uid (db w) =
      Inr ((?uid, 0, sql_now E w, sql_now E w), (db w)\<lparr>webhook_events := webhook_events (db w) @ [j]\<rparr>)" "job_ID j = ?uid"
    using ready_fresh [OF assms(2,4)] by (simp add: insert_job_def)
  let ?w = "(step w)\<lparr>db := (db w)\<lparr>webhook_events := webhook_events (db w) @ [j]\<rparr>\<rparr>"
  have "emitEvent E (ledgerSvc E repo) t ty txn w = (Inr (), ?w)"
    using assms(1,3) ins
    by (simp add: emitEvent_def EnqueueEvent_def Enqueue_event_def Enqueue_def bindC_def wrapE_def ok_def
        pg_def calm_def on_queue_def over_schema_def)
  moreover have "ready E N t ?w" by (rule ready_step [OF assms(2)]) (auto simp: all_ids_def ins(2))
  ultimately show ?thesis by (intro exI [of _ ?w]) simp
qed

lemma audited_calm:
  assumes "calm E" and "ready E N t w" and "tick w < N"
  shows "\<exists>w'. audited (ledgerSvc E repo) t actor act p w = (Inr (), w') \<and> ready E N t w'"
proof -
  let ?uid = "gen_random_uuid E (tick w)"
  obtain a where ins: "insert_audit E t actor act (json_Marshal p) (sql_now E w) ?uid (db w) =
      Inr ((), (db w)\<lparr>audit_log := audit_log (db w) @ [a]\<rparr>)" "aud_ID a = ?uid"
    using ready_fresh [OF assms(2,3)] by (simp add: insert_audit_def)
  let ?w = "(step w)\<lparr>db := (db w)\<lparr>audit_log := audit_log (db w) @ [a]\<rparr>\<rparr>"
  have "audited (ledgerSvc E repo) t actor act p w = (Inr (), ?w)"
    using assms(1) ins by (simp add: audited_def recordAudit_def RecordAudit_def wrapE_def pg_def calm_def)
  moreover have "ready E N t ?w" by (rule ready_step [OF assms(2)]) (auto simp: all_ids_def ins(2))
  ultimately show ?thesis by blast
qed

section \<open>Decisions\<close>

lemma ready_frame:
  assumes "ready E N t w" and "db w' = db w" and "tick w \<le> tick w'"
  shows "ready E N t w'"
  using assms inj_on_subset [of "gen_random_uuid E" "{tick w..<N}" "{tick w'..<N}"]
  by (auto simp: ready_def fresh_ids_def)

lemma report_calm:
  assumes "calm E" and "ready E N t w" and "over_schema repo" and "Suc (tick w) < N"
  shows "\<exists>w'. bindC (emitEvent E (ledgerSvc E repo) t ty txn) (\<lambda>_.
    bindC (audited (ledgerSvc E repo) t actor act p) (\<lambda>_. ok x)) w = (Inr x, w')"
proof -
  from emitEvent_calm [OF assms(1-3)] assms(4) obtain w1 where
    "emitEvent E (ledgerSvc E repo) t ty txn w = (Inr (), w1)" "ready E N t w1" "tick w1 < N" by fastforce
  moreover from audited_calm [OF assms(1) this(2,3)] obtain w2 where
    "audited (ledgerSvc E repo) t actor act p w1 = (Inr (), w2)" by blast
  ultimately show ?thesis by (simp add: bindC_def ok_def)
qed

lemma funded_accounts: "funded t es d \<Longrightarrow> e \<in> set es \<Longrightarrow> ei_AccountID e \<in> acct_ID ` set (accounts d)"
  unfolding funded_def by (metis imageI)

lemma transfer_tx_decides:
  assumes "calm E" and "ready E N (tr_TenantID req) w" and "over_schema repo" and "validateEntries (tr_Entries req) = None"
    and "tick w + length (tr_Entries req) + 6 \<le> N"
  shows "wp (transfer_tx E (ledgerSvc E repo) req) (\<lambda>_ _. funded (tr_TenantID req) (tr_Entries req) (db w))
    (\<lambda>err _. refusal (db w) (tr_TenantID req) (tr_Entries req) err) w"
proof -
  let ?t = "tr_TenantID req" and ?es = "tr_Entries req"
  let ?rest = "bindC (InsertTransactionWithEntries E ?t TxnPosted ?es) (\<lambda>(txn, rows).
     bindC (emitEvent E (ledgerSvc E repo) ?t EventTransactionPosted txn) (\<lambda>_.
     bindC (audited (ledgerSvc E repo) ?t (tr_ActorID req) AuditTransactionTransferred
              (transferAuditPayload E txn ?es)) (\<lambda>_. ok (txn, rows))))"
  have "wp ?rest (\<lambda>_ _. funded ?t ?es (db w)) R w1"
    if fund: "funded ?t ?es (db w)" and same: "db w1 = db w" and later: "tick w < tick w1" "tick w1 \<le> tick w + 3" for R w1
  proof -
    have r1: "ready E N ?t w1" using ready_frame [OF assms(2)] same later by simp
    have "\<forall>e \<in> set ?es. ei_AmountMinor e \<noteq> 0" using assms(4) by (simp add: validateEntries_None)
    moreover have "\<forall>e \<in> set ?es. ei_AccountID e \<in> acct_ID ` set (accounts (db w1))"
      using funded_accounts [OF fund] same by simp
    ultimately obtain txn rows w2 where ins: "InsertTransactionWithEntries E ?t TxnPosted ?es w1 = (Inr (txn, rows), w2)"
        "ready E N ?t w2" "Suc (tick w2) < N"
      using InsertTransaction_calm [OF assms(1) r1, of ?es TxnPosted] assms(5) later(2) by auto
    from report_calm [OF assms(1) ins(2) assms(3) ins(3), of EventTransactionPosted txn "tr_ActorID req"
        AuditTransactionTransferred "transferAuditPayload E txn ?es" "(txn, rows)"] obtain w3 where "?rest w1 = (Inr (txn, rows), w3)"
      unfolding bindC_run [of "InsertTransactionWithEntries E ?t TxnPosted ?es", OF ins(1)] prod.case by blast
    then show ?thesis using fund by (rule wp_of_run)
  qed
  then show ?thesis
    unfolding transfer_tx_def wp_two_steps
    by (intro wp_mono [OF wp_lock_and_check [OF assms(1), of "uniqueAccountIDs ?es" ?es ?t w]]) auto
qed

lemma ExecuteTransfer_answer:
  assumes "calm E" and "ready E (tick w + length (tr_Entries req) + 7) (tr_TenantID req) w" and "over_schema repo"
  shows "case fst (ExecuteTransfer E (ledgerSvc E repo) req w) of
      Inr _ \<Rightarrow> validateEntries (tr_Entries req) = None \<and> funded (tr_TenantID req) (tr_Entries req) (db w)
    | Inl err \<Rightarrow> validateEntries (tr_Entries req) = Some err \<or>
        (validateEntries (tr_Entries req) = None \<and> refusal (db w) (tr_TenantID req) (tr_Entries req) err)"
proof (cases "validateEntries (tr_Entries req)")
  case None
  let ?w = "(step w)\<lparr>tx_now := Some (pg_now E (tick w))\<rparr>"
  have "ready E (tick w + length (tr_Entries req) + 7) (tr_TenantID req) ?w" by (rule ready_frame [OF assms(2)]) simp_all
  then have "wp (transfer_tx E (ledgerSvc E repo) req) (\<lambda>_ _. funded (tr_TenantID req) (tr_Entries req) (db w))
      (\<lambda>err _. refusal (db w) (tr_TenantID req) (tr_Entries req) err) ?w"
    using transfer_tx_decides [OF assms(1) _ assms(3) None, of "tick w + length (tr_Entries req) + 7" ?w] by simp
  from in_tx_calm_fst [OF assms(1) this, of begin_err "\<lambda>e. Errorf ''ledger: commit transfer: '' e ''''"] None show ?thesis
    by (simp add: ExecuteTransfer_def split: sum.splits)
next
  case (Some err)
  then show ?thesis by (simp add: ExecuteTransfer_def raise_def)
qed

text \<open>
  C11. What \<open>ExecuteTransfer\<close> answers when the database does: the validation error if there is one;
  otherwise \<open>ErrAccountNotFound\<close> if an account is not the tenant's, a range error if a balance does not
  fit an \<open>int64\<close>, \<open>ErrInsufficientFunds\<close> if an account would be overdrawn; and success in every
  remaining case.
\<close>

theorem ExecuteTransfer_decides:
  assumes "calm E" and "ready E (tick w + length (tr_Entries req) + 7) (tr_TenantID req) w" and "over_schema repo"
  shows "case fst (ExecuteTransfer E (ledgerSvc E repo) req w) of
      Inr _ \<Rightarrow> validateEntries (tr_Entries req) = None \<and> funded (tr_TenantID req) (tr_Entries req) (db w)
    | Inl err \<Rightarrow> validateEntries (tr_Entries req) = Some err \<or>
        (validateEntries (tr_Entries req) = None \<and> refusal (db w) (tr_TenantID req) (tr_Entries req) err)"
  using assms by (rule ExecuteTransfer_answer)

lemma UpdateStatus_calm:
  assumes "calm E" and "x \<in> set (transactions (db w))" and "guard_matches t i st x"
  shows "UpdateTransactionStatusGuarded E t i st st' w = (Inr (), (step w)\<lparr>db := set_status t i st st' (db w)\<rparr>)"
proof -
  have "filter (guard_matches t i st) (transactions (db w)) \<noteq> []" using assms(2,3) by (auto simp: filter_empty_conv)
  then show ?thesis
    using assms(1)
    by (simp add: UpdateTransactionStatusGuarded_def bindC_def wrapE_def pg_def calm_def update_status_def
        set_status_def ok_def)
qed

lemma ready_set_status: "ready E N t w \<Longrightarrow> ready E N t ((step w)\<lparr>db := set_status t i st st' (db w)\<rparr>)"
  by (erule ready_step) (auto simp: all_ids_def set_status_def)

lemma GetTransaction_calm:
  "calm E \<Longrightarrow> GetTransaction_repo E t i w =
     (case find_transaction t i (db w) of
        Inl _ \<Rightarrow> (Inl ErrTransactionNotFound, step w)
      | Inr txn \<Rightarrow> (Inr (txn, select_entries t i (db w)), step (step w)))"
  by (simp add: GetTransaction_repo_def bindC_def wrapE_def pg_select_def pg_def calm_def ok_def find_transaction_def
      split: option.splits)

lemma post_tx_decides:
  assumes "calm E" and "ready E N t w" and "over_schema repo" and "tick w + 8 \<le> N"
  shows "wp (post_tx E (ledgerSvc E repo) t i actor)
    (\<lambda>_ _. (\<exists>old. find_transaction t i (db w) = Inr old \<and> txn_Status old = TxnPending) \<and>
       funded t (map entry_input (select_entries t i (db w))) (db w))
    (\<lambda>err _. case find_transaction t i (db w) of
        Inl _ \<Rightarrow> err = ErrTransactionNotFound
      | Inr old \<Rightarrow> if txn_Status old = TxnPending
          then refusal (db w) t (map entry_input (select_entries t i (db w))) err
          else err = ErrTransactionNotPending) w"
proof (cases "find_transaction t i (db w)")
  case (Inl e)
  then show ?thesis by (simp add: post_tx_def wp_def bindC_def GetTransaction_calm [OF assms(1)])
next
  case (Inr old)
  let ?es = "select_entries t i (db w)" and ?w = "step (step w)" and ?new = "old\<lparr>txn_Status := TxnPosted\<rparr>"
  note old = find_transaction_InrD [OF Inr]
  note get = GetTransaction_calm [OF assms(1), of t i w]
  show ?thesis
  proof (cases "txn_Status old = TxnPending")
    case False
    with Inr get show ?thesis by (simp add: post_tx_def wp_def bindC_def raise_def)
  next
    case True
    have get': "GetTransaction_repo E t i w = (Inr (old, ?es), ?w)" using get Inr by simp
    let ?rest = "bindC (UpdateTransactionStatusGuarded E t i TxnPending TxnPosted) (\<lambda>_.
       bindC (emitEvent E (ledgerSvc E repo) t EventTransactionPosted ?new) (\<lambda>_.
       bindC (audited (ledgerSvc E repo) t actor AuditTransactionPosted (statusChangeAuditPayload E ?new)) (\<lambda>_. ok ?new)))"
    have rest: "wp ?rest (\<lambda>_ _. True) R w1" if same: "db w1 = db w" and later: "tick ?w < tick w1" "tick w1 \<le> tick ?w + 3" for R w1
    proof -
      have "ready E N t w1" using ready_frame [OF assms(2)] same later by simp
      then have "ready E N t ((step w1)\<lparr>db := set_status t i TxnPending TxnPosted (db w1)\<rparr>)" by (rule ready_set_status)
      from report_calm [OF assms(1) this assms(3) _, of EventTransactionPosted ?new actor AuditTransactionPosted
          "statusChangeAuditPayload E ?new" ?new]
      obtain w3 where "bindC (emitEvent E (ledgerSvc E repo) t EventTransactionPosted ?new) (\<lambda>_.
          bindC (audited (ledgerSvc E repo) t actor AuditTransactionPosted (statusChangeAuditPayload E ?new)) (\<lambda>_. ok ?new))
          ((step w1)\<lparr>db := set_status t i TxnPending TxnPosted (db w1)\<rparr>) = (Inr ?new, w3)"
        using later assms(4) by auto
      moreover have "UpdateTransactionStatusGuarded E t i TxnPending TxnPosted w1 =
          (Inr (), (step w1)\<lparr>db := set_status t i TxnPending TxnPosted (db w1)\<rparr>)"
        using UpdateStatus_calm [OF assms(1), of old w1] old True same by (simp add: guard_matches_def)
      ultimately have "?rest w1 = (Inr ?new, w3)" by (simp add: bindC_def [of "UpdateTransactionStatusGuarded _ _ _ _ _"])
      then show ?thesis by (rule wp_of_run) simp
    qed
    have "wp (bindC (LockAccountsForUpdate E t (map ent_AccountID ?es)) (\<lambda>accs.
        bindC (check_funds E (project accs (map entry_input ?es))) (\<lambda>_. ?rest)))
      (\<lambda>_ _. funded t (map entry_input ?es) (db w)) (\<lambda>err _. refusal (db w) t (map entry_input ?es) err) ?w"
    proof -
      have ids: "set (map ent_AccountID ?es) = ei_AccountID ` set (map entry_input ?es)" by (simp add: image_image)
      show ?thesis
        by (subst wp_two_steps, rule wp_mono [OF wp_lock_and_check [OF assms(1) ids, of t ?w]])
          (auto intro: wp_mono [OF rest])
    qed
    then have "wp (post_tx E (ledgerSvc E repo) t i actor)
      (\<lambda>_ _. funded t (map entry_input ?es) (db w)) (\<lambda>err _. refusal (db w) t (map entry_input ?es) err) w"
      unfolding post_tx_def wp_bindC_run [of "GetTransaction_repo E t i", OF get'] Let_def
      using True old by simp
    then show ?thesis using Inr True by simp
  qed
qed

text \<open>
  C12. What \<open>PostPendingTransaction\<close> answers when the database does: \<open>ErrTransactionNotFound\<close> unless the
  tenant has the transaction, \<open>ErrTransactionNotPending\<close> unless it is pending, the refusals of a
  transfer if its entries do not pass the same checks, and success otherwise.
\<close>

theorem PostPendingTransaction_decides:
  assumes "calm E" and "ready E (tick w + 9) t w" and "over_schema repo"
  shows "case fst (PostPendingTransaction E (ledgerSvc E repo) t i actor w) of
      Inr _ \<Rightarrow> (\<exists>old. find_transaction t i (db w) = Inr old \<and> txn_Status old = TxnPending) \<and>
        funded t (map entry_input (select_entries t i (db w))) (db w)
    | Inl err \<Rightarrow> (case find_transaction t i (db w) of
        Inl _ \<Rightarrow> err = ErrTransactionNotFound
      | Inr old \<Rightarrow> if txn_Status old = TxnPending
          then refusal (db w) t (map entry_input (select_entries t i (db w))) err
          else err = ErrTransactionNotPending)"
proof -
  let ?w = "(step w)\<lparr>tx_now := Some (pg_now E (tick w))\<rparr>"
  have "ready E (tick w + 9) t ?w" by (rule ready_frame [OF assms(2)]) simp_all
  note decides = post_tx_decides [OF assms(1) this assms(3), of i actor, simplified]
  have "db ?w = db w" by simp
  from in_tx_calm_fst [OF assms(1) decides [unfolded this]] show ?thesis unfolding PostPendingTransaction_def .
qed

end
