(* ===== verification/Ledger_Examples.thy ===== *)
theory Ledger_Examples
  imports Ledger_Decisions
begin

text \<open>
  Concrete ledgers: the properties of the ledger applied at them, and the inputs on which the code does
  something its comments and design records exclude.
\<close>

section \<open>A small ledger\<close>

definition demo_repo :: QueueRepository where
  "demo_repo = \<lparr>queueTable = ''webhook_events'', deadLetterTable = ''dead_letter_events''\<rparr>"

definition pair_transfer :: "uuid \<Rightarrow> uuid \<Rightarrow> uuid \<Rightarrow> money \<Rightarrow> TransferRequest" where
  "pair_transfer t a b amt = \<lparr>tr_TenantID = t,
     tr_Entries = [\<lparr>ei_AccountID = a, ei_AmountMinor = - amt\<rparr>, \<lparr>ei_AccountID = b, ei_AmountMinor = amt\<rparr>],
     tr_ActorID = ''user-1''\<rparr>"

definition demo_pending :: tables where
  "demo_pending = demo_ledger\<lparr>transactions := [demo_txn 5 1 TxnPosted, demo_txn 7 1 TxnPending],
     entries := [demo_entry 6 1 5 11 100, demo_entry 8 1 7 11 (- 40), demo_entry 9 1 7 12 40]\<rparr>"

definition three_accounts :: tables where
  "three_accounts = empty_tables\<lparr>tenants := [demo_tenant 1],
     accounts := [demo_account 11 1, demo_account 12 1, demo_account 13 1]\<rparr>"

abbreviation demo_svc :: Service where
  "demo_svc \<equiv> ledgerSvc demo_env demo_repo"

abbreviation demo_run :: world where
  "demo_run \<equiv> run_ops demo_env demo_svc [OpExecuteTransfer (pair_transfer 1 11 12 30)] (demo_world demo_ledger)"

lemma demo_wf: "ledger_wf demo_ledger" "ledger_wf demo_pending"
  by code_simp+

lemma demo_world_db [simp]: "db (demo_world d) = d" "tick (demo_world d) = 0"
  by (simp_all add: demo_world_def)

lemma demo_solvent: "solvent demo_ledger"
  by (auto simp: solvent_def posted_balance_def posted_amounts_def demo_defs)

lemma demo_volume: "volume (db demo_run) = 160"
  by code_simp

lemma demo_over_schema: "over_schema demo_repo"
  by (simp add: over_schema_def demo_repo_def)

lemma ready_mono: "ready E N t w \<Longrightarrow> M \<le> N \<Longrightarrow> ready E M t w"
  by (auto simp: ready_def fresh_ids_def inj_on_def)

text \<open>The first ten identifiers the environment draws are new for the ledgers.\<close>

lemma ten: "{0..<10::nat} = set [0, 1, 2, 3, 4, 5, 6, 7, 8, 9]"
  by auto

lemma demo_draws: "inj_on (gen_random_uuid demo_env) {0..<10}"
  unfolding ten inj_on_def by code_simp

lemma demo_ready_ten:
  "ready demo_env 10 1 (demo_world demo_ledger)" "ready demo_env 10 1 (demo_world demo_pending)"
  "ready demo_env 10 1 (demo_world three_accounts)"
  unfolding ready_def fresh_ids_def demo_world_db ten using demo_draws [unfolded ten]
  by (simp_all only: simp_thms) (code_simp, code_simp, code_simp)

lemmas demo_ready = demo_ready_ten [THEN ready_mono, of 9, simplified] demo_ready_ten(3)

section \<open>Witnesses\<close>

lemma pair_transfer_sel [simp]:
  "tr_TenantID (pair_transfer t a b amt) = t" "length (tr_Entries (pair_transfer t a b amt)) = 2"
  by (simp_all add: pair_transfer_def)

theorem ledger_stays_well_formed_witness: "ledger_wf (db demo_run)"
  by (rule ledger_stays_well_formed) (simp add: demo_wf)

theorem balances_never_negative_witness:
  "solvent demo_ledger \<and> volume (db demo_run) < 2 ^ 63 \<and> 0 \<le> posted_balance (db demo_run) 11"
  using balances_never_negative [of "demo_world demo_ledger" demo_env demo_repo
      "[OpExecuteTransfer (pair_transfer 1 11 12 30)]" 11] demo_wf demo_solvent demo_volume
  by (simp del: run_ops.simps)

theorem money_is_conserved_witness:
  "volume (db demo_run) < 2 ^ 63 \<and> tenant_total (db demo_run) 1 = tenant_total demo_ledger 1"
  using money_is_conserved [of "demo_world demo_ledger" demo_env demo_repo
      "[OpExecuteTransfer (pair_transfer 1 11 12 30)]" 1] demo_wf demo_volume
  by (simp del: run_ops.simps)

theorem other_tenants_untouched_witness:
  "tenant_rows_of 1 (db (snd (run_op demo_env demo_svc (OpCreateAccount 2 ''till'' ''user-2'') (demo_world demo_ledger))))
     = tenant_rows_of 1 demo_ledger"
  using other_tenants_untouched [of "OpCreateAccount 2 ''till'' ''user-2''" 1 "demo_world demo_ledger" "demo_account 11 1" demo_env demo_repo]
    demo_wf(1) by (simp add: demo_ledger_def demo_account_def)

lemma refusal_unfunded: "funded t es d \<Longrightarrow> \<not> refusal d t es err"
  unfolding refusal_def funded_def owned_def by (metis imageI)

theorem ExecuteTransfer_decides_witness:
  "\<not> isl (fst (ExecuteTransfer demo_env demo_svc (pair_transfer 1 11 12 30) (demo_world demo_ledger)))"
proof -
  have "validateEntries (tr_Entries (pair_transfer 1 11 12 30)) = None" by code_simp
  moreover have "funded 1 (tr_Entries (pair_transfer 1 11 12 30)) demo_ledger" by code_simp
  note refusal_unfunded [OF this]
  moreover have "ready demo_env (tick (demo_world demo_ledger) + length (tr_Entries (pair_transfer 1 11 12 30)) + 7)
      (tr_TenantID (pair_transfer 1 11 12 30)) (demo_world demo_ledger)" using demo_ready(1) by simp
  note ExecuteTransfer_decides [OF demo_calm this demo_over_schema]
  ultimately show ?thesis by (simp split: sum.splits)
qed

theorem PostPendingTransaction_decides_witness:
  "\<not> isl (fst (PostPendingTransaction demo_env demo_svc 1 7 ''user-1'' (demo_world demo_pending)))"
proof -
  have "find_transaction 1 7 demo_pending = Inr (demo_txn 7 1 TxnPending)" by code_simp
  moreover have "funded 1 (map entry_input (select_entries 1 7 demo_pending)) demo_pending" by code_simp
  note refusal_unfunded [OF this]
  moreover have "ready demo_env (tick (demo_world demo_pending) + 9) 1 (demo_world demo_pending)" using demo_ready(2) by simp
  note PostPendingTransaction_decides [OF demo_calm this demo_over_schema, of 7 "''user-1''"]
  ultimately show ?thesis by (simp add: demo_txn_def split: sum.splits)
qed

section \<open>Wrap-around\<close>


definition draining :: TransferRequest where
  "draining = \<lparr>tr_TenantID = 1,
     tr_Entries = [\<lparr>ei_AccountID = 11, ei_AmountMinor = - 9223372036854775808\<rparr>, \<lparr>ei_AccountID = 11, ei_AmountMinor = - 9223372036854775808\<rparr>],
     tr_ActorID = ''user-1''\<rparr>"

lemma tenant_total_transfer:
  assumes "ExecuteTransfer E (ledgerSvc E repo) req w = (Inr x, w')" and "ledger_wf (db w)"
  shows "tenant_total (db w') (tr_TenantID req) =
      tenant_total (db w) (tr_TenantID req) + (\<Sum>e \<leftarrow> tr_Entries req. sint (ei_AmountMinor e))"
    and "posted_balance (db w') i = posted_balance (db w) i + change (tr_Entries req) i"
    and "ledger_wf (db w')" and "accounts (db w') = accounts (db w)"
proof -
  obtain txn rows where ins: "inserted (tr_TenantID req) TxnPosted (tr_Entries req) txn rows (db w) (db w')"
    and fund: "funded (tr_TenantID req) (tr_Entries req) (db w)"
    using prod.ExecuteTransfer_outcome [OF assms(1)] by (fastforce simp: outcome_of_def)
  have rows: "rows_for (tr_TenantID req) (txn_ID txn) (tr_Entries req) rows" using ins by (simp add: inserted_def)
  show "accounts (db w') = accounts (db w)" using inserted_tables(1) [OF ins] .
  show wf': "ledger_wf (db w')" using wf_inserted [OF ins assms(2) fund] .
  have "(\<Sum>e \<leftarrow> rows. sint (ent_AmountMinor e)) = (\<Sum>e \<leftarrow> tr_Entries req. sint (ei_AmountMinor e))"
    using arg_cong [OF rows_amounts [OF rows], of "\<lambda>xs. sum_list (map sint xs)"] by (simp add: comp_def)
  then show "tenant_total (db w') (tr_TenantID req) =
      tenant_total (db w) (tr_TenantID req) + (\<Sum>e \<leftarrow> tr_Entries req. sint (ei_AmountMinor e))"
    using tenant_rows [of rows "tr_TenantID req"] rows
    by (simp add: tenant_total_sum [OF assms(2)] tenant_total_sum [OF wf'] posted_sum_inserted [OF ins assms(2)] rows_for_def)
  show "posted_balance (db w') i = posted_balance (db w) i + change (tr_Entries req) i"
    using posted_balance_inserted [OF ins assms(2) wf'] by simp
qed

lemma accepted:
  assumes "calm E" and "ready E (tick w + length (tr_Entries req) + 7) (tr_TenantID req) w" and "over_schema repo"
    and "validateEntries (tr_Entries req) = None" and "funded (tr_TenantID req) (tr_Entries req) (db w)"
  obtains x w' where "ExecuteTransfer E (ledgerSvc E repo) req w = (Inr x, w')"
proof -
  from ExecuteTransfer_answer [OF assms(1-3)] assms(4) refusal_unfunded [OF assms(5)]
  have "\<not> isl (fst (ExecuteTransfer E (ledgerSvc E repo) req w))" by (simp split: sum.splits)
  then obtain x where "fst (ExecuteTransfer E (ledgerSvc E repo) req w) = Inr x" by (metis isl_def sum.exhaust)
  then show thesis by (intro that [of x "snd (ExecuteTransfer E (ledgerSvc E repo) req w)"]) (simp add: prod_eq_iff)
qed


text \<open>
  The balance check wraps around too: two debits of \<open>2^63\<close> on one account cancel out in 64 bits, so
  the transfer succeeds and the account's balance is \<open>2^64\<close> below what it was; from then on
  reading the account fails.
\<close>

theorem transfer_can_overdraw:
  "case ExecuteTransfer demo_env demo_svc draining (demo_world demo_ledger) of
     (Inr _, w) \<Rightarrow> posted_balance (db w) 11 = 100 - 2 ^ 64 \<and>
       fst (GetAccount demo_env 1 11 w) = Inl (Errorf ''ledger: get account: '' (Pg ScanRange) '''')
   | (Inl _, _) \<Rightarrow> False"
proof -
  have "ready demo_env (tick (demo_world demo_ledger) + length (tr_Entries draining) + 7) (tr_TenantID draining)
      (demo_world demo_ledger)" using demo_ready(1) by (simp add: draining_def)
  moreover have "validateEntries (tr_Entries draining) = None" by code_simp
  moreover have "funded (tr_TenantID draining) (tr_Entries draining) (db (demo_world demo_ledger))" by code_simp
  ultimately obtain x w where run: "ExecuteTransfer demo_env demo_svc draining (demo_world demo_ledger) = (Inr x, w)"
    using accepted [OF demo_calm _ demo_over_schema] by blast
  have wf: "ledger_wf (db (demo_world demo_ledger))" by (simp add: demo_wf)
  have "posted_balance demo_ledger 11 = 100" by code_simp
  moreover have "change (tr_Entries draining) 11 = - (2 ^ 64)" by (simp add: change_def draining_def)
  ultimately have bal: "posted_balance (db w) 11 = 100 - 2 ^ 64"
    using tenant_total_transfer(2) [OF run wf, of 11] by simp
  have "accounts (db w) = accounts demo_ledger" using tenant_total_transfer(4) [OF run wf] by simp
  then have "select_account 1 11 (db w) = Inl ScanRange"
    using bal by (simp add: select_account_def demo_defs scan_int64_def fits64_def)
  with run bal demo_calm show ?thesis
    by (simp add: GetAccount_def GetAccount_repo_def wrapE_def pg_select_def pg_def calm_def)
qed

section \<open>Accounts of another tenant\<close>

text \<open>
  A pending transaction may name another tenant's account: tenant 1 creates one that debits its
  account 11 and credits account 21 of tenant 2, the call succeeds, the entry refers to that account,
  and posting the transaction is what is refused. For an identifier of no account at all the create
  itself fails, so the answer tells the two apart.
\<close>

theorem pending_may_name_foreign_account:
  "isl (fst (CreatePendingTransaction demo_env demo_svc (pair_transfer 1 11 99 30) (demo_world demo_ledger))) \<and>
   (case CreatePendingTransaction demo_env demo_svc (pair_transfer 1 11 21 30) (demo_world demo_ledger) of
      (Inr (txn, rows), w) \<Rightarrow>
        map ent_AccountID rows = [11, 21] \<and>
        fst (PostPendingTransaction demo_env demo_svc 1 (txn_ID txn) ''user-1'' w) =
          Inl (Errorf '''' ErrAccountNotFound ('': '' @ uuid_String demo_env 21))
    | _ \<Rightarrow> False)"
  by code_simp

end
