(* ===== verification/Webhook_Properties.thy ===== *)
theory Webhook_Properties
  imports Webhook Fixtures
begin

text \<open>
  What the queue and the webhook worker promise: the invariant of the queue over any run of the worker,
  what one processing step does, the retry policy's bounds, and the signatures; and the two places
  where the code falls short of its comments.
\<close>

section \<open>Claims\<close>

lemma demo_claim:
  "ClaimPending demo_env \<lparr>queueTable = ''webhook_events'', deadLetterTable = ''dead_letter_events''\<rparr> 1
     (demo_world (empty_tables\<lparr>webhook_events := [demo_job 1 20 JobPending, demo_job 2 10 JobPending]\<rparr>)) =
   (Inr [demo_job 2 10 JobProcessing],
    (demo_world (empty_tables\<lparr>webhook_events := [demo_job 1 20 JobPending, demo_job 2 10 JobProcessing]\<rparr>))\<lparr>tick := 1\<rparr>)"
  by (simp add: ClaimPending_def wrapE_def pg_def on_queue_def claim_jobs_def claimable_def due_def
      mark_processing_def sql_now_def demo_defs Let_def)

section \<open>Runs of the worker\<close>

text \<open>The events of a batch still to be processed: in flight, each once.\<close>

definition batch_inv :: "WebhookService \<Rightarrow> Event list \<Rightarrow> tables \<Rightarrow> bool" where
  "batch_inv s evs d \<longleftrightarrow> queue_inv s d \<and> (\<forall>ev \<in> set evs. inflight d ev) \<and> distinct (map ev_ID evs)"

lemma batch_inv_step: "batch_inv s (ev # evs) d \<Longrightarrow> processed s ev d d' \<Longrightarrow> batch_inv s evs d'"
  unfolding batch_inv_def
proof (intro conjI ballI)
  assume b: "queue_inv s d \<and> (\<forall>ev \<in> set (ev # evs). inflight d ev) \<and> distinct (map ev_ID (ev # evs))"
    and p: "processed s ev d d'"
  show "queue_inv s d'" using processed_queue_inv [OF p] b by simp
  show "distinct (map ev_ID evs)" using b by simp
  fix x
  assume "x \<in> set evs"
  with b have "inflight d x" "ev_ID x \<noteq> ev_ID ev" by (auto simp: image_iff)
  then show "inflight d' x" by (rule processed_inflight [OF p])
qed

lemma batch_queue_inv: "queue_inv (wk_svc wk) (db w) \<Longrightarrow> leads (processBatch E wk) (queue_inv (wk_svc wk)) w"
proof (rule leads_processBatch [where I = "batch_inv (wk_svc wk)" and s = "wk_svc wk"])
  fix js locked now uid d'
  assume inv: "queue_inv (wk_svc wk) (db w)" and claim: "claim_jobs locked (wk_batchSize wk) now uid (db w) = Inr (js, d')"
  have "distinct (map job_ID (webhook_events (db w)))" using inv by (simp add: queue_inv_def)
  from claim_rows(3) [OF claim this] have "distinct (map ev_ID (map eventFromJob js))" by (simp add: comp_def)
  then show "queue_inv (wk_svc wk) d' \<and> batch_inv (wk_svc wk) (map eventFromJob js) d'"
    using claim_queue_inv [OF claim inv] by (auto simp: batch_inv_def)
next
  show "batch_inv (wk_svc wk) evs d'" if "batch_inv (wk_svc wk) (ev # evs) d" "processed (wk_svc wk) ev d d'" for ev evs d d'
    using that by (rule batch_inv_step)
qed (simp_all add: batch_inv_def)

text \<open>
  The worker keeps the queue's invariant, whatever the receivers answer and whichever database call
  fails, for any sequence of ticks: identifiers stay unique, a job still to be delivered has used
  fewer attempts than allowed, and exactly the failed jobs are in the dead-letter table, each once.
\<close>

theorem worker_keeps_queue_invariant:
  assumes "queue_inv (wk_svc wk) (db w)"
  shows "queue_inv (wk_svc wk) (db (snd (Run E wk sigs w)))"
  using leads_Run [of "queue_inv (wk_svc wk)", OF assms batch_queue_inv] by (simp add: leads_def)

definition demo_worker :: Worker where
  "demo_worker = NewWorker \<lparr>queueTable = ''webhook_events'', deadLetterTable = ''dead_letter_events''\<rparr>
     (NewWebhookService \<lparr>queueTable = ''webhook_events'', deadLetterTable = ''dead_letter_events''\<rparr> []) []"

definition demo_queue :: tables where
  "demo_queue = empty_tables\<lparr>tenants := [demo_tenant 1],
     webhook_events := [demo_job 1 20 JobPending, demo_job 2 10 JobProcessing]\<rparr>"

lemma demo_queue_inv: "queue_inv (wk_svc demo_worker) demo_queue"
  by (auto simp: queue_inv_def failed_ids_def attempts_ok_def demo_worker_def NewWorker_def NewWebhookService_def
      DefaultMaxAttempts_def demo_queue_def demo_defs)

theorem worker_keeps_queue_invariant_witness:
  "queue_inv (wk_svc demo_worker) (db (snd (Run demo_env demo_worker [Tick, Tick, CtxDone] (demo_world demo_queue))))"
  using worker_keeps_queue_invariant [of demo_worker "demo_world demo_queue" demo_env "[Tick, Tick, CtxDone]"] demo_queue_inv
  by (simp add: demo_world_def)

section \<open>Rows the worker never touches\<close>

definition kept_row :: "Job \<Rightarrow> Event list \<Rightarrow> tables \<Rightarrow> bool" where
  "kept_row j evs d \<longleftrightarrow> distinct (map job_ID (webhook_events d)) \<and> j \<in> set (webhook_events d) \<and> job_ID j \<notin> ev_ID ` set evs"

lemma kept_row_step: "kept_row j (ev # evs) d \<Longrightarrow> processed s ev d d' \<Longrightarrow> kept_row j evs d'"
  unfolding kept_row_def using processed_ids [of s ev d d'] processed_other [of s ev d d'] by auto

lemma batch_kept_row:
  assumes "kept_row j [] (db w)" and "job_Status j \<noteq> JobPending"
  shows "leads (processBatch E wk) (kept_row j []) w"
proof (rule leads_processBatch [where I = "kept_row j" and s = "wk_svc wk"])
  fix js locked now uid d'
  assume claim: "claim_jobs locked (wk_batchSize wk) now uid (db w) = Inr (js, d')"
  have dist: "distinct (map job_ID (webhook_events (db w)))" using assms(1) by (simp add: kept_row_def)
  from claim_rows(1) [OF claim dist] claim_rows(5) [OF claim dist, of j] assms dist
  show "kept_row j [] d' \<and> kept_row j (map eventFromJob js) d'"
    by (auto simp: kept_row_def)
next
  show "kept_row j evs d'" if "kept_row j (ev # evs) d" "processed (wk_svc wk) ev d d'" for ev evs d d'
    using that by (rule kept_row_step)
qed (use assms in \<open>simp_all add: kept_row_def\<close>)

text \<open>
  A row that is not pending is never touched again by the worker. For delivered and failed jobs
  this makes those states terminal. It also holds for a job left processing by a crash, a lost
  commit or a failed update after the claim: such a job is never delivered, retried or dead-lettered.
\<close>

theorem worker_ignores_rows_not_pending:
  assumes "distinct (map job_ID (webhook_events (db w)))" and "j \<in> set (webhook_events (db w))"
    and "job_Status j \<noteq> JobPending"
  shows "j \<in> set (webhook_events (db (snd (Run E wk sigs w))))"
  using leads_Run [of "kept_row j []" w E wk sigs] batch_kept_row [of j _ E wk] assms
  by (simp add: leads_def kept_row_def)

theorem worker_ignores_rows_not_pending_witness:
  "demo_job 2 10 JobProcessing \<in> set (webhook_events (db (snd (Run demo_env demo_worker [Tick, Tick] (demo_world demo_queue)))))"
  using worker_ignores_rows_not_pending [of "demo_world demo_queue" "demo_job 2 10 JobProcessing" demo_env demo_worker "[Tick, Tick]"]
  by (simp add: demo_queue_def demo_defs)

section \<open>One event\<close>

text \<open>
  Whatever fails, \<open>ProcessEvent\<close> does one of five things to the tables: nothing (a database call
  failed or a panic), mark the event's row delivered, put it back to pending with the same attempts
  (no endpoint), put it back with one attempt more while attempts are left, or, when none is left,
  mark it failed and record it in the dead-letter table together.
\<close>

theorem ProcessEvent_refines: "processed s ev (db w) (db (snd (ProcessEvent E s ev w)))"
  using ProcessEvent_processed [of E s ev w] by (simp add: leads_def)

section \<open>Delivery\<close>






section \<open>Retry policy\<close>

text \<open>\<open>crypto/rand\<close>'s \<open>Int\<close> returns a number from 0 up to its bound, which must be positive.\<close>

definition rand_lawful :: "env \<Rightarrow> bool" where
  "rand_lawful E \<longleftrightarrow> (\<forall>n m k. 0 < m \<longrightarrow> rand_Int E n m = Some k \<longrightarrow> 0 \<le> k \<and> k < m)"

lemma jitter_range:
  assumes "rand_lawful E" and "5 \<le> d" and "fits64 (d + d div 5)"
  shows "\<exists>b. jitter E d w = (Inr b, step w) \<and> d - d div 5 \<le> b \<and> b < d + d div 5"
proof -
  have pos: "0 < d div 5" using assms(2) by simp
  have "fits64 (d - d div 5 + n)" if "0 \<le> n" "n < 2 * (d div 5)" for n
    using that assms(2,3) by (simp add: fits64_def)
  then have wrap: "wrap64 (d - d div 5 + n) = d - d div 5 + n" if "0 \<le> n" "n < 2 * (d div 5)" for n
    using that by simp
  have jit: "jitter E d w = (case rand_Int E (tick w) (2 * (d div 5)) of
      None \<Rightarrow> (Inr d, step w) | Some n \<Rightarrow> (Inr (wrap64 (d - d div 5 + n)), step w))"
    using assms(2) pos by (simp add: jitter_def Let_def)
  show ?thesis
  proof (cases "rand_Int E (tick w) (2 * (d div 5))")
    case None
    then have "jitter E d w = (Inr d, step w)" by (simp add: jit)
    then show ?thesis using pos by (intro exI [of _ d]) linarith
  next
    case (Some n)
    have "0 < 2 * (d div 5)" using pos by linarith
    from assms(1) [unfolded rand_lawful_def, rule_format, OF this Some] have "0 \<le> n" "n < 2 * (d div 5)"
      by (rule conjunct1, rule conjunct2)
    moreover from this have "jitter E d w = (Inr (d - d div 5 + n), step w)" using Some by (simp add: jit wrap)
    ultimately show ?thesis by (intro exI [of _ "d - d div 5 + n"]) linarith
  qed
qed

lemma fits64_spread:
  assumes "0 < d" and "d \<le> 2 ^ 62"
  shows "fits64 (d + d div 5)"
proof -
  have "0 \<le> d div 5" "d div 5 \<le> d" using assms(1) by simp_all
  with assms show ?thesis by (simp add: fits64_def)
qed



lemma float64_small: "\<bar>x\<bar> < 2 ^ 53 \<Longrightarrow> float64 x = x"
  by (simp add: float64_def)

lemma default_clamp:
  assumes "1 \<le> att" and "att \<le> 28"
  shows "clamp_backoff (NewWebhookService r []) (scaled_backoff E DefaultBaseBackoff att) =
    min (30 * 2 ^ nat (att - 1)) 3600 * Second"
proof -
  have "(2 :: int) ^ nat (att - 1) \<le> 2 ^ 27"
    using assms by (intro power_increasing) simp_all
  moreover have "fits64 (30000000000 * x)" if "x \<le> 2 ^ 27" "0 \<le> x" for x
    using that by (simp add: fits64_def)
  ultimately have "fits64 (30000000000 * 2 ^ nat (att - 1))" by simp
  moreover have "float64 DefaultBaseBackoff = 30000000000"
    by (simp add: float64_small DefaultBaseBackoff_def Second_def)
  ultimately show ?thesis
    using assms
    by (simp add: scaled_backoff_def clamp_backoff_def NewWebhookService_def DefaultMaxBackoff_def Second_def min_def)
qed

text \<open>
  With the default settings the clamped backoff doubles from 30 seconds, once per attempt, up to one
  hour: 30 s, 60 s, 120 s and so on, for every attempt number up to 28.
\<close>

theorem default_backoff_doubles:
  assumes "1 \<le> att" and "att \<le> 28"
  shows "clamp_backoff (NewWebhookService r []) (scaled_backoff E DefaultBaseBackoff att) =
    min (30 * 2 ^ nat (att - 1)) 3600 * Second"
  using assms by (rule default_clamp)


theorem default_backoff_doubles_witness:
  "clamp_backoff (NewWebhookService \<lparr>queueTable = ''webhook_events'', deadLetterTable = ''dead_letter_events''\<rparr> [])
     (scaled_backoff demo_env DefaultBaseBackoff 3) = 120 * Second"
  using default_backoff_doubles [of 3 "\<lparr>queueTable = ''webhook_events'', deadLetterTable = ''dead_letter_events''\<rparr>" demo_env]
  by simp

section \<open>Signatures\<close>

lemma signedContent_inj:
  assumes "signedContent t p = signedContent t' p'"
  shows "Unix t = Unix t' \<and> p = p'"
proof -
  have split: "takeWhile (\<lambda>c. c \<noteq> CHR ''.'') (signedContent t p) = FormatInt (Unix t)"
    "dropWhile (\<lambda>c. c \<noteq> CHR ''.'') (signedContent t p) = CHR ''.'' # p" for t p
    using FormatInt_chars by (simp_all add: signedContent_def takeWhile_append2 dropWhile_append2)
  from assms have "FormatInt (Unix t) = FormatInt (Unix t')" "CHR ''.'' # p = CHR ''.'' # p'"
    by (metis split(1)) (metis split(2) assms)
  then show ?thesis using FormatInt_inj by simp
qed

text \<open>
  C38. A receiver that verifies a signature accepts what was signed, to the second, and nothing else: a
  signature made for one time and payload verifies for another only if the two signed texts are a
  collision of HMAC-SHA256 under the tenant's secret.
\<close>

theorem signature_binds_time_and_payload:
  "VerifySignature k t' p' (SignPayload k t p) \<longleftrightarrow>
     (Unix t' = Unix t \<and> p' = p) \<or>
     (signedContent t' p' \<noteq> signedContent t p \<and>
      hmac_sha256 k (signedContent t' p') = hmac_sha256 k (signedContent t p))"
proof
  assume "VerifySignature k t' p' (SignPayload k t p)"
  then have "hmac_sha256 k (signedContent t' p') = hmac_sha256 k (signedContent t p)"
    using hex_EncodeToString_inj by (simp add: VerifySignature_def SignPayload_def)
  then show "(Unix t' = Unix t \<and> p' = p) \<or>
     (signedContent t' p' \<noteq> signedContent t p \<and>
      hmac_sha256 k (signedContent t' p') = hmac_sha256 k (signedContent t p))"
    using signedContent_inj by metis
next
  assume "(Unix t' = Unix t \<and> p' = p) \<or>
     (signedContent t' p' \<noteq> signedContent t p \<and>
      hmac_sha256 k (signedContent t' p') = hmac_sha256 k (signedContent t p))"
  then show "VerifySignature k t' p' (SignPayload k t p)"
    by (auto simp: VerifySignature_def SignPayload_def signedContent_def)
qed

section \<open>What becomes of an event\<close>

text \<open>
  The tables after one processing step of the service with its default settings, by the outcome of the
  delivery; \<open>now\<close> is the clock after the attempt.
\<close>

definition settled :: "env \<Rightarrow> WebhookService \<Rightarrow> Event \<Rightarrow> error + unit \<Rightarrow> instant \<Rightarrow> tables \<Rightarrow> tables \<Rightarrow> bool" where
  "settled E s ev r now d d' \<longleftrightarrow>
     (case r of
        Inr _ \<Rightarrow> d' = upd_row (ev_ID ev) (\<lambda>j. j\<lparr>job_Status := JobDelivered\<rparr>) d
      | Inl err \<Rightarrow>
          let msg = Error (pg_message E) err in
          if err = ErrNoEndpointConfigured then
            d' = upd_row (ev_ID ev) (retried E (ev_AttemptCount ev) (now + ws_baseBackoff s) msg) d
          else if ev_AttemptCount ev + 1 < ws_maxAttempts s then
            \<exists>b. 24 * 2 ^ nat (ev_AttemptCount ev) * Second \<le> b \<and> b < 36 * 2 ^ nat (ev_AttemptCount ev) * Second \<and>
              d' = upd_row (ev_ID ev) (retried E (ev_AttemptCount ev + 1) (now + b) msg) d
          else \<exists>dl. d' = upd_row (ev_ID ev) (\<lambda>j. j\<lparr>job_Status := JobFailed, job_LastError := Some msg\<rparr>)
              (d\<lparr>dead_letter_events := dead_letter_events d @ [dl]\<rparr>) \<and>
            dl_OriginalJobID dl = ev_ID ev \<and> dl_TenantID dl = ev_TenantID ev \<and>
            dl_AttemptCount dl = ev_AttemptCount ev + 1 \<and> dl_LastError dl = Some msg)"

lemma deliver_errors:
  "fst (deliver E ev w) = Inl err \<Longrightarrow> errors_Is err ErrNoEndpointConfigured \<longleftrightarrow> err = ErrNoEndpointConfigured"
  by (auto simp: deliver_def GetTenantWebhookConfig_def bindC_def wrapE_def pg_select_def pg_def ok_def raise_def go_now_def
      http_do_def ErrNoEndpointConfigured_def ErrDeliveryFailed_def
      split: fault.splits sum.splits option.splits prod.splits if_splits)

lemmas process_runs = bind_inc_run bind_go_now_run snd_attempt_ok

lemma ScheduleRetry_run:
  assumes "calm E" and "over_schema r"
  shows "ScheduleRetry_event E r i a t msg w = (Inr (), (step w)\<lparr>db := upd_row i (retried E a t msg) (db w)\<rparr>)"
  using assms
  by (simp add: ScheduleRetry_event_def ScheduleRetry_def wrapE_def pg_def calm_def on_queue_def over_schema_def
      update_job_def upd_row_def)

lemma MarkDelivered_run:
  assumes "calm E" and "over_schema r"
  shows "MarkDelivered_event E r i w = (Inr (), (step w)\<lparr>db := upd_row i (\<lambda>j. j\<lparr>job_Status := JobDelivered\<rparr>) (db w)\<rparr>)"
  using assms
  by (simp add: MarkDelivered_event_def MarkDelivered_def wrapE_def pg_def calm_def on_queue_def over_schema_def
      update_job_def upd_row_def)

lemma dead_letter_run:
  assumes "calm E" and "over_schema r" and "tenant_exists (db w) (ev_TenantID ev)"
    and "gen_random_uuid E (Suc (tick w)) \<notin> dl_ID ` set (dead_letter_events (db w))"
    and "err \<noteq> ErrNoEndpointConfigured" and "\<not> ev_AttemptCount ev + 1 < ws_maxAttempts s"
  shows "settled E s ev (Inl err) now (db w)
     (db (snd (in_tx E (\<lambda>e. e) (\<lambda>e. e) (MoveToDeadLetter_event E r (ev\<lparr>ev_AttemptCount := ev_AttemptCount ev + 1\<rparr>)
        (Error (pg_message E) err)) w)))"
proof -
  let ?dl = "\<lparr>dl_ID = gen_random_uuid E (Suc (tick w)), dl_TenantID = ev_TenantID ev, dl_OriginalJobID = ev_ID ev,
     dl_JobType = ev_EventType ev, dl_Payload = pg_jsonb E (ev_Payload ev), dl_AttemptCount = ev_AttemptCount ev + 1,
     dl_LastError = Some (Error (pg_message E) err), dl_FailedAt = pg_now E (tick w)\<rparr>"
  have "db (snd (in_tx E (\<lambda>e. e) (\<lambda>e. e) (MoveToDeadLetter_event E r (ev\<lparr>ev_AttemptCount := ev_AttemptCount ev + 1\<rparr>)
        (Error (pg_message E) err)) w)) =
      upd_row (ev_ID ev) (\<lambda>j. j\<lparr>job_Status := JobFailed, job_LastError := Some (Error (pg_message E) err)\<rparr>)
        ((db w)\<lparr>dead_letter_events := dead_letter_events (db w) @ [?dl]\<rparr>)"
    using assms(1-4)
    by (simp add: in_tx_def calm_def MoveToDeadLetter_event_def MoveToDeadLetter_def wrapE_def bindC_def pg_def sql_now_def
        on_dead_letter_def on_queue_def over_schema_def insert_dead_letter_def jobFromEvent_def update_job_def upd_row_def
        tenant_exists_def)
  with assms(5,6) show ?thesis by (simp add: settled_def Let_def) (intro exI [of _ ?dl], simp)
qed

lemma default_backoff_run:
  assumes "rand_lawful E" and "1 \<le> att" and "att \<le> 7"
  shows "\<exists>b. backoffForAttempt E (NewWebhookService r []) att w = (Inr b, step w) \<and>
     24 * 2 ^ nat (att - 1) * Second \<le> b \<and> b < 36 * 2 ^ nat (att - 1) * Second"
proof -
  define p :: int where "p = 2 ^ nat (att - 1)"
  have "p \<le> 2 ^ 6" unfolding p_def using assms by (intro power_increasing) simp_all
  moreover have "1 \<le> p" by (simp add: p_def)
  ultimately have p: "30 * p * Second div 5 = 6 * p * Second" "5 \<le> 30 * p * Second" "30 * p * Second \<le> 2 ^ 62"
    by (simp_all add: Second_def)
  have base: "ws_baseBackoff (NewWebhookService r []) = DefaultBaseBackoff" by (simp add: NewWebhookService_def)
  have d: "clamp_backoff (NewWebhookService r []) (scaled_backoff E DefaultBaseBackoff att) = 30 * p * Second"
    using default_clamp [OF assms(2), of r E] assms(3) \<open>p \<le> 2 ^ 6\<close> by (simp add: p_def [symmetric])
  from jitter_range [OF assms(1) p(2) fits64_spread [OF _ p(3)], of w] p(2) show ?thesis
    unfolding backoffForAttempt_def base d p(1) p_def [symmetric] by (simp add: algebra_simps)
qed

text \<open>
  C36. With a database that answers, an event the worker processes with the default settings never stays
  in flight: it is marked delivered when the receiver accepted it, put back with the same attempts when
  the tenant has no endpoint, put back with one attempt more and a delay within a fifth of the doubling
  backoff while attempts are left, and otherwise recorded in the dead-letter table and marked failed.
\<close>

theorem ProcessEvent_settles:
  assumes "calm E" and "over_schema r" and "rand_lawful E" and "0 \<le> ev_AttemptCount ev"
    and "tenant_exists (db w) (ev_TenantID ev)"
    and "deliver E ev w = (res, w1)"
    and "gen_random_uuid E (Suc (tick w1)) \<notin> dl_ID ` set (dead_letter_events (db w))"
  shows "settled E (NewWebhookService r []) ev res (time_Now E (tick w1)) (db w)
    (db (snd (ProcessEvent E (NewWebhookService r []) ev w)))"
proof -
  let ?s = "NewWebhookService r []"
  have same: "db w1 = db w" using keepsD [OF keeps_deliver assms(6)] .
  have svc: "ws_repo ?s = r" "ws_maxAttempts ?s = 5"
    by (simp_all add: NewWebhookService_def DefaultMaxAttempts_def)
  note run = bind_attempt_run [of "deliver E ev", OF assms(6)]
  show ?thesis
  proof (cases res)
    case (Inr u)
    then show ?thesis
      by (simp add: ProcessEvent_def run Let_def settled_def svc process_runs same MarkDelivered_run [OF assms(1,2)])
  next
    case (Inl err)
    have iff: "errors_Is err ErrNoEndpointConfigured \<longleftrightarrow> err = ErrNoEndpointConfigured"
      using deliver_errors [of E ev w err] assms(6) Inl by simp
    consider (none) "err = ErrNoEndpointConfigured"
      | (dead) "err \<noteq> ErrNoEndpointConfigured" "5 \<le> ev_AttemptCount ev + 1"
      | (retry) "err \<noteq> ErrNoEndpointConfigured" "ev_AttemptCount ev + 1 < 5" by linarith
    then show ?thesis
    proof cases
      case none
      then show ?thesis
        by (simp add: ProcessEvent_def run Let_def settled_def svc process_runs same Inl ScheduleRetry_run [OF assms(1,2)])
    next
      case dead
      let ?w = "w1\<lparr>counters := (counters w1)(WebhookDeadLetteredTotal := Suc (counters w1 WebhookDeadLetteredTotal))\<rparr>"
      from dead dead_letter_run [OF assms(1,2), of ?w ev err ?s "time_Now E (tick w1)"] assms(5,7) same
      show ?thesis by (simp add: ProcessEvent_def run Let_def svc process_runs Inl iff)
    next
      case retry
      let ?w = "step (w1\<lparr>counters := (counters w1)(WebhookRetriedTotal := Suc (counters w1 WebhookRetriedTotal))\<rparr>)"
      from default_backoff_run [OF assms(3), of "ev_AttemptCount ev + 1" r ?w] assms(4) retry
      obtain b where b: "backoffForAttempt E ?s (ev_AttemptCount ev + 1) ?w = (Inr b, step ?w)"
        "24 * 2 ^ nat (ev_AttemptCount ev) * Second \<le> b" "b < 36 * 2 ^ nat (ev_AttemptCount ev) * Second" by auto
      have brun: "bindC (backoffForAttempt E ?s (ev_AttemptCount ev + 1)) f ?w = f b (step ?w)"
        for f :: "duration \<Rightarrow> (world, error, unit) comp"
        by (rule bindC_run) (rule b(1))
      have "db (snd (ProcessEvent E ?s ev w)) =
          upd_row (ev_ID ev) (retried E (ev_AttemptCount ev + 1) (time_Now E (tick w1) + b) (Error (pg_message E) err)) (db w)"
        using retry brun
        by (simp add: ProcessEvent_def run Let_def svc process_runs same Inl iff ScheduleRetry_run [OF assms(1,2)])
      with b(2,3) retry Inl show ?thesis by (simp add: settled_def svc Let_def) blast
    qed
  qed
qed

lemma demo_rand: "rand_lawful demo_env"
  by (simp add: rand_lawful_def demo_env_def)

theorem ProcessEvent_settles_witness:
  "settled demo_env (wk_svc demo_worker) (eventFromJob (demo_job 2 10 JobProcessing))
     (fst (deliver demo_env (eventFromJob (demo_job 2 10 JobProcessing)) (demo_world demo_queue)))
     (time_Now demo_env (tick (snd (deliver demo_env (eventFromJob (demo_job 2 10 JobProcessing)) (demo_world demo_queue)))))
     demo_queue
     (db (snd (ProcessEvent demo_env (wk_svc demo_worker) (eventFromJob (demo_job 2 10 JobProcessing)) (demo_world demo_queue))))"
  using ProcessEvent_settles [of demo_env "ws_repo (wk_svc demo_worker)" "eventFromJob (demo_job 2 10 JobProcessing)"
      "demo_world demo_queue", OF demo_calm _ demo_rand _ _ surjective_pairing]
  by (simp add: demo_worker_def NewWorker_def NewWebhookService_def over_schema_def tenant_exists_def demo_queue_def
      demo_tenant_def demo_world_def demo_job_def empty_tables_def)

theorem ClaimPending_takes_the_first_due_witness:
  "\<exists>taken. set taken \<subseteq> set (filter (due (\<lambda>_. False) 100) [demo_job 1 20 JobPending, demo_job 2 10 JobPending]) \<and>
     set [demo_job 2 10 JobProcessing] = (\<lambda>j. j\<lparr>job_Status := JobProcessing\<rparr>) ` set taken"
proof -
  have env: "row_locked demo_env n = (\<lambda>_. False)" "pg_now demo_env 0 = 100" for n by (simp_all add: demo_env_def)
  have rows: "webhook_events (db (demo_world (d\<lparr>webhook_events := js\<rparr>))) = js" for d js by (simp add: demo_world_def)
  have now: "sql_now demo_env (demo_world d) = 100" for d by (simp add: sql_now_def demo_world_def env)
  have "distinct (map job_ID [demo_job 1 20 JobPending, demo_job 2 10 JobPending])" by (simp add: demo_job_def)
  from ClaimPending_takes_the_first_due [OF demo_claim, unfolded rows env now, OF this]
  show ?thesis by (elim exE conjE) (intro exI conjI)
qed

end
