(* ===== verification/Http.thy ===== *)
theory Http
  imports Models
begin

text \<open>
  \<open>net/http\<close> as far as the program uses it. A handler is a function of the request and the world; what
  it does to its \<open>ResponseWriter\<close> is the list of calls it makes on it, which a wrapping writer observes
  and the server turns into a response. A panic ends a handler after the calls it had made.
\<close>

section \<open>Requests\<close>

text \<open>
  \<open>rq_Body\<close> is \<open>None\<close> when reading the body fails before anything was read. \<open>rq_TenantID\<close> and \<open>rq_Claims\<close> are the values the program's own
  middleware puts into the request's context (\<open>tenants.WithTenantID\<close>, \<open>auth.WithClaims\<close>);
  \<open>rq_Route\<close> and \<open>rq_Param\<close> are what chi resolved: the matched pattern, empty for none, and its
  parameters, and \<open>rq_RequestID\<close> is the identifier its \<open>RequestID\<close> middleware gave the request.
\<close>

record Request =
  rq_Method :: string
  rq_Path :: string
  rq_Header :: "(string \<times> string) list"
  rq_Query :: "(string \<times> string) list"
  rq_Body :: "string option"
  rq_Route :: string
  rq_Param :: "string \<Rightarrow> string"
  rq_TenantID :: "uuid option"
  rq_Claims :: "Claims option"
  rq_RequestID :: string
  rq_RemoteAddr :: string

text \<open>\<open>Values.Get\<close>: the first value of a key, or the empty string.\<close>

definition first_value :: "(string \<times> string) list \<Rightarrow> string \<Rightarrow> string" where
  "first_value h k = (case map_of h k of None \<Rightarrow> '''' | Some v \<Rightarrow> v)"

text \<open>
  \<open>Header.Get\<close> looks a name up in its canonical form, in which the server stores the names of a request:
  the first letter and those after a hyphen in upper case, the rest in lower case; a name with a byte no
  header name may have is left as it is.
\<close>

definition letter :: "nat \<Rightarrow> char \<Rightarrow> bool" where
  "letter a c \<longleftrightarrow> a \<le> of_char c \<and> of_char c < a + 26"

definition validHeaderFieldByte :: "char \<Rightarrow> bool" where
  "validHeaderFieldByte c \<longleftrightarrow>
     letter 65 c \<or> letter 97 c \<or> (48 \<le> (of_char c :: nat) \<and> (of_char c :: nat) < 58) \<or>
     of_char c \<in> {33 :: nat, 35, 36, 37, 38, 39, 42, 43, 45, 46, 94, 95, 96, 124, 126}"

fun canonical_bytes :: "bool \<Rightarrow> string \<Rightarrow> string" where
  "canonical_bytes up [] = []"
| "canonical_bytes up (c # cs) =
     (if up \<and> letter 97 c then char_of (of_char c - 32 :: nat)
      else if \<not> up \<and> letter 65 c then char_of (of_char c + 32 :: nat) else c) #
     canonical_bytes (c = CHR ''-'') cs"

definition CanonicalHeaderKey :: "string \<Rightarrow> string" where
  "CanonicalHeaderKey k = (if list_all validHeaderFieldByte k then canonical_bytes True k else k)"

definition header_Get :: "(string \<times> string) list \<Rightarrow> string \<Rightarrow> string" where
  "header_Get h k = first_value h (CanonicalHeaderKey k)"

lemma canonical_names [simp]:
  "CanonicalHeaderKey ''Idempotency-Key'' = ''Idempotency-Key''"
  "CanonicalHeaderKey ''Authorization'' = ''Authorization''"
  "CanonicalHeaderKey ''X-API-Key'' = ''X-Api-Key''"
  by code_simp+

section \<open>Responses\<close>

datatype wcall = HeaderSet string string | HeaderDel string | WriteHeader int | Write string

datatype panic = ErrAbortHandler | Panic string

type_synonym served = "wcall list \<times> panic option \<times> world"
type_synonym http_Handler = "Request \<Rightarrow> world \<Rightarrow> served"

definition respond :: "wcall list \<Rightarrow> world \<Rightarrow> served" where
  "respond cs = (\<lambda>w. (cs, None, w))"

text \<open>Run a computation and go on with its result.\<close>

definition perform :: "(world, 'e, 'a) comp \<Rightarrow> ('e + 'a \<Rightarrow> world \<Rightarrow> served) \<Rightarrow> world \<Rightarrow> served" where
  "perform m k = (\<lambda>w. case m w of (r, w') \<Rightarrow> k r w')"

definition http_Error :: "string \<Rightarrow> int \<Rightarrow> wcall list" where
  "http_Error msg code =
     [HeaderDel ''Content-Length'', HeaderSet ''Content-Type'' ''text/plain; charset=utf-8'',
      HeaderSet ''X-Content-Type-Options'' ''nosniff'', WriteHeader code, Write (msg @ [CHR 0x0A])]"

text \<open>
  The server's \<open>ResponseWriter\<close>: the header map the handler edits, and what has been sent: the status
  and a copy of the headers at the first \<open>WriteHeader\<close> that is not informational or the first \<open>Write\<close>,
  and the body. A later \<open>WriteHeader\<close> is superfluous and changes nothing, and a body is dropped where
  the status allows none.
\<close>

record response =
  rs_live :: "(string \<times> string) list"
  rs_status :: "int option"
  rs_header :: "(string \<times> string) list"
  rs_body :: string

definition informational :: "int \<Rightarrow> bool" where
  "informational code \<longleftrightarrow> 100 \<le> code \<and> code \<le> 199 \<and> code \<noteq> 101"

definition bodyAllowed :: "int \<Rightarrow> bool" where
  "bodyAllowed code \<longleftrightarrow> \<not> (100 \<le> code \<and> code \<le> 199) \<and> code \<noteq> 204 \<and> code \<noteq> 304"

definition send_header :: "int \<Rightarrow> response \<Rightarrow> response" where
  "send_header code s =
     (if rs_status s \<noteq> None \<or> informational code then s
      else s\<lparr>rs_status := Some code, rs_header := rs_live s\<rparr>)"

fun on_call :: "wcall \<Rightarrow> response \<Rightarrow> response" where
  "on_call (HeaderSet k v) s = s\<lparr>rs_live := AList.update k v (rs_live s)\<rparr>"
| "on_call (HeaderDel k) s = s\<lparr>rs_live := AList.delete k (rs_live s)\<rparr>"
| "on_call (WriteHeader code) s = send_header code s"
| "on_call (Write b) s =
     (let s' = (if rs_status s = None then send_header 200 s else s) in
      if bodyAllowed (the (rs_status s')) then s'\<lparr>rs_body := rs_body s' @ b\<rparr> else s')"

definition fresh_response :: response where
  "fresh_response = \<lparr>rs_live = [], rs_status = None, rs_header = [], rs_body = ''''\<rparr>"

text \<open>What the client receives once the handler has returned.\<close>

definition client_view :: "wcall list \<Rightarrow> int \<times> (string \<times> string) list \<times> string" where
  "client_view cs =
     (let s = fold on_call cs fresh_response;
          s' = (if rs_status s = None then send_header 200 s else s)
      in (the (rs_status s'), rs_header s', rs_body s'))"

section \<open>Calls of a well-behaved handler\<close>

text \<open>
  \<open>one_status code body cs\<close>: the calls set headers, write the status once, and then only write, in all
  the bytes \<open>body\<close>.
\<close>

fun only_writes :: "string \<Rightarrow> wcall list \<Rightarrow> bool" where
  "only_writes b [] = (b = '''')"
| "only_writes b (Write x # cs) = (take (length x) b = x \<and> only_writes (drop (length x) b) cs)"
| "only_writes b (_ # cs) = False"

fun one_status :: "int \<Rightarrow> string \<Rightarrow> wcall list \<Rightarrow> bool" where
  "one_status code b (HeaderSet k v # cs) = one_status code b cs"
| "one_status code b (HeaderDel k # cs) = one_status code b cs"
| "one_status code b (WriteHeader c # cs) = (c = code \<and> only_writes b cs)"
| "one_status code b _ = False"

lemma only_writes_fold:
  "only_writes b cs \<Longrightarrow> rs_status s = Some code \<Longrightarrow> bodyAllowed code \<Longrightarrow>
   fold on_call cs s = s\<lparr>rs_body := rs_body s @ b\<rparr>"
proof (induction b cs arbitrary: s rule: only_writes.induct)
  case (2 b x cs)
  then have "x @ drop (length x) b = b" by (metis append_take_drop_id only_writes.simps(2))
  with 2 show ?case by (simp add: Let_def)
qed simp_all

lemma bodyAllowed_not_informational: "bodyAllowed code \<Longrightarrow> \<not> informational code"
  by (auto simp: bodyAllowed_def informational_def)

lemma one_status_fold:
  assumes "one_status code b cs" and "bodyAllowed code" and "rs_status s = None" and "rs_body s = ''''"
  shows "rs_status (fold on_call cs s) = Some code \<and> rs_body (fold on_call cs s) = b"
  using assms
proof (induction code b cs arbitrary: s rule: one_status.induct)
  case (3 code b c cs)
  then have "fold on_call cs (send_header code s) = (send_header code s)\<lparr>rs_body := b\<rparr>"
    using only_writes_fold [of b cs "send_header code s" code] bodyAllowed_not_informational
    by (simp add: send_header_def)
  with 3 show ?case using bodyAllowed_not_informational by (simp add: send_header_def)
qed simp_all

lemma client_view_one_status:
  assumes "one_status code b cs" and "bodyAllowed code"
  shows "\<exists>h. client_view cs = (code, h, b)"
  using one_status_fold [OF assms, of fresh_response]
  by (simp add: client_view_def Let_def fresh_response_def)

end
