(* ===== verification/Idempotency.thy ===== *)
theory Idempotency
  imports Http
begin

text \<open>
  \<open>internal/middleware/idempotency\<close>: the store of idempotency keys and the middleware that claims a
  key, runs the handler once, records its response and replays it. The interface \<open>Store\<close> between
  the two is a record of operations; the locale at the end states what the middleware relies on,
  and is interpreted for the Postgres repository.
\<close>

section \<open>Errors\<close>

definition ErrMissingKey :: error where
  "ErrMissingKey = New ''idempotency: Idempotency-Key header is required''"
definition ErrKeyReused :: error where
  "ErrKeyReused = New ''idempotency: key reused with a different request payload''"
definition ErrInFlight :: error where
  "ErrInFlight = New ''idempotency: a request with this key is still being processed''"
definition ErrClaimSuperseded :: error where
  "ErrClaimSuperseded =
     New ''idempotency: claim was superseded by another server before this result could be persisted''"

section \<open>Repository\<close>

definition record_for :: "uuid \<Rightarrow> string \<Rightarrow> Record \<Rightarrow> bool" where
  "record_for t k r \<longleftrightarrow> rec_TenantID r = t \<and> rec_Key r = k"

text \<open>
  The claim: insert a new record, or take over one whose \<open>expires_at\<close> has passed; otherwise no row
  comes back. The parameters \<open>$4\<close> and \<open>$5\<close> are rounded to the precision of a \<open>timestamptz\<close>.
\<close>

definition reclaimed :: "env \<Rightarrow> string \<Rightarrow> instant \<Rightarrow> instant \<Rightarrow> Record \<Rightarrow> Record" where
  "reclaimed E requestHash now expiresAt r =
     r\<lparr>rec_RequestHash := requestHash, rec_Status := IdemProcessing, rec_ResponseCode := None,
       rec_ResponseBody := None, rec_CreatedAt := pg_timestamptz E now,
       rec_ExpiresAt := pg_timestamptz E expiresAt\<rparr>"

definition claim_record :: "env \<Rightarrow> uuid \<Rightarrow> string \<Rightarrow> string \<Rightarrow> instant \<Rightarrow> instant \<Rightarrow> Record stmt" where
  "claim_record E tenantID key requestHash now expiresAt pgnow uid d =
     (case find (record_for tenantID key) (idempotency_keys d) of
        None \<Rightarrow>
          if uid \<in> rec_ID ` set (idempotency_keys d) then Inl (UniqueViolation ''idempotency_keys_pkey'')
          else if \<not> tenant_exists d tenantID
            then Inl (ForeignKeyViolation ''idempotency_keys_tenant_id_fkey'')
          else let r = \<lparr>rec_ID = uid, rec_TenantID = tenantID, rec_Key = key,
                 rec_RequestHash = requestHash, rec_Status = IdemProcessing, rec_ResponseCode = None,
                 rec_ResponseBody = None, rec_CreatedAt = pg_timestamptz E now,
                 rec_ExpiresAt = pg_timestamptz E expiresAt\<rparr>
               in Inr (r, d\<lparr>idempotency_keys := idempotency_keys d @ [r]\<rparr>)
      | Some r \<Rightarrow>
          if rec_ExpiresAt r < pg_timestamptz E now
          then Inr (reclaimed E requestHash now expiresAt r,
                 d\<lparr>idempotency_keys := map (\<lambda>x. if record_for tenantID key x
                     then reclaimed E requestHash now expiresAt x else x) (idempotency_keys d)\<rparr>)
          else Inl NoRows)"

definition select_record :: "uuid \<Rightarrow> string \<Rightarrow> tables \<Rightarrow> pg_error + Record" where
  "select_record tenantID key d =
     (case find (record_for tenantID key) (idempotency_keys d) of None \<Rightarrow> Inl NoRows | Some r \<Rightarrow> Inr r)"

definition Get_record :: "env \<Rightarrow> uuid \<Rightarrow> string \<Rightarrow> (world, error, Record) comp" where
  "Get_record E tenantID key =
     wrapE (\<lambda>e. if errors_Is e (Pg NoRows)
              then New (''idempotency: no record for key '' @ strconv_Quote (unicode_IsPrint E) key)
              else Errorf ''idempotency: get: '' e '''')
       (pg_select E (select_record tenantID key))"

definition ClaimOrGet ::
  "env \<Rightarrow> uuid \<Rightarrow> string \<Rightarrow> string \<Rightarrow> duration \<Rightarrow> (world, error, Record \<times> bool) comp" where
  "ClaimOrGet E tenantID key requestHash leaseTTL =
     bindC (go_now E) (\<lambda>now.
     bindC (attempt (pg E (claim_record E tenantID key requestHash now (now + leaseTTL)))) (\<lambda>res.
       case res of
         Inr r \<Rightarrow> ok (r, True)
       | Inl err \<Rightarrow>
           if \<not> errors_Is err (Pg NoRows) then raise (Errorf ''idempotency: claim: '' err '''')
           else bindC (Get_record E tenantID key) (\<lambda>existing. ok (existing, False))))"

text \<open>
  \<open>Complete\<close> carries the claim's \<open>created_at\<close> as a fencing token. An empty response body is a nil
  slice, stored as \<open>NULL\<close>.
\<close>

definition completed :: "env \<Rightarrow> int \<Rightarrow> string \<Rightarrow> instant \<Rightarrow> Record \<Rightarrow> Record" where
  "completed E responseCode responseBody expiresAt r =
     r\<lparr>rec_Status := IdemCompleted, rec_ResponseCode := Some responseCode,
       rec_ResponseBody := (if responseBody = '''' then None else Some responseBody),
       rec_ExpiresAt := pg_timestamptz E expiresAt\<rparr>"

definition fenced :: "env \<Rightarrow> uuid \<Rightarrow> string \<Rightarrow> instant \<Rightarrow> Record \<Rightarrow> bool" where
  "fenced E tenantID key claimedAt r \<longleftrightarrow>
     record_for tenantID key r \<and> rec_CreatedAt r = pg_timestamptz E claimedAt"

definition complete_record ::
  "env \<Rightarrow> uuid \<Rightarrow> string \<Rightarrow> int \<Rightarrow> string \<Rightarrow> instant \<Rightarrow> instant \<Rightarrow> nat stmt" where
  "complete_record E tenantID key responseCode responseBody expiresAt claimedAt pgnow uid d =
     Inr (length (filter (fenced E tenantID key claimedAt) (idempotency_keys d)),
       d\<lparr>idempotency_keys := map (\<lambda>r. if fenced E tenantID key claimedAt r
           then completed E responseCode responseBody expiresAt r else r) (idempotency_keys d)\<rparr>)"

definition Complete ::
  "env \<Rightarrow> uuid \<Rightarrow> string \<Rightarrow> int \<Rightarrow> string \<Rightarrow> duration \<Rightarrow> instant \<Rightarrow> (world, error, unit) comp" where
  "Complete E tenantID key responseCode responseBody retentionTTL claimedAt =
     bindC (go_now E) (\<lambda>now.
     bindC (wrapE (\<lambda>e. Errorf ''idempotency: complete: '' e '''')
              (pg E (complete_record E tenantID key responseCode responseBody (now + retentionTTL) claimedAt)))
       (\<lambda>n. if n = 0 then raise ErrClaimSuperseded else ok ()))"

section \<open>Middleware\<close>

definition HeaderKey :: string where "HeaderKey = ''Idempotency-Key''"

definition DefaultTTL :: duration where "DefaultTTL = 24 * 3600 * 1000000000"
definition DefaultProcessingLease :: duration where "DefaultProcessingLease = 30 * 1000000000"
definition completeRetryAttempts :: nat where "completeRetryAttempts = 3"

record Store =
  st_ClaimOrGet :: "uuid \<Rightarrow> string \<Rightarrow> string \<Rightarrow> duration \<Rightarrow> (world, error, Record \<times> bool) comp"
  st_Complete :: "uuid \<Rightarrow> string \<Rightarrow> int \<Rightarrow> string \<Rightarrow> duration \<Rightarrow> instant \<Rightarrow> (world, error, unit) comp"

definition IdemRepository :: "env \<Rightarrow> Store" where
  "IdemRepository E = \<lparr>st_ClaimOrGet = ClaimOrGet E, st_Complete = Complete E\<rparr>"

record options =
  processingLease :: duration

definition WithProcessingLease :: "duration \<Rightarrow> options \<Rightarrow> options" where
  "WithProcessingLease d o' = o'\<lparr>processingLease := d\<rparr>"

definition requestHash :: "string \<Rightarrow> string \<Rightarrow> string \<Rightarrow> string" where
  "requestHash method path body = hex_EncodeToString (sha256_Sum256 (method @ path @ body))"

text \<open>\<open>responseRecorder\<close>: the wrapping writer, which remembers the status and the body.\<close>

record responseRecorder =
  rr_statusCode :: int
  rr_body :: string
  rr_wroteHead :: bool

fun responseRecorder_call :: "wcall \<Rightarrow> responseRecorder \<Rightarrow> responseRecorder" where
  "responseRecorder_call (WriteHeader code) r = r\<lparr>rr_statusCode := code, rr_wroteHead := True\<rparr>"
| "responseRecorder_call (Write b) r =
     (let r' = (if \<not> rr_wroteHead r then r\<lparr>rr_statusCode := 200\<rparr> else r)
      in r'\<lparr>rr_body := rr_body r' @ b\<rparr>)"
| "responseRecorder_call _ r = r"

definition recorded_response :: "wcall list \<Rightarrow> responseRecorder" where
  "recorded_response cs =
     fold responseRecorder_call cs \<lparr>rr_statusCode = 200, rr_body = '''', rr_wroteHead = False\<rparr>"

text \<open>
  The attempts to persist the response: an error is retried, a superseded claim is not. The pauses
  between the attempts and the log lines have no effect here.
\<close>

primrec complete_attempts :: "nat \<Rightarrow> (world, error, unit) comp \<Rightarrow> (world, error, unit) comp" where
  "complete_attempts 0 complete = ok ()"
| "complete_attempts (Suc n) complete =
     bindC (attempt complete) (\<lambda>res.
       case res of
         Inr _ \<Rightarrow> ok ()
       | Inl err \<Rightarrow> if errors_Is err ErrClaimSuperseded then ok () else complete_attempts n complete)"

definition completeWithRetry ::
  "Store \<Rightarrow> uuid \<Rightarrow> string \<Rightarrow> int \<Rightarrow> string \<Rightarrow> duration \<Rightarrow> instant \<Rightarrow> (world, error, unit) comp" where
  "completeWithRetry store tenantID key responseCode responseBody retentionTTL claimedAt =
     complete_attempts completeRetryAttempts
       (st_Complete store tenantID key responseCode responseBody retentionTTL claimedAt)"

definition handleExisting :: "Record \<Rightarrow> string \<Rightarrow> wcall list" where
  "handleExisting r hash =
     (if rec_RequestHash r \<noteq> hash then http_Error (Error (\<lambda>_. '''') ErrKeyReused) 422
      else if rec_Status r = IdemProcessing then http_Error (Error (\<lambda>_. '''') ErrInFlight) 409
      else [HeaderSet ''Idempotency-Replayed'' ''true'',
            WriteHeader (case rec_ResponseCode r of None \<Rightarrow> 200 | Some code \<Rightarrow> code),
            Write (case rec_ResponseBody r of None \<Rightarrow> '''' | Some b \<Rightarrow> b)])"

definition run_claimed :: "Store \<Rightarrow> duration \<Rightarrow> uuid \<Rightarrow> string \<Rightarrow> instant \<Rightarrow> http_Handler \<Rightarrow> http_Handler" where
  "run_claimed store retentionTTL tenantID key claimedAt next r = (\<lambda>w.
     case next r w of
       (calls, Some p, w') \<Rightarrow> (calls, Some p, w')
     | (calls, None, w') \<Rightarrow>
         let rw = recorded_response calls in
         (calls, None, snd (completeWithRetry store tenantID key (rr_statusCode rw) (rr_body rw)
                              retentionTTL claimedAt w')))"

definition idempotency_Middleware ::
  "Store \<Rightarrow> duration \<Rightarrow> (options \<Rightarrow> options) list \<Rightarrow> http_Handler \<Rightarrow> http_Handler" where
  "idempotency_Middleware store ttl opts next r =
     (let retentionTTL = (if ttl \<le> 0 then DefaultTTL else ttl);
          o' = fold (\<lambda>opt x. opt x) opts \<lparr>processingLease = DefaultProcessingLease\<rparr>;
          key = header_Get (rq_Header r) HeaderKey
      in if key = '''' then respond (http_Error (Error (\<lambda>_. '''') ErrMissingKey) 400)
         else case rq_TenantID r of
           None \<Rightarrow> respond (http_Error ''idempotency: no tenant in request context'' 500)
         | Some tenantID \<Rightarrow>
             (case rq_Body r of
                None \<Rightarrow> respond (http_Error ''failed to read request body'' 400)
              | Some bodyBytes \<Rightarrow>
                  let hash = requestHash (rq_Method r) (rq_Path r) bodyBytes in
                  perform (st_ClaimOrGet store tenantID key hash (processingLease o')) (\<lambda>res.
                    case res of
                      Inl err \<Rightarrow> respond (http_Error ''idempotency check failed'' 500)
                    | Inr (existing, claimed) \<Rightarrow>
                        if \<not> claimed then respond (handleExisting existing hash)
                        else run_claimed store retentionTTL tenantID key (rec_CreatedAt existing) next r)))"

section \<open>What the middleware relies on\<close>

definition record_of :: "tables \<Rightarrow> uuid \<Rightarrow> string \<Rightarrow> Record option" where
  "record_of d t k = find (record_for t k) (idempotency_keys d)"

definition body_of :: "Record \<Rightarrow> string" where
  "body_of r = (case rec_ResponseBody r of None \<Rightarrow> '''' | Some b \<Rightarrow> b)"

text \<open>\<open>answers r h c b\<close>: the record holds the response \<open>c\<close>, \<open>b\<close> to the request with hash \<open>h\<close>.\<close>

definition answers :: "Record \<Rightarrow> string \<Rightarrow> int \<Rightarrow> string \<Rightarrow> bool" where
  "answers r h c b \<longleftrightarrow> rec_RequestHash r = h \<and> rec_Status r = IdemCompleted \<and> rec_ResponseCode r = Some c \<and> body_of r = b"

text \<open>The table's unique constraint on \<open>(tenant_id, key)\<close>.\<close>

definition keys_unique :: "tables \<Rightarrow> bool" where
  "keys_unique d \<longleftrightarrow> distinct (map (\<lambda>r. (rec_TenantID r, rec_Key r)) (idempotency_keys d))"

text \<open>
  \<open>view\<close> is the record a key has, \<open>inv\<close> the invariant of the store's own data, and \<open>stamp\<close> how it keeps
  a time.
\<close>

locale idem_store =
  fixes store :: Store and view :: "tables \<Rightarrow> uuid \<Rightarrow> string \<Rightarrow> Record option" and inv :: "tables \<Rightarrow> bool"
    and stamp :: "instant \<Rightarrow> instant"
  assumes claim_inv: "inv (db w) \<Longrightarrow> inv (db (snd (st_ClaimOrGet store t k h lease w)))"
    and complete_inv: "inv (db w) \<Longrightarrow> inv (db (snd (st_Complete store t k c b ttl at w)))"
    and claim_wins: "st_ClaimOrGet store t k h lease w = (Inr (r, True), w') \<Longrightarrow>
      view (db w') t k = Some r \<and> rec_RequestHash r = h \<and> rec_Status r = IdemProcessing"
    and claim_loses: "st_ClaimOrGet store t k h lease w = (Inr (r, False), w') \<Longrightarrow>
      view (db w) t k = Some r \<and> db w' = db w"
    and claim_other: "(t', k') \<noteq> (t, k) \<Longrightarrow>
      view (db (snd (st_ClaimOrGet store t k h lease w))) t' k' = view (db w) t' k'"
    and complete_stores: "inv (db w) \<Longrightarrow> st_Complete store t k c b ttl at w = (Inr u, w') \<Longrightarrow>
      \<exists>r r'. view (db w) t k = Some r \<and> rec_CreatedAt r = stamp at \<and> view (db w') t k = Some r' \<and>
        answers r' (rec_RequestHash r) c b \<and> rec_CreatedAt r' = rec_CreatedAt r"
    and complete_other: "(t', k') \<noteq> (t, k) \<Longrightarrow>
      view (db (snd (st_Complete store t k c b ttl at w))) t' k' = view (db w) t' k'"
    and complete_fenced: "inv (db w) \<Longrightarrow> view (db w) t k = Some r \<Longrightarrow> rec_CreatedAt r \<noteq> stamp at \<Longrightarrow>
      db (snd (st_Complete store t k c b ttl at w)) = db w"
begin

text \<open>A request whose key is live is answered from the record: the handler does not run.\<close>

lemma live_key_answered:
  assumes "header_Get (rq_Header rq) HeaderKey = key" and "key \<noteq> ''''"
    and "rq_TenantID rq = Some t" and "rq_Body rq = Some body"
    and "st_ClaimOrGet store t key (requestHash (rq_Method rq) (rq_Path rq) body) DefaultProcessingLease w = (Inr (r, False), w')"
  shows "idempotency_Middleware store ttl [] nxt rq w =
      (handleExisting r (requestHash (rq_Method rq) (rq_Path rq) body), None, w') \<and>
    db w' = db w \<and> view (db w) t key = Some r"
  using assms claim_loses [OF assms(5)]
  by (simp add: idempotency_Middleware_def perform_def respond_def Let_def)

text \<open>
  A request that wins the claim runs the handler once and, when a \<open>Complete\<close> gets through at the first
  attempt, leaves a record that answers the same request with what the recorder saw.
\<close>

lemma claimed_key_runs:
  assumes "header_Get (rq_Header rq) HeaderKey = key" and "key \<noteq> ''''"
    and "rq_TenantID rq = Some t" and "rq_Body rq = Some body"
    and "h = requestHash (rq_Method rq) (rq_Path rq) body"
    and "st_ClaimOrGet store t key h DefaultProcessingLease w = (Inr (r, True), w1)"
    and "nxt rq w1 = (calls, None, w2)" and "inv (db w2)" and "view (db w2) t key = view (db w1) t key"
    and "st_Complete store t key (rr_statusCode (recorded_response calls)) (rr_body (recorded_response calls))
           (if ttl \<le> 0 then DefaultTTL else ttl) (rec_CreatedAt r) w2 = (Inr u, w3)"
  shows "idempotency_Middleware store ttl [] nxt rq w = (calls, None, w3) \<and>
    (\<exists>r'. view (db w3) t key = Some r' \<and>
       answers r' h (rr_statusCode (recorded_response calls)) (rr_body (recorded_response calls)))"
proof -
  have run: "snd (completeWithRetry store t key (rr_statusCode (recorded_response calls)) (rr_body (recorded_response calls))
           (if ttl \<le> 0 then DefaultTTL else ttl) (rec_CreatedAt r) w2) = w3"
    using assms(10)
    by (simp add: completeWithRetry_def completeRetryAttempts_def numeral_3_eq_3 bindC_def attempt_def ok_def)
  then have "idempotency_Middleware store ttl [] nxt rq w = (calls, None, w3)"
    using assms(1-7) by (simp add: idempotency_Middleware_def perform_def respond_def Let_def run_claimed_def)
  moreover have "\<exists>r'. view (db w3) t key = Some r' \<and>
       answers r' h (rr_statusCode (recorded_response calls)) (rr_body (recorded_response calls))"
    using complete_stores [OF assms(8,10)] claim_wins [OF assms(6)] assms(9) by auto
  ultimately show ?thesis by blast
qed

end

section \<open>The Postgres repository honours the contract\<close>

lemma record_for_updates [simp]:
  "record_for t k (reclaimed E h now ex r) = record_for t k r"
  "record_for t k (completed E c b ex r) = record_for t k r"
  by (simp_all add: record_for_def reclaimed_def completed_def)

lemma record_of_upd:
  assumes "\<And>t k x. record_for t k (f x) = record_for t k x"
  shows "record_of (d\<lparr>idempotency_keys := map (\<lambda>x. if record_for t k x \<and> P x then f x else x) (idempotency_keys d)\<rparr>) t' k' =
    (if (t', k') = (t, k) then map_option (\<lambda>x. if P x then f x else x) (record_of d t k) else record_of d t' k')"
proof -
  have "find (record_for t' k') (map (\<lambda>x. if record_for t k x \<and> P x then f x else x) xs) =
      (if (t', k') = (t, k) then map_option (\<lambda>x. if P x then f x else x) (find (record_for t k) xs)
       else find (record_for t' k') xs)" for xs
    using assms by (induction xs) (auto simp: record_for_def)
  then show ?thesis by (simp add: record_of_def)
qed

lemma record_of_append:
  "record_of (d\<lparr>idempotency_keys := idempotency_keys d @ [r]\<rparr>) t k =
   (case record_of d t k of None \<Rightarrow> if record_for t k r then Some r else None | Some x \<Rightarrow> Some x)"
  by (simp add: record_of_def find_append split: option.splits)

lemma claim_record_InrD:
  assumes "claim_record E t k h now ex pgnow uid d = Inr (r, d')"
  shows "record_of d' t' k' = (if (t', k') = (t, k) then Some r else record_of d t' k')"
    and "rec_RequestHash r = h" and "rec_Status r = IdemProcessing"
    and "rec_CreatedAt r = pg_timestamptz E now" and "rec_ExpiresAt r = pg_timestamptz E ex"
    and "case record_of d t k of None \<Rightarrow> True | Some r \<Rightarrow> rec_ExpiresAt r < pg_timestamptz E now"
proof -
  note upd = record_of_upd [where f = "reclaimed E h now ex" and P = "\<lambda>_. True", simplified]
  show "record_of d' t' k' = (if (t', k') = (t, k) then Some r else record_of d t' k')"
  proof (cases "record_of d t k")
    case None
    with assms have "d' = d\<lparr>idempotency_keys := idempotency_keys d @ [r]\<rparr>" "record_for t' k' r \<longleftrightarrow> (t', k') = (t, k)"
      by (auto simp: claim_record_def record_of_def record_for_def Let_def split: if_splits)
    with None show ?thesis by (auto simp: record_of_append split: option.splits)
  next
    case (Some x)
    with assms have "d' = d\<lparr>idempotency_keys := map (\<lambda>x. if record_for t k x then reclaimed E h now ex x else x)
        (idempotency_keys d)\<rparr>" "r = reclaimed E h now ex x"
      by (auto simp: claim_record_def record_of_def split: if_splits)
    with Some show ?thesis by (simp add: upd)
  qed
  show "rec_RequestHash r = h" "rec_Status r = IdemProcessing"
    "rec_CreatedAt r = pg_timestamptz E now" "rec_ExpiresAt r = pg_timestamptz E ex"
    "case record_of d t k of None \<Rightarrow> True | Some r \<Rightarrow> rec_ExpiresAt r < pg_timestamptz E now"
    using assms
    by (auto simp: claim_record_def record_of_def Let_def reclaimed_def split: option.splits if_splits)
qed

lemma complete_record_InrD:
  assumes "complete_record E t k c b ex at pgnow uid d = Inr (n, d')"
  shows "record_of d' t' k' = (if (t', k') = (t, k)
      then map_option (\<lambda>r. if rec_CreatedAt r = pg_timestamptz E at then completed E c b ex r else r) (record_of d t k)
      else record_of d t' k')"
    and "n = 0 \<Longrightarrow> d' = d"
    and "n \<noteq> 0 \<Longrightarrow> \<exists>r \<in> set (idempotency_keys d). fenced E t k at r"
proof -
  show "record_of d' t' k' = (if (t', k') = (t, k)
      then map_option (\<lambda>r. if rec_CreatedAt r = pg_timestamptz E at then completed E c b ex r else r) (record_of d t k)
      else record_of d t' k')"
  proof -
    from assms have "d' = d\<lparr>idempotency_keys := map (\<lambda>r. if record_for t k r \<and> rec_CreatedAt r = pg_timestamptz E at
        then completed E c b ex r else r) (idempotency_keys d)\<rparr>"
      by (simp add: complete_record_def fenced_def [abs_def])
    then show ?thesis
      using record_of_upd [where f = "completed E c b ex" and P = "\<lambda>r. rec_CreatedAt r = pg_timestamptz E at"] by simp
  qed
  have same: "map (\<lambda>r. if fenced E t k at r then completed E c b ex r else r) xs = xs"
    if "\<not> list_ex (fenced E t k at) xs" for xs using that by (induction xs) auto
  have none: "length (filter P xs) = 0 \<longleftrightarrow> \<not> list_ex P xs" for P and xs :: "Record list" by (induction xs) auto
  show "d' = d" if "n = 0"
    using assms that none [of "fenced E t k at"] by (auto simp: complete_record_def same)
  show "\<exists>r \<in> set (idempotency_keys d). fenced E t k at r" if "n \<noteq> 0"
    using assms that none [of "fenced E t k at" "idempotency_keys d"] by (simp add: complete_record_def list_ex_iff)
qed

lemma keys_unique_record:
  "keys_unique d \<Longrightarrow> r \<in> set (idempotency_keys d) \<Longrightarrow> record_for t k r \<Longrightarrow> record_of d t k = Some r"
proof -
  have "distinct (map (\<lambda>r. (rec_TenantID r, rec_Key r)) xs) \<Longrightarrow> r \<in> set xs \<Longrightarrow> record_for t k r \<Longrightarrow>
      find (record_for t k) xs = Some r" for xs
    by (induction xs) (auto simp: record_for_def image_iff)
  then show "keys_unique d \<Longrightarrow> r \<in> set (idempotency_keys d) \<Longrightarrow> record_for t k r \<Longrightarrow> record_of d t k = Some r"
    by (simp add: keys_unique_def record_of_def)
qed

lemma keys_unique_upd:
  "(\<And>x. rec_TenantID (f x) = rec_TenantID x \<and> rec_Key (f x) = rec_Key x) \<Longrightarrow>
   keys_unique (d\<lparr>idempotency_keys := map (\<lambda>x. if P x then f x else x) (idempotency_keys d)\<rparr>) = keys_unique d"
proof -
  assume f: "\<And>x. rec_TenantID (f x) = rec_TenantID x \<and> rec_Key (f x) = rec_Key x"
  have "map (\<lambda>r. (rec_TenantID r, rec_Key r)) (map (\<lambda>x. if P x then f x else x) xs) = map (\<lambda>r. (rec_TenantID r, rec_Key r)) xs"
    for xs using f by (induction xs) auto
  then show ?thesis unfolding keys_unique_def by (simp del: map_map)
qed

lemma claim_record_unique:
  assumes "claim_record E t k h now ex pgnow uid d = Inr (r, d')" and "keys_unique d"
  shows "keys_unique d'"
proof (cases "find (record_for t k) (idempotency_keys d)")
  case None
  then have "(t, k) \<notin> set (map (\<lambda>r. (rec_TenantID r, rec_Key r)) (idempotency_keys d))"
    by (auto simp: find_None_iff record_for_def)
  moreover from None assms(1) have "idempotency_keys d' = idempotency_keys d @ [r]" "rec_TenantID r = t" "rec_Key r = k"
    by (auto simp: claim_record_def Let_def split: if_splits)
  ultimately show ?thesis using assms(2) by (simp add: keys_unique_def)
next
  case (Some x)
  then have "d' = d\<lparr>idempotency_keys := map (\<lambda>x. if record_for t k x then reclaimed E h now ex x else x) (idempotency_keys d)\<rparr>"
    using assms(1) by (simp add: claim_record_def split: if_splits)
  with assms(2) keys_unique_upd [where f = "reclaimed E h now ex"] show ?thesis
    by (simp add: reclaimed_def)
qed

lemma complete_record_unique:
  assumes "complete_record E t k c b ex at pgnow uid d = Inr (n, d')" and "keys_unique d"
  shows "keys_unique d'"
  using assms keys_unique_upd [where f = "completed E c b ex"]
  by (auto simp: complete_record_def completed_def)

text \<open>What the two operations do, whatever fails.\<close>

lemma claim_record_NoRows:
  assumes "claim_record E t k h now ex pgnow uid d = Inl NoRows"
  shows "\<exists>r. select_record t k d = Inr r \<and> record_of d t k = Some r \<and> \<not> rec_ExpiresAt r < pg_timestamptz E now"
  using assms
  by (auto simp: claim_record_def select_record_def record_of_def Let_def split: option.splits if_splits)

lemma ClaimOrGet_cases:
  assumes "ClaimOrGet E t k h lease w = (res, w')"
  obtains (claimed) r pgnow uid where
      "claim_record E t k h (time_Now E (tick w)) (time_Now E (tick w) + lease) pgnow uid (db w) = Inr (r, db w')"
      "res = Inr (r, True) \<or> (\<exists>e. res = Inl e)"
    | (live) r where "res = Inr (r, False)" "db w' = db w" "record_of (db w) t k = Some r"
        "\<not> rec_ExpiresAt r < pg_timestamptz E (time_Now E (tick w))"
    | (failed) e where "res = Inl e" "db w' = db w"
proof -
  let ?c = "claim_record E t k h (time_Now E (tick w)) (time_Now E (tick w) + lease)"
  let ?w = "step w"
  have "(\<exists>r pgnow uid. ?c pgnow uid (db w) = Inr (r, db w') \<and> (res = Inr (r, True) \<or> (\<exists>e. res = Inl e))) \<or>
    (\<exists>r. res = Inr (r, False) \<and> db w' = db w \<and> record_of (db w) t k = Some r \<and>
        \<not> rec_ExpiresAt r < pg_timestamptz E (time_Now E (tick w))) \<or>
    (\<exists>e. res = Inl e \<and> db w' = db w)"
    using assms
    by (auto simp: ClaimOrGet_def Get_record_def bindC_def go_now_def attempt_def pg_def pg_select_def wrapE_def ok_def raise_def
        split: fault.splits sum.splits prod.splits if_splits dest!: claim_record_NoRows)
  then show thesis using claimed live failed by blast
qed

lemma Complete_cases:
  assumes "Complete E t k c b ttl at w = (res, w')"
  obtains (written) n pgnow uid where
      "complete_record E t k c b (time_Now E (tick w) + ttl) at pgnow uid (db w) = Inr (n, db w')"
      "res = (if n = 0 then Inl ErrClaimSuperseded else Inr ()) \<or> (\<exists>e. res = Inl e)"
    | (failed) e where "res = Inl e" "db w' = db w"
proof -
  obtain n d' where q: "complete_record E t k c b (time_Now E (tick w) + ttl) at (sql_now E (step w))
      (gen_random_uuid E (Suc (tick w))) (db w) = Inr (n, d')"
    by (simp add: complete_record_def)
  show thesis
  proof (cases "outcome E (Suc (tick w))")
    case Done
    with assms q have "db w' = d'" "res = (if n = 0 then Inl ErrClaimSuperseded else Inr ())"
      by (auto simp: Complete_def bindC_def go_now_def pg_def wrapE_def ok_def raise_def split: if_splits)
    with q show thesis using written by blast
  next
    case Failed
    with assms have "db w' = db w" "\<exists>e. res = Inl e"
      by (auto simp: Complete_def bindC_def go_now_def pg_def wrapE_def)
    then show thesis using failed by blast
  next
    case Lost
    with assms q have "db w' = d'" "\<exists>e. res = Inl e"
      by (auto simp: Complete_def bindC_def go_now_def pg_def wrapE_def)
    with q show thesis using written by blast
  qed
qed

lemma Complete_view:
  assumes "Complete E t k c b ttl at w = (res, w')"
  shows "record_of (db w') t k = record_of (db w) t k \<or>
      record_of (db w') t k = map_option (\<lambda>r. if rec_CreatedAt r = pg_timestamptz E at
        then completed E c b (time_Now E (tick w) + ttl) r else r) (record_of (db w) t k)"
    and "(t', k') \<noteq> (t, k) \<Longrightarrow> record_of (db w') t' k' = record_of (db w) t' k'"
proof -
  show "record_of (db w') t k = record_of (db w) t k \<or>
      record_of (db w') t k = map_option (\<lambda>r. if rec_CreatedAt r = pg_timestamptz E at
        then completed E c b (time_Now E (tick w) + ttl) r else r) (record_of (db w) t k)"
    using assms by (cases rule: Complete_cases) (simp_all add: complete_record_InrD(1))
  show "record_of (db w') t' k' = record_of (db w) t' k'" if "(t', k') \<noteq> (t, k)"
    using assms that by (cases rule: Complete_cases) (auto simp: complete_record_InrD(1))
qed

lemma IdemRepository_sel [simp]:
  "st_ClaimOrGet (IdemRepository E) = ClaimOrGet E" "st_Complete (IdemRepository E) = Complete E"
  by (simp_all add: IdemRepository_def)

lemma ClaimOrGet_unique: "ClaimOrGet E t k h lease w = (res, w') \<Longrightarrow> keys_unique (db w) \<Longrightarrow> keys_unique (db w')"
  by (erule ClaimOrGet_cases) (auto dest: claim_record_unique)

lemma Complete_unique: "Complete E t k c b ttl at w = (res, w') \<Longrightarrow> keys_unique (db w) \<Longrightarrow> keys_unique (db w')"
  by (erule Complete_cases) (auto dest: complete_record_unique)

lemma Complete_stores:
  assumes "keys_unique (db w)" and "Complete E t k c b ttl at w = (Inr u, w')"
  shows "\<exists>r. record_of (db w) t k = Some r \<and> rec_CreatedAt r = pg_timestamptz E at \<and>
    record_of (db w') t k = Some (completed E c b (time_Now E (tick w) + ttl) r)"
  using assms(2)
proof (cases rule: Complete_cases)
  case (written n pgnow uid)
  then have "n \<noteq> 0" by (auto split: if_splits)
  from complete_record_InrD(3) [OF written(1) this] obtain r where r: "r \<in> set (idempotency_keys (db w))" "fenced E t k at r"
    by blast
  then have "record_of (db w) t k = Some r" using keys_unique_record [OF assms(1)] by (simp add: fenced_def)
  with complete_record_InrD(1) [OF written(1), of t k] r show ?thesis by (simp add: fenced_def)
qed simp

lemma Complete_fenced:
  assumes "keys_unique (db w)" and "record_of (db w) t k = Some r" and "rec_CreatedAt r \<noteq> pg_timestamptz E at"
    and "Complete E t k c b ttl at w = (res, w')"
  shows "db w' = db w"
  using assms(4)
proof (cases rule: Complete_cases)
  case (written n pgnow uid)
  have "n = 0"
  proof (rule ccontr)
    assume "n \<noteq> 0"
    from complete_record_InrD(3) [OF written(1) this] obtain x where "x \<in> set (idempotency_keys (db w))" "fenced E t k at x"
      by blast
    with keys_unique_record [OF assms(1)] assms(2,3) show False by (auto simp: fenced_def)
  qed
  with complete_record_InrD(2) [OF written(1)] show ?thesis by simp
qed simp

interpretation pg_store: idem_store "IdemRepository E" record_of keys_unique "pg_timestamptz E"
proof unfold_locales
  fix w w' t k h lease r c b ttl at u t' k'
  show "keys_unique (db w) \<Longrightarrow> keys_unique (db (snd (st_ClaimOrGet (IdemRepository E) t k h lease w)))"
    using ClaimOrGet_unique [OF surjective_pairing] by simp
  show "keys_unique (db w) \<Longrightarrow> keys_unique (db (snd (st_Complete (IdemRepository E) t k c b ttl at w)))"
    using Complete_unique [OF surjective_pairing] by simp
  show "record_of (db w') t k = Some r \<and> rec_RequestHash r = h \<and> rec_Status r = IdemProcessing"
    if "st_ClaimOrGet (IdemRepository E) t k h lease w = (Inr (r, True), w')"
    using that [simplified] by (cases rule: ClaimOrGet_cases) (auto simp: claim_record_InrD(1) dest: claim_record_InrD(2,3))
  show "record_of (db w) t k = Some r \<and> db w' = db w"
    if "st_ClaimOrGet (IdemRepository E) t k h lease w = (Inr (r, False), w')"
    using that [simplified] by (cases rule: ClaimOrGet_cases) auto
  show "record_of (db (snd (st_ClaimOrGet (IdemRepository E) t k h lease w))) t' k' = record_of (db w) t' k'"
    if "(t', k') \<noteq> (t, k)"
    using surjective_pairing [of "ClaimOrGet E t k h lease w"] that
    by (cases rule: ClaimOrGet_cases) (auto simp: claim_record_InrD(1))
  show "\<exists>r r'. record_of (db w) t k = Some r \<and> rec_CreatedAt r = pg_timestamptz E at \<and> record_of (db w') t k = Some r' \<and>
      answers r' (rec_RequestHash r) c b \<and> rec_CreatedAt r' = rec_CreatedAt r"
    if "keys_unique (db w)" "st_Complete (IdemRepository E) t k c b ttl at w = (Inr u, w')"
    using Complete_stores [OF that(1), of E t k c b ttl at u w'] that(2)
    by (auto simp: answers_def completed_def body_of_def)
  show "record_of (db (snd (st_Complete (IdemRepository E) t k c b ttl at w))) t' k' = record_of (db w) t' k'"
    if "(t', k') \<noteq> (t, k)"
    using Complete_view(2) [OF surjective_pairing that] by simp
  show "db (snd (st_Complete (IdemRepository E) t k c b ttl at w)) = db w"
    if "keys_unique (db w)" "record_of (db w) t k = Some r" "rec_CreatedAt r \<noteq> pg_timestamptz E at"
    using Complete_fenced [OF that surjective_pairing] by simp
qed

end
