(* ===== verification/Idempotency_Properties.thy ===== *)
theory Idempotency_Properties
  imports Idempotency Fixtures
begin

text \<open>
  What the idempotency middleware promises over the Postgres store: a duplicate request is answered
  with the recorded response and never runs the handler again, a claim excludes others until it
  expires, a completed response survives every later operation of a stale server, and the places
  where a replay is not the original response.
\<close>

section \<open>Requests and handlers\<close>

definition keyed :: "Request \<Rightarrow> uuid \<Rightarrow> string \<Rightarrow> string \<Rightarrow> bool" where
  "keyed rq t key body \<longleftrightarrow> header_Get (rq_Header rq) HeaderKey = key \<and> key \<noteq> '''' \<and> rq_TenantID rq = Some t \<and>
     rq_Body rq = Some body"

abbreviation hash_of :: "Request \<Rightarrow> string \<Rightarrow> string" where
  "hash_of rq body \<equiv> requestHash (rq_Method rq) (rq_Path rq) body"

text \<open>
  A handler that returns, leaves the key table alone, and answers with one status and a body that
  the status allows, as the handlers of the program do.
\<close>

definition orderly :: "http_Handler \<Rightarrow> Request \<Rightarrow> bool" where
  "orderly nxt rq \<longleftrightarrow> (\<forall>w. case nxt rq w of (calls, p, w') \<Rightarrow>
     p = None \<and> idempotency_keys (db w') = idempotency_keys (db w) \<and>
     (\<exists>code b. one_status code b calls \<and> bodyAllowed code))"

text \<open>What a \<open>timestamptz\<close> column does to a time: rounding, which is monotone and done once.\<close>

definition timestamptz_lawful :: "env \<Rightarrow> bool" where
  "timestamptz_lawful E \<longleftrightarrow> mono (pg_timestamptz E) \<and> (\<forall>t. pg_timestamptz E (pg_timestamptz E t) = pg_timestamptz E t)"

section \<open>Recorder and replay\<close>

lemma recorder_writes:
  "only_writes b cs \<Longrightarrow> rr_wroteHead r \<Longrightarrow> fold responseRecorder_call cs r = r\<lparr>rr_body := rr_body r @ b\<rparr>"
proof (induction b cs arbitrary: r rule: only_writes.induct)
  case (2 b x cs)
  then have "x @ drop (length x) b = b" by (metis append_take_drop_id only_writes.simps(2))
  with 2 show ?case by (simp add: Let_def)
qed simp_all

lemma recorder_one_status:
  assumes "one_status code b cs" and "rr_body r = ''''"
  shows "rr_statusCode (fold responseRecorder_call cs r) = code \<and> rr_body (fold responseRecorder_call cs r) = b"
  using assms
proof (induction code b cs arbitrary: r rule: one_status.induct)
  case (3 code b c cs)
  then show ?case using recorder_writes [of b cs "r\<lparr>rr_statusCode := code, rr_wroteHead := True\<rparr>"] by simp
qed simp_all

lemma recorded_one_status:
  "one_status code b cs \<Longrightarrow> rr_statusCode (recorded_response cs) = code \<and> rr_body (recorded_response cs) = b"
  by (simp add: recorded_response_def recorder_one_status)

lemma handleExisting_replays:
  assumes "answers r h code b" and "bodyAllowed code"
  shows "client_view (handleExisting r h) = (code, [(''Idempotency-Replayed'', ''true'')], b)"
  using assms bodyAllowed_not_informational [OF assms(2)]
  by (auto simp: answers_def handleExisting_def client_view_def fresh_response_def send_header_def Let_def body_of_def)

section \<open>Claims over a database that answers\<close>

lemma ClaimOrGet_live_run:
  assumes "calm E" and "record_of (db w) t k = Some r"
    and "pg_timestamptz E (time_Now E (tick w)) \<le> rec_ExpiresAt r"
  shows "\<exists>w'. ClaimOrGet E t k h lease w = (Inr (r, False), w') \<and> db w' = db w"
  using assms
  by (simp add: ClaimOrGet_def Get_record_def bindC_def go_now_def attempt_def pg_def pg_select_def wrapE_def ok_def
      calm_def claim_record_def record_of_def select_record_def)

lemma ClaimOrGet_new_run:
  assumes "calm E" and "record_of (db w) t k = None" and "tenant_exists (db w) t"
    and "gen_random_uuid E (Suc (tick w)) \<notin> rec_ID ` set (idempotency_keys (db w))"
  shows "\<exists>r w'. ClaimOrGet E t k h lease w = (Inr (r, True), w') \<and> rec_CreatedAt r = pg_timestamptz E (time_Now E (tick w))"
  using assms
  by (simp add: ClaimOrGet_def bindC_def go_now_def attempt_def pg_def ok_def calm_def claim_record_def record_of_def
      tenant_exists_def Let_def)

lemma Complete_run:
  assumes "calm E" and "keys_unique (db w)" and "record_of (db w) t k = Some r" and "rec_CreatedAt r = pg_timestamptz E at"
  shows "\<exists>w'. Complete E t k c b ttl at w = (Inr (), w')"
proof -
  have "r \<in> set (idempotency_keys (db w))" "record_for t k r"
    using assms(3) by (auto simp: record_of_def dest: find_SomeD)
  then have "filter (fenced E t k at) (idempotency_keys (db w)) \<noteq> []"
    using assms(4) by (auto simp: filter_empty_conv fenced_def)
  then show ?thesis
    using assms(1) by (simp add: Complete_def bindC_def go_now_def pg_def wrapE_def ok_def calm_def complete_record_def)
qed

lemma duplicate_run:
  assumes "calm E" and "timestamptz_lawful E" and "keyed rq t key body" and "orderly nxt rq"
    and "keys_unique (db w)" and "record_of (db w) t key = None" and "tenant_exists (db w) t"
    and "gen_random_uuid E (Suc (tick w)) \<notin> rec_ID ` set (idempotency_keys (db w))"
    and "idempotency_Middleware (IdemRepository E) ttl [] nxt rq w = (calls, p, w1)"
    and "record_of (db w2) t key = record_of (db w1) t key"
    and "\<And>r. record_of (db w2) t key = Some r \<Longrightarrow> pg_timestamptz E (time_Now E (tick w2)) \<le> rec_ExpiresAt r"
  shows "\<exists>cs w3 code b h. idempotency_Middleware (IdemRepository E) ttl [] nxt rq w2 = (cs, None, w3) \<and> db w3 = db w2 \<and>
    client_view calls = (code, h, b) \<and> client_view cs = (code, [(''Idempotency-Replayed'', ''true'')], b)"
proof -
  note rq = assms(3) [unfolded keyed_def, THEN conjunct1] assms(3) [unfolded keyed_def, THEN conjunct2, THEN conjunct1]
    assms(3) [unfolded keyed_def, THEN conjunct2, THEN conjunct2, THEN conjunct1]
    assms(3) [unfolded keyed_def, THEN conjunct2, THEN conjunct2, THEN conjunct2]
  from ClaimOrGet_new_run [OF assms(1,6,7,8), of "hash_of rq body" DefaultProcessingLease] obtain r wc
    where claim: "ClaimOrGet E t key (hash_of rq body) DefaultProcessingLease w = (Inr (r, True), wc)"
      and stamp: "rec_CreatedAt r = pg_timestamptz E (time_Now E (tick w))" by blast
  obtain cs0 wn code b where n: "nxt rq wc = (cs0, None, wn)" "idempotency_keys (db wn) = idempotency_keys (db wc)"
    "one_status code b cs0" "bodyAllowed code"
    using assms(4) by (auto simp: orderly_def split: prod.splits) (metis prod_cases3)
  have view: "record_of (db wn) t key = record_of (db wc) t key" "record_of (db wc) t key = Some r"
    and uniq: "keys_unique (db wn)"
    using n(2) pg_store.claim_wins [of E t key _ DefaultProcessingLease w r wc] claim ClaimOrGet_unique [OF claim assms(5)]
    by (simp_all add: record_of_def keys_unique_def)
  from Complete_run [OF assms(1) uniq, of t key r "rec_CreatedAt r" "rr_statusCode (recorded_response cs0)"
      "rr_body (recorded_response cs0)" "if ttl \<le> 0 then DefaultTTL else ttl"] view stamp assms(2)
  obtain wd where comp: "Complete E t key (rr_statusCode (recorded_response cs0)) (rr_body (recorded_response cs0))
      (if ttl \<le> 0 then DefaultTTL else ttl) (rec_CreatedAt r) wn = (Inr (), wd)"
    by (auto simp: timestamptz_lawful_def)
  from pg_store.claimed_key_runs [where nxt = nxt, OF rq refl claim [folded IdemRepository_sel] n(1) uniq view(1) comp [folded IdemRepository_sel]]
  obtain r' where first: "calls = cs0" "w1 = wd" "record_of (db wd) t key = Some r'" "answers r' (hash_of rq body) code b"
    using assms(9) recorded_one_status [OF n(3)] by auto
  with assms(10) have rec2: "record_of (db w2) t key = Some r'" by simp
  from ClaimOrGet_live_run [OF assms(1) rec2 assms(11) [OF rec2]] obtain w3
    where "ClaimOrGet E t key (hash_of rq body) DefaultProcessingLease w2 = (Inr (r', False), w3)" "db w3 = db w2" by blast
  with pg_store.live_key_answered [OF rq, where E = E and w = w2 and r = r' and w' = w3 and ttl = ttl and nxt = nxt]
  have "idempotency_Middleware (IdemRepository E) ttl [] nxt rq w2 = (handleExisting r' (hash_of rq body), None, w3)" "db w3 = db w2"
    by simp_all
  with client_view_one_status [OF n(3,4)] handleExisting_replays [OF first(4) n(4)] first(1) show ?thesis by blast
qed

text \<open>
  A duplicate of a request is replayed. The first request with a key runs the handler; any later
  request with the same key, tenant, method, path and body, before the record expires, gets the same
  status and body marked \<open>Idempotency-Replayed\<close>, and changes nothing in the database.
\<close>

theorem duplicate_request_is_replayed:
  assumes "calm E" and "timestamptz_lawful E" and "keyed rq t key body" and "orderly nxt rq"
    and "keys_unique (db w)" and "record_of (db w) t key = None" and "tenant_exists (db w) t"
    and "gen_random_uuid E (Suc (tick w)) \<notin> rec_ID ` set (idempotency_keys (db w))"
    and "idempotency_Middleware (IdemRepository E) ttl [] nxt rq w = (calls, p, w1)"
    and "record_of (db w2) t key = record_of (db w1) t key"
    and "\<And>r. record_of (db w2) t key = Some r \<Longrightarrow> pg_timestamptz E (time_Now E (tick w2)) \<le> rec_ExpiresAt r"
  shows "\<exists>cs w3 code b h. idempotency_Middleware (IdemRepository E) ttl [] nxt rq w2 = (cs, None, w3) \<and> db w3 = db w2 \<and>
    client_view calls = (code, h, b) \<and> client_view cs = (code, [(''Idempotency-Replayed'', ''true'')], b)"
  by (rule duplicate_run [OF assms])

definition demo_post :: Request where
  "demo_post = \<lparr>rq_Method = ''POST'', rq_Path = ''/v1/transfers'', rq_Header = [(HeaderKey, ''k1'')], rq_Query = [],
     rq_Body = Some ''x'', rq_Route = ''/v1/transfers'', rq_Param = (\<lambda>_. ''''), rq_TenantID = Some 1, rq_Claims = None,
     rq_RequestID = ''r-1'', rq_RemoteAddr = ''192.0.2.1:1234''\<rparr>"

definition demo_created :: http_Handler where
  "demo_created rq = respond [WriteHeader 201, Write ''ok'']"

definition demo_keys :: tables where
  "demo_keys = empty_tables\<lparr>tenants := [demo_tenant 1]\<rparr>"

lemma demo_keyed: "keyed demo_post 1 ''k1'' ''x''"
  by (simp add: keyed_def HeaderKey_def demo_post_def header_Get_def first_value_def)

lemma demo_orderly: "orderly demo_created demo_post"
  by (auto simp: orderly_def demo_created_def respond_def bodyAllowed_def intro!: exI [of _ "201"] exI [of _ "''ok''"])

lemma demo_timestamps: "timestamptz_lawful demo_env"
  by (simp add: timestamptz_lawful_def demo_env_def monoI)

abbreviation demo_mw :: "world \<Rightarrow> served" where
  "demo_mw \<equiv> idempotency_Middleware (IdemRepository demo_env) DefaultTTL [] demo_created demo_post"

lemma demo_first:
  "\<exists>w1 r. demo_mw (demo_world demo_keys) = ([WriteHeader 201, Write ''ok''], None, w1) \<and>
     record_of (db w1) 1 ''k1'' = Some r \<and> tick w1 = 4 \<and> rec_ExpiresAt r = 102 + DefaultTTL"
  by (simp add: idempotency_Middleware_def demo_post_def header_Get_def first_value_def HeaderKey_def perform_def ClaimOrGet_def
      bindC_def go_now_def attempt_def pg_def ok_def claim_record_def demo_keys_def demo_defs tenant_exists_def Let_def
      run_claimed_def demo_created_def respond_def completeWithRetry_def completeRetryAttempts_def numeral_3_eq_3 Complete_def
      wrapE_def complete_record_def fenced_def record_for_def record_of_def completed_def recorded_response_def)

theorem duplicate_request_is_replayed_witness:
  "\<exists>w1 cs w3. demo_mw (demo_world demo_keys) = ([WriteHeader 201, Write ''ok''], None, w1) \<and>
     demo_mw w1 = (cs, None, w3) \<and> db w3 = db w1 \<and>
     client_view cs = (201, [(''Idempotency-Replayed'', ''true'')], ''ok'')"
proof -
  from demo_first obtain w1 r where first: "demo_mw (demo_world demo_keys) = ([WriteHeader 201, Write ''ok''], None, w1)"
    "record_of (db w1) 1 ''k1'' = Some r" "tick w1 = 4" "rec_ExpiresAt r = 102 + DefaultTTL" by blast
  have pre: "keys_unique (db (demo_world demo_keys))" "record_of (db (demo_world demo_keys)) 1 ''k1'' = None"
    "tenant_exists (db (demo_world demo_keys)) 1"
    "gen_random_uuid demo_env (Suc (tick (demo_world demo_keys))) \<notin> rec_ID ` set (idempotency_keys (db (demo_world demo_keys)))"
    by (simp_all add: keys_unique_def record_of_def tenant_exists_def demo_keys_def demo_defs)
  have live: "pg_timestamptz demo_env (time_Now demo_env (tick w1)) \<le> rec_ExpiresAt x"
    if "record_of (db w1) 1 ''k1'' = Some x" for x
    using that first(2-4) by (simp add: demo_env_def DefaultTTL_def)
  have view: "client_view [WriteHeader 201, Write ''ok''] = (201, [], ''ok'')"
    by (simp add: client_view_def fresh_response_def send_header_def informational_def bodyAllowed_def Let_def)
  from duplicate_request_is_replayed [OF demo_calm demo_timestamps demo_keyed demo_orderly pre first(1) refl live] view first(1)
  show ?thesis by auto
qed

section \<open>Exclusion and fencing\<close>

text \<open>
  The handler runs only for the winner of a claim: for a request that does not win one, what happens
  is the same whatever the handler is.
\<close>

theorem only_a_claim_runs_the_handler:
  assumes "keyed rq t key body"
    and "\<nexists>r. fst (ClaimOrGet E t key (hash_of rq body) DefaultProcessingLease w) = Inr (r, True)"
  shows "idempotency_Middleware (IdemRepository E) ttl [] nxt rq w = idempotency_Middleware (IdemRepository E) ttl [] nxt' rq w"
  using assms
  by (auto simp: idempotency_Middleware_def keyed_def perform_def Let_def split: prod.splits sum.splits)


text \<open>
  C24. A reclaimed key has a new fencing token, strictly later than the one it replaces, and from then on
  the completion of the request that held the old claim is refused: it changes nothing and, once the
  database answers, reports \<open>ErrClaimSuperseded\<close>.
\<close>

theorem stale_completion_is_refused:
  assumes "timestamptz_lawful E" and "keys_unique (db w2)"
    and "record_of (db w) t k = Some r" and "rec_CreatedAt r = pg_timestamptz E since" and "rec_CreatedAt r \<le> rec_ExpiresAt r"
    and "ClaimOrGet E t k h lease w = (Inr (r', True), w1)"
    and "record_of (db w2) t k = Some r2" and "rec_CreatedAt r2 = rec_CreatedAt r'"
  shows "rec_CreatedAt r < rec_CreatedAt r' \<and>
    db (snd (Complete E t k c b ttl (rec_CreatedAt r) w2)) = db w2 \<and>
    (outcome E (Suc (tick w2)) = Done \<longrightarrow> fst (Complete E t k c b ttl (rec_CreatedAt r) w2) = Inl ErrClaimSuperseded)"
proof -
  from assms(6) have "rec_CreatedAt r' = pg_timestamptz E (time_Now E (tick w))"
    "rec_ExpiresAt r < pg_timestamptz E (time_Now E (tick w))"
    using assms(3) by (cases rule: ClaimOrGet_cases; use claim_record_InrD(4,6) in fastforce)+
  with assms(5) have later: "rec_CreatedAt r < rec_CreatedAt r'" by simp
  have "rec_CreatedAt r2 \<noteq> pg_timestamptz E (rec_CreatedAt r)"
    using later assms(1,4,8) by (simp add: timestamptz_lawful_def)
  note stale = Complete_fenced [OF assms(2,7) this]
  have "filter (fenced E t k (rec_CreatedAt r)) (idempotency_keys (db w2)) = []"
    using keys_unique_record [OF assms(2)] assms(7) \<open>rec_CreatedAt r2 \<noteq> pg_timestamptz E (rec_CreatedAt r)\<close>
    by (fastforce simp: filter_empty_conv fenced_def)
  then have "outcome E (Suc (tick w2)) = Done \<Longrightarrow> fst (Complete E t k c b ttl (rec_CreatedAt r) w2) = Inl ErrClaimSuperseded"
    by (simp add: Complete_def bindC_def go_now_def pg_def wrapE_def raise_def complete_record_def)
  with later stale [OF surjective_pairing] show ?thesis by blast
qed

section \<open>Any interleaving of operations on the store\<close>

text \<open>Claims and completions by any number of servers, one after the other, each failing as it may.\<close>

datatype idem_op = OpClaim uuid string string duration | OpComplete uuid string int string duration instant

fun run_idem :: "env \<Rightarrow> idem_op list \<Rightarrow> world \<Rightarrow> world" where
  "run_idem E [] w = w"
| "run_idem E (OpClaim t k h lease # ops) w = run_idem E ops (snd (ClaimOrGet E t k h lease w))"
| "run_idem E (OpComplete t k c b ttl at # ops) w = run_idem E ops (snd (Complete E t k c b ttl at w))"

lemma tick_ClaimOrGet: "tick w < tick (snd (ClaimOrGet E t k h lease w))"
  by (auto simp: ClaimOrGet_def Get_record_def bindC_def go_now_def attempt_def pg_def pg_select_def wrapE_def ok_def raise_def
      split: fault.splits sum.splits prod.splits)

lemma tick_Complete: "tick w < tick (snd (Complete E t k c b ttl at w))"
  by (auto simp: Complete_def bindC_def go_now_def pg_def wrapE_def ok_def raise_def
      split: fault.splits sum.splits prod.splits)

lemma tick_run_idem: "tick w \<le> tick (run_idem E ops w)"
  by (induction E ops w rule: run_idem.induct)
    (auto intro: order_trans [OF less_imp_le [OF tick_ClaimOrGet]] order_trans [OF less_imp_le [OF tick_Complete]])

lemma run_idem_unique: "keys_unique (db w) \<Longrightarrow> keys_unique (db (run_idem E ops w))"
  by (induction E ops w rule: run_idem.induct)
    (simp_all add: ClaimOrGet_unique [OF surjective_pairing] Complete_unique [OF surjective_pairing])

lemma ClaimOrGet_keeps_live:
  assumes "record_of (db w) t k = Some r" and "pg_timestamptz E (time_Now E (tick w)) \<le> rec_ExpiresAt r"
  shows "record_of (db (snd (ClaimOrGet E t' k' h lease w))) t k = Some r"
proof (cases "(t, k) = (t', k')")
  case True
  from surjective_pairing [of "ClaimOrGet E t' k' h lease w"] show ?thesis
    by (cases rule: ClaimOrGet_cases) (use assms True claim_record_InrD(6) in fastforce)+
next
  case False
  with pg_store.claim_other [of t k t' k' E h lease w] assms(1) show ?thesis by simp
qed

lemma Complete_keeps_others:
  assumes "keys_unique (db w)" and "record_of (db w) t k = Some r"
    and "(t', k') = (t, k) \<Longrightarrow> pg_timestamptz E at \<noteq> rec_CreatedAt r"
  shows "record_of (db (snd (Complete E t' k' c b ttl at w))) t k = Some r"
proof (cases "(t, k) = (t', k')")
  case True
  with Complete_fenced [OF assms(1), of t' k' r E at c b ttl, OF _ _ surjective_pairing] assms show ?thesis by simp
next
  case False
  with pg_store.complete_other [of t k t' k' E c b ttl at w] assms(2) show ?thesis by simp
qed

text \<open>
  C25. A record, and with it a completed response, survives any sequence of claims and completions by any
  servers, whichever calls fail, until it expires, unless one of them completes with its own token.
\<close>

theorem record_survives_other_servers:
  assumes "keys_unique (db w)" and "record_of (db w) t k = Some r"
    and "\<forall>n. tick w \<le> n \<and> n < tick (run_idem E ops w) \<longrightarrow> pg_timestamptz E (time_Now E n) \<le> rec_ExpiresAt r"
    and "\<forall>c b ttl at. OpComplete t k c b ttl at \<in> set ops \<longrightarrow> pg_timestamptz E at \<noteq> rec_CreatedAt r"
  shows "record_of (db (run_idem E ops w)) t k = Some r"
  using assms
proof (induction E ops w rule: run_idem.induct)
  case (2 E t' k' h lease ops w)
  let ?w = "snd (ClaimOrGet E t' k' h lease w)"
  have t: "tick w < tick ?w" "tick ?w \<le> tick (run_idem E ops ?w)" by (rule tick_ClaimOrGet, rule tick_run_idem)
  then have "record_of (db ?w) t k = Some r" using "2.prems" by (intro ClaimOrGet_keeps_live) simp_all
  moreover have "keys_unique (db ?w)" using "2.prems"(1) ClaimOrGet_unique [OF surjective_pairing] by blast
  ultimately show ?case using "2.IH" "2.prems" t by simp
next
  case (3 E t' k' c b ttl at ops w)
  let ?w = "snd (Complete E t' k' c b ttl at w)"
  have t: "tick w < tick ?w" "tick ?w \<le> tick (run_idem E ops ?w)" by (rule tick_Complete, rule tick_run_idem)
  have "record_of (db ?w) t k = Some r" using "3.prems" by (intro Complete_keeps_others) auto
  moreover have "keys_unique (db ?w)" using "3.prems"(1) Complete_unique [OF surjective_pairing] by blast
  ultimately show ?case using "3.IH" "3.prems" t by auto
qed simp

section \<open>Where a replay is not the original\<close>

text \<open>
  The hash is taken over the concatenation of method, path and body, so it does not determine where
  the path ends: two requests that split the same bytes differently have the same hash.
\<close>

lemma request_hash_is_ambiguous: "requestHash m (p @ q) b = requestHash m p (q @ b)"
  by (simp add: requestHash_def)

text \<open>
  A replay has the recorded status and body but none of the recorded response's headers: only the
  marker is set, so a replayed JSON response has lost its \<open>Content-Type\<close>.
\<close>

lemma replay_loses_headers:
  "answers r h 201 b \<Longrightarrow> fst (snd (client_view (handleExisting r h))) = [(''Idempotency-Replayed'', ''true'')]"
  by (simp add: handleExisting_replays bodyAllowed_def)

section \<open>Witnesses\<close>

text \<open>A record held by a request that started at 50 and whose lease ends at \<open>ex\<close>.\<close>

definition demo_record :: "idem_status \<Rightarrow> instant \<Rightarrow> Record" where
  "demo_record st ex = \<lparr>rec_ID = 7, rec_TenantID = 1, rec_Key = ''k1'', rec_RequestHash = ''h'', rec_Status = st,
     rec_ResponseCode = None, rec_ResponseBody = None, rec_CreatedAt = 50, rec_ExpiresAt = ex\<rparr>"

definition demo_held :: "idem_status \<Rightarrow> instant \<Rightarrow> tables" where
  "demo_held st ex = demo_keys\<lparr>idempotency_keys := [demo_record st ex]\<rparr>"

lemma demo_held_view:
  "record_of (db (demo_world (demo_held st ex))) 1 ''k1'' = Some (demo_record st ex)"
  "keys_unique (db (demo_world (demo_held st ex)))"
  by (simp_all add: record_of_def keys_unique_def demo_held_def demo_record_def demo_world_def record_for_def)


theorem only_a_claim_runs_the_handler_witness:
  "demo_mw (demo_world (demo_held IdemProcessing 200)) =
   idempotency_Middleware (IdemRepository demo_env) DefaultTTL [] (\<lambda>_. respond []) demo_post (demo_world (demo_held IdemProcessing 200))"
proof (rule only_a_claim_runs_the_handler [OF demo_keyed])
  have "pg_timestamptz demo_env (time_Now demo_env (tick (demo_world (demo_held IdemProcessing 200))))
      \<le> rec_ExpiresAt (demo_record IdemProcessing 200)"
    by (simp add: demo_env_def demo_world_def demo_record_def)
  from ClaimOrGet_live_run [OF demo_calm demo_held_view(1) this]
  show "\<nexists>r. fst (ClaimOrGet demo_env 1 ''k1'' (hash_of demo_post ''x'') DefaultProcessingLease
      (demo_world (demo_held IdemProcessing 200))) = Inr (r, True)"
    by (metis fst_conv prod.inject sum.inject(2))
qed

lemma demo_reclaim:
  "\<exists>w1. ClaimOrGet demo_env 1 ''k1'' ''h'' 10 (demo_world (demo_held IdemProcessing 60)) =
     (Inr (reclaimed demo_env ''h'' 100 110 (demo_record IdemProcessing 60), True), w1) \<and>
     record_of (db w1) 1 ''k1'' = Some (reclaimed demo_env ''h'' 100 110 (demo_record IdemProcessing 60)) \<and> keys_unique (db w1)"
  by (simp add: ClaimOrGet_def bindC_def go_now_def attempt_def pg_def ok_def claim_record_def demo_held_def demo_keys_def
      demo_defs demo_record_def record_for_def record_of_def keys_unique_def reclaimed_def)

theorem stale_completion_is_refused_witness:
  "\<exists>w1. ClaimOrGet demo_env 1 ''k1'' ''h'' 10 (demo_world (demo_held IdemProcessing 60)) =
     (Inr (reclaimed demo_env ''h'' 100 110 (demo_record IdemProcessing 60), True), w1) \<and>
     fst (Complete demo_env 1 ''k1'' 500 ''stale'' 10 50 w1) = Inl ErrClaimSuperseded \<and>
     db (snd (Complete demo_env 1 ''k1'' 500 ''stale'' 10 50 w1)) = db w1"
proof -
  obtain w1 where w1: "ClaimOrGet demo_env 1 ''k1'' ''h'' 10 (demo_world (demo_held IdemProcessing 60)) =
     (Inr (reclaimed demo_env ''h'' 100 110 (demo_record IdemProcessing 60), True), w1)"
    "record_of (db w1) 1 ''k1'' = Some (reclaimed demo_env ''h'' 100 110 (demo_record IdemProcessing 60))" "keys_unique (db w1)"
    using demo_reclaim by blast
  have "rec_CreatedAt (demo_record IdemProcessing 60) = 50" "rec_ExpiresAt (demo_record IdemProcessing 60) = 60"
    "pg_timestamptz demo_env 50 = 50" "outcome demo_env n = Done" for n
    by (simp_all add: demo_record_def demo_env_def)
  with stale_completion_is_refused [OF demo_timestamps w1(3) demo_held_view(1) _ _ w1(1,2) refl, of 50 500 "''stale''" 10] w1(1)
  show ?thesis by simp
qed

theorem record_survives_other_servers_witness:
  "record_of (db (run_idem demo_env [OpClaim 1 ''k1'' ''h2'' 10, OpComplete 1 ''k1'' 500 ''stale'' 10 49]
     (demo_world (demo_held IdemCompleted 200)))) 1 ''k1'' = Some (demo_record IdemCompleted 200)"
proof (rule record_survives_other_servers [OF demo_held_view(2,1)])
  have "tick (run_idem demo_env [OpClaim 1 ''k1'' ''h2'' 10, OpComplete 1 ''k1'' 500 ''stale'' 10 49]
      (demo_world (demo_held IdemCompleted 200))) = 5"
    by (simp add: ClaimOrGet_def Get_record_def Complete_def bindC_def go_now_def attempt_def pg_def pg_select_def wrapE_def
        ok_def raise_def claim_record_def select_record_def complete_record_def fenced_def demo_held_def demo_keys_def demo_defs
        demo_record_def record_for_def)
  then show "\<forall>n. tick (demo_world (demo_held IdemCompleted 200)) \<le> n \<and>
      n < tick (run_idem demo_env [OpClaim 1 ''k1'' ''h2'' 10, OpComplete 1 ''k1'' 500 ''stale'' 10 49]
        (demo_world (demo_held IdemCompleted 200))) \<longrightarrow>
      pg_timestamptz demo_env (time_Now demo_env n) \<le> rec_ExpiresAt (demo_record IdemCompleted 200)"
    by (simp add: demo_env_def demo_record_def)
qed (auto simp: demo_env_def demo_record_def)

section \<open>Persisting the response\<close>

text \<open>
  \<open>claim_held\<close>: the key has the record of this claim, for the hash \<open>h\<close>; \<open>settled\<close>: and it holds the response.
\<close>

definition claim_held :: "env \<Rightarrow> uuid \<Rightarrow> string \<Rightarrow> instant \<Rightarrow> string \<Rightarrow> tables \<Rightarrow> bool" where
  "claim_held E t k since h d \<longleftrightarrow>
     (\<exists>x. record_of d t k = Some x \<and> rec_RequestHash x = h \<and> rec_CreatedAt x = pg_timestamptz E since)"

definition settled :: "env \<Rightarrow> uuid \<Rightarrow> string \<Rightarrow> instant \<Rightarrow> string \<Rightarrow> int \<Rightarrow> string \<Rightarrow> tables \<Rightarrow> bool" where
  "settled E t k since h c b d \<longleftrightarrow>
     (\<exists>x. record_of d t k = Some x \<and> answers x h c b \<and> rec_CreatedAt x = pg_timestamptz E since)"

lemma settled_held: "settled E t k since h c b d \<Longrightarrow> claim_held E t k since h d"
  by (auto simp: settled_def claim_held_def answers_def)

lemma fenced_rows: "filter (fenced E t k since) (idempotency_keys d) = [] \<Longrightarrow> record_of d t k = Some x \<Longrightarrow> rec_CreatedAt x \<noteq> pg_timestamptz E since"
  by (auto simp: record_of_def fenced_def filter_empty_conv dest: find_SomeD)

text \<open>One attempt, by what becomes of its statement.\<close>

lemma Complete_attempt:
  assumes "keys_unique (db w)" and "claim_held E t k since h (db w)"
    and "Complete E t k c b ttl since w = (res, w')"
  shows "tick w' = tick w + 2" and "keys_unique (db w')"
    and "outcome E (Suc (tick w)) = Failed \<Longrightarrow> db w' = db w"
    and "outcome E (Suc (tick w)) \<noteq> Failed \<Longrightarrow> settled E t k since h c b (db w')"
    and "case res of Inl e \<Rightarrow> \<not> errors_Is e ErrClaimSuperseded \<and> outcome E (Suc (tick w)) \<noteq> Done | Inr _ \<Rightarrow> outcome E (Suc (tick w)) = Done"
proof -
  let ?q = "complete_record E t k c b (time_Now E (tick w) + ttl) since"
  obtain x where x: "record_of (db w) t k = Some x" "rec_RequestHash x = h" "rec_CreatedAt x = pg_timestamptz E since"
    using assms(2) by (auto simp: claim_held_def)
  show "keys_unique (db w')" using Complete_unique [OF assms(3,1)] .
  obtain n d where q: "\<And>u v. ?q u v (db w) = Inr (n, d)" and n: "n \<noteq> 0"
    using fenced_rows [of E t k since "db w", OF _ x(1)] x(3) by (auto simp: complete_record_def)
  have "record_of d t k = Some (completed E c b (time_Now E (tick w) + ttl) x)"
    using complete_record_InrD(1) [OF q, of t k] x by simp
  moreover have "answers (completed E c b z x) h c b" "rec_CreatedAt (completed E c b z x) = pg_timestamptz E since" for z
    using x by (auto simp: answers_def completed_def body_of_def)
  ultimately have new: "settled E t k since h c b d" by (auto simp: settled_def)
  have "Pg Unavailable \<noteq> ErrClaimSuperseded" "errors_Is (Errorf m (Pg Unavailable) '''') ErrClaimSuperseded = False" for m
    by (auto simp: ErrClaimSuperseded_def)
  then show "tick w' = tick w + 2" "outcome E (Suc (tick w)) = Failed \<Longrightarrow> db w' = db w"
    "outcome E (Suc (tick w)) \<noteq> Failed \<Longrightarrow> settled E t k since h c b (db w')"
    "case res of Inl e \<Rightarrow> \<not> errors_Is e ErrClaimSuperseded \<and> outcome E (Suc (tick w)) \<noteq> Done | Inr _ \<Rightarrow> outcome E (Suc (tick w)) = Done"
    using assms(3) q n new
    by (auto simp: Complete_def bindC_def go_now_def wrapE_def pg_def ok_def split: fault.splits if_splits)
qed

lemma attempts_end:
  assumes "keys_unique (db w)" and "claim_held E t k since h (db w)"
  shows "\<exists>w'. complete_attempts n (Complete E t k c b ttl since) w = (Inr (), w') \<and> tick w' \<le> tick w + 2 * n \<and>
    (settled E t k since h c b (db w) \<or> (\<exists>i < n. outcome E (tick w + 2 * i + 1) \<noteq> Failed) \<longrightarrow> settled E t k since h c b (db w')) \<and>
    ((\<forall>i < n. outcome E (tick w + 2 * i + 1) = Failed) \<longrightarrow> db w' = db w)"
  using assms
proof (induction n arbitrary: w)
  case (Suc n)
  obtain res w1 where run: "Complete E t k c b ttl since w = (res, w1)" by fastforce
  note one = Complete_attempt [OF Suc.prems run]
  have held: "claim_held E t k since h (db w1)"
    using one(3,4) Suc.prems(2) settled_held by metis
  have shift: "(\<exists>i < Suc n. outcome E (tick w + 2 * i + 1) \<noteq> Failed) \<longleftrightarrow>
      outcome E (Suc (tick w)) \<noteq> Failed \<or> (\<exists>i < n. outcome E (tick w1 + 2 * i + 1) \<noteq> Failed)"
    unfolding one(1) Ex_less_Suc2 by (simp add: algebra_simps)
  show ?case
  proof (cases res)
    case (Inr u)
    with one have "outcome E (Suc (tick w)) = Done" "settled E t k since h c b (db w1)" by simp_all
    with Inr run one(1) show ?thesis by (auto simp: bindC_def attempt_def ok_def)
  next
    case (Inl e)
    then have rest: "complete_attempts (Suc n) (Complete E t k c b ttl since) w = complete_attempts n (Complete E t k c b ttl since) w1"
      using run one(5) by (simp add: bindC_def attempt_def)
    from Suc.IH [OF one(2) held] obtain w' where w': "complete_attempts n (Complete E t k c b ttl since) w1 = (Inr (), w')"
      "tick w' \<le> tick w1 + 2 * n"
      "settled E t k since h c b (db w1) \<or> (\<exists>i < n. outcome E (tick w1 + 2 * i + 1) \<noteq> Failed) \<longrightarrow> settled E t k since h c b (db w')"
      "(\<forall>i < n. outcome E (tick w1 + 2 * i + 1) = Failed) \<longrightarrow> db w' = db w1" by blast
    have "settled E t k since h c b (db w')"
      if "settled E t k since h c b (db w) \<or> (\<exists>i < Suc n. outcome E (tick w + 2 * i + 1) \<noteq> Failed)"
      using that w'(3) one(3,4) unfolding shift by metis
    moreover have "db w' = db w" if "\<forall>i < Suc n. outcome E (tick w + 2 * i + 1) = Failed"
      using that w'(4) one(3) shift by metis
    ultimately show ?thesis using w'(1,2) one(1) unfolding rest by auto
  qed
qed (simp add: ok_def)

text \<open>
  C22. Persisting the response ends. Whatever fails, the middleware makes at most three attempts, two calls
  each, and returns; as long as the claim is its own, the response is stored with the key if any attempt
  reached the database, answered or not, and otherwise the database is as it was.
\<close>

theorem persisting_the_response_ends:
  assumes "keys_unique (db w)" and "record_of (db w) t k = Some r" and "rec_CreatedAt r = pg_timestamptz E since"
  shows "\<exists>w'. completeWithRetry (IdemRepository E) t k c b ttl since w = (Inr (), w') \<and> tick w' \<le> tick w + 6 \<and>
    (if \<exists>i < 3. outcome E (tick w + 2 * i + 1) \<noteq> Failed
     then \<exists>r'. record_of (db w') t k = Some r' \<and> answers r' (rec_RequestHash r) c b
     else db w' = db w)"
proof -
  have "claim_held E t k since (rec_RequestHash r) (db w)" using assms by (simp add: claim_held_def)
  from attempts_end [OF assms(1) this, of 3 c b ttl] show ?thesis
    by (auto simp: completeWithRetry_def completeRetryAttempts_def settled_def)
qed

definition failing_env :: env where
  "failing_env = demo_env\<lparr>outcome := (\<lambda>n. if n < 4 then Failed else Lost)\<rparr>"

theorem persisting_the_response_ends_witness:
  "\<exists>w' r'. completeWithRetry (IdemRepository failing_env) 1 ''k1'' 201 ''ok'' 10 50 (demo_world (demo_held IdemProcessing 200)) =
      (Inr (), w') \<and> record_of (db w') 1 ''k1'' = Some r' \<and> answers r' ''h'' 201 ''ok''"
proof -
  let ?w = "demo_world (demo_held IdemProcessing 200)"
  have pre: "rec_CreatedAt (demo_record IdemProcessing 200) = pg_timestamptz failing_env 50"
    "rec_RequestHash (demo_record IdemProcessing 200) = ''h''"
    by (simp_all add: demo_record_def demo_env_def failing_env_def)
  have reached: "\<exists>i < 3. outcome failing_env (tick ?w + 2 * i + 1) \<noteq> Failed"
    by (rule exI [of _ 2]) (simp add: failing_env_def demo_world_def)
  from persisting_the_response_ends [OF demo_held_view(2,1) pre(1), of 201 "''ok''" 10, unfolded if_P [OF reached] pre(2)]
  show ?thesis by blast
qed

end
