(* ===== verification/Configuration.thy ===== *)
theory Configuration
  imports Prelude
begin

text \<open>
  \<open>internal/config\<close>: the settings the API process reads from its environment. The process
  environment is a function from variable names to values, empty for a variable that is not set
  (\<open>os.Getenv\<close>).
\<close>

type_synonym process_env = "string \<Rightarrow> string"

definition getenv :: "process_env \<Rightarrow> string \<Rightarrow> string \<Rightarrow> string" where
  "getenv env key fallback = (if env key \<noteq> '''' then env key else fallback)"

record Config =
  cfg_DBHost :: string
  cfg_DBPort :: string
  cfg_DBUser :: string
  cfg_DBPassword :: string
  cfg_DBName :: string
  cfg_DBSSLMode :: string
  cfg_Port :: string
  cfg_JWTSecret :: string

definition Load :: "process_env \<Rightarrow> Config" where
  "Load env = \<lparr>cfg_DBHost = getenv env ''DB_HOST'' ''localhost'', cfg_DBPort = getenv env ''DB_PORT'' ''5432'',
     cfg_DBUser = getenv env ''DB_USER'' ''transacta'', cfg_DBPassword = getenv env ''DB_PASSWORD'' ''transacta_dev'',
     cfg_DBName = getenv env ''DB_NAME'' ''transacta'', cfg_DBSSLMode = getenv env ''DB_SSLMODE'' ''disable'',
     cfg_Port = getenv env ''PORT'' ''8080'', cfg_JWTSecret = getenv env ''JWT_SECRET'' ''''\<rparr>"

definition DatabaseDSN :: "Config \<Rightarrow> string" where
  "DatabaseDSN c =
     ''host='' @ cfg_DBHost c @ '' port='' @ cfg_DBPort c @ '' user='' @ cfg_DBUser c @ '' password='' @
     cfg_DBPassword c @ '' dbname='' @ cfg_DBName c @ '' sslmode='' @ cfg_DBSSLMode c"

lemma getenv_nonempty: "fallback \<noteq> '''' \<Longrightarrow> getenv env key fallback \<noteq> ''''"
  by (simp add: getenv_def)

text \<open>An empty variable counts as unset, so only the secret can be empty: the reason \<open>main\<close> tests it.\<close>

lemma Load_settings_nonempty:
  "cfg_DBHost (Load env) \<noteq> ''''" "cfg_DBPort (Load env) \<noteq> ''''" "cfg_DBUser (Load env) \<noteq> ''''"
  "cfg_DBName (Load env) \<noteq> ''''" "cfg_Port (Load env) \<noteq> ''''"
  "cfg_JWTSecret (Load env) = env ''JWT_SECRET''"
  by (simp_all add: Load_def getenv_def)

end
