(* ===== verification/Tenants.thy ===== *)
theory Tenants
  imports Http Fixtures Configuration
begin

text \<open>
  \<open>internal/tenants\<close>: API keys, stored as hashes, and the tenant in a request's context; with
  \<open>scripts/create_tenant\<close>, which makes a tenant and its key.
\<close>

section \<open>Context\<close>

definition WithTenantID :: "Request \<Rightarrow> uuid \<Rightarrow> Request" where
  "WithTenantID r tenantID = r\<lparr>rq_TenantID := Some tenantID\<rparr>"

definition FromContext :: "Request \<Rightarrow> uuid option" where
  "FromContext r = rq_TenantID r"

section \<open>API keys\<close>

definition ErrInvalidAPIKey :: error where
  "ErrInvalidAPIKey = New ''tenants: invalid API key''"

definition HashAPIKey :: "string \<Rightarrow> string" where
  "HashAPIKey raw = hex_EncodeToString (sha256_Sum256 raw)"

definition select_tenant :: "string \<Rightarrow> tables \<Rightarrow> pg_error + uuid" where
  "select_tenant hash d =
     (case find (\<lambda>t. tn_APIKeyHash t = hash) (tenants d) of None \<Rightarrow> Inl NoRows | Some t \<Rightarrow> Inr (tn_ID t))"

definition VerifyAPIKey :: "env \<Rightarrow> string \<Rightarrow> (world, error, uuid) comp" where
  "VerifyAPIKey E rawKey =
     wrapE (\<lambda>e. if errors_Is e (Pg NoRows) then ErrInvalidAPIKey
              else Errorf ''tenants: verify api key: '' e '''')
       (pg_select E (select_tenant (HashAPIKey rawKey)))"

section \<open>The script that creates a tenant\<close>

text \<open>
  An \<open>os.Exit(1)\<close> is the left of the result, with the message printed. \<open>env\<close> is the process's
  environment and \<open>sql_Open\<close> the error \<open>sql.Open\<close> gives for a connection string, if any; a failure to
  connect shows at the statement. The result is the identifier and the raw key the script prints.
\<close>

definition script_getenv :: "process_env \<Rightarrow> string \<Rightarrow> string \<Rightarrow> string" where
  "script_getenv env key fallback = (if env key \<noteq> '''' then env key else fallback)"

definition script_dsn :: "process_env \<Rightarrow> string \<Rightarrow> string" where
  "script_dsn env dsn =
     (if dsn = ''''
      then ''host='' @ script_getenv env ''DB_HOST'' ''localhost'' @ '' port='' @ script_getenv env ''DB_PORT'' ''5432'' @
           '' user='' @ script_getenv env ''DB_USER'' ''transacta'' @ '' password='' @ script_getenv env ''DB_PASSWORD'' ''transacta_dev'' @
           '' dbname='' @ script_getenv env ''DB_NAME'' ''transacta'' @ '' sslmode='' @ script_getenv env ''DB_SSLMODE'' ''disable''
      else dsn)"

definition generateAPIKey :: "env \<Rightarrow> (world, error, string) comp" where
  "generateAPIKey E = (\<lambda>w.
     case rand_Read E (tick w) 32 of
       None \<Rightarrow> (Inl (Lib ''crypto/rand: read failed''), step w)
     | Some buf \<Rightarrow> (Inr (''sk_'' @ hex_EncodeToString buf), step w))"

definition insert_tenant :: "string \<Rightarrow> string \<Rightarrow> uuid stmt" where
  "insert_tenant name hash now uid d =
     (if uid \<in> tn_ID ` set (tenants d) then Inl (UniqueViolation ''tenants_pkey'')
      else Inr (uid, d\<lparr>tenants := tenants d @
        [\<lparr>tn_ID = uid, tn_Name = name, tn_APIKeyHash = hash, tn_CreatedAt = now,
          tn_WebhookURL = None, tn_WebhookSecret = None\<rparr>]\<rparr>))"

definition create_tenant ::
  "env \<Rightarrow> process_env \<Rightarrow> (string \<Rightarrow> string option) \<Rightarrow> string \<Rightarrow> string \<Rightarrow> (world, error, uuid \<times> string) comp" where
  "create_tenant E env sql_Open name dsn =
     (if name = '''' then raise (Lib ''error: -name is required'')
      else case sql_Open (script_dsn env dsn) of
        Some msg \<Rightarrow> raise (Errorf ''error: open database: '' (Lib msg) '''')
      | None \<Rightarrow>
        bindC (wrapE (\<lambda>e. Errorf ''error: generate API key: '' e '''') (generateAPIKey E)) (\<lambda>rawKey.
        bindC (wrapE (\<lambda>e. Errorf ''error: create tenant: '' e '''')
                 (pg E (insert_tenant name (HashAPIKey rawKey)))) (\<lambda>tenantID.
        ok (tenantID, rawKey))))"

section \<open>A key identifies its tenant\<close>

lemma VerifyAPIKey_InrD:
  assumes "VerifyAPIKey E rawKey w = (Inr t, w')"
  shows "w' = step w" and "\<exists>x \<in> set (tenants (db w)). tn_ID x = t \<and> tn_APIKeyHash x = HashAPIKey rawKey"
  using assms
  by (auto simp: VerifyAPIKey_def select_tenant_def split: option.splits dest!: wrapE_InrD pg_select_InrD find_SomeD)

lemma VerifyAPIKey_run:
  assumes "outcome E (tick w) = Done"
  shows "VerifyAPIKey E rawKey w =
    ((case find (\<lambda>t. tn_APIKeyHash t = HashAPIKey rawKey) (tenants (db w)) of
        None \<Rightarrow> Inl ErrInvalidAPIKey | Some t \<Rightarrow> Inr (tn_ID t)), step w)"
  using assms
  by (simp add: VerifyAPIKey_def select_tenant_def wrapE_def pg_select_def pg_def split: option.splits)

lemma create_tenant_InrD:
  assumes "create_tenant E env sql_Open name dsn w = (Inr (t, key), w')"
  shows "\<exists>x. db w' = (db w)\<lparr>tenants := tenants (db w) @ [x]\<rparr> \<and> tn_ID x = t \<and> tn_Name x = name \<and>
    tn_APIKeyHash x = HashAPIKey key \<and> t \<notin> tn_ID ` set (tenants (db w)) \<and> name \<noteq> ''''"
  using assms
  by (auto simp: create_tenant_def generateAPIKey_def bindC_def wrapE_def pg_def insert_tenant_def ok_def raise_def
      split: if_splits option.splits fault.splits)

text \<open>
  Without \<open>-dsn\<close> the script connects to the database of the API process: its connection string is
  the one \<open>config.Load\<close> and \<open>DatabaseDSN\<close> give for the same environment, and a given \<open>-dsn\<close> is used as it is.
\<close>

theorem script_uses_the_api_database:
  "script_dsn env dsn = (if dsn = '''' then DatabaseDSN (Load env) else dsn)"
  by (simp add: script_dsn_def DatabaseDSN_def Load_def getenv_def script_getenv_def)

text \<open>
  C40. A new key opens its own tenant: after \<open>create_tenant\<close> has printed an identifier and a key, verifying
  that key gives that identifier, unless an earlier tenant's key has the same SHA-256 hash.
\<close>

theorem new_key_opens_its_tenant:
  assumes "create_tenant E env sql_Open name dsn w = (Inr (t, key), w')"
    and "\<forall>x \<in> set (tenants (db w)). tn_APIKeyHash x \<noteq> HashAPIKey key"
    and "tenants (db w2) = tenants (db w') @ later" and "outcome E (tick w2) = Done"
  shows "fst (VerifyAPIKey E key w2) = Inr t"
proof -
  obtain x where x: "tenants (db w') = tenants (db w) @ [x]" "tn_ID x = t" "tn_APIKeyHash x = HashAPIKey key"
    using create_tenant_InrD [OF assms(1)] by auto
  have "find (\<lambda>t. tn_APIKeyHash t = HashAPIKey key) (tenants (db w)) = None"
    using assms(2) by (simp add: find_None_iff)
  then have "find (\<lambda>t. tn_APIKeyHash t = HashAPIKey key) (tenants (db w2)) = Some x"
    unfolding assms(3) x(1) using x(3) by (simp add: find_append)
  then show ?thesis using VerifyAPIKey_run [OF assms(4)] x(2) by simp
qed

lemma demo_create_tenant:
  "\<exists>t key w'. create_tenant demo_env (\<lambda>_. '''') (\<lambda>_. None) ''acme'' '''' (demo_world empty_tables) = (Inr (t, key), w')"
  by (simp add: create_tenant_def generateAPIKey_def bindC_def wrapE_def pg_def insert_tenant_def ok_def demo_defs)

theorem new_key_opens_its_tenant_witness:
  "\<exists>t key w'. create_tenant demo_env (\<lambda>_. '''') (\<lambda>_. None) ''acme'' '''' (demo_world empty_tables) = (Inr (t, key), w') \<and>
     fst (VerifyAPIKey demo_env key w') = Inr t"
proof -
  obtain t key w' where run: "create_tenant demo_env (\<lambda>_. '''') (\<lambda>_. None) ''acme'' '''' (demo_world empty_tables) = (Inr (t, key), w')"
    using demo_create_tenant by blast
  from new_key_opens_its_tenant [OF run, of w' "[]"] run show ?thesis
    by (simp add: demo_env_def demo_world_def empty_tables_def)
qed

end
