(* ===== verification/Auth.thy ===== *)
theory Auth
  imports Http Audit_Trail
begin

text \<open>
  \<open>internal/auth\<close>: users, roles and permissions, sessions as rotating refresh tokens, and access
  tokens. The repository's statements are functions on the tables; \<open>bcrypt\<close>, \<open>golang-jwt\<close> and the
  random source are the environment's.
\<close>

section \<open>Errors\<close>

definition ErrUserNotFound :: error where
  "ErrUserNotFound = New ''auth: user not found''"
definition ErrEmailAlreadyExists :: error where
  "ErrEmailAlreadyExists = New ''auth: a user with this email already exists for this tenant''"
definition ErrUserDisabled :: error where
  "ErrUserDisabled = New ''auth: user is disabled''"
definition ErrInvalidCredentials :: error where
  "ErrInvalidCredentials = New ''auth: invalid email or password''"
definition ErrRoleNotFound :: error where
  "ErrRoleNotFound = New ''auth: role not found''"
definition ErrRefreshTokenNotFound :: error where
  "ErrRefreshTokenNotFound = New ''auth: refresh token not found''"
definition ErrRefreshTokenInvalid :: error where
  "ErrRefreshTokenInvalid = New ''auth: refresh token is not valid''"

lemmas auth_errors = ErrUserNotFound_def ErrEmailAlreadyExists_def ErrUserDisabled_def
  ErrInvalidCredentials_def ErrRoleNotFound_def ErrRefreshTokenNotFound_def ErrRefreshTokenInvalid_def

section \<open>Context\<close>

definition WithClaims :: "Request \<Rightarrow> Claims \<Rightarrow> Request" where
  "WithClaims r claims = r\<lparr>rq_Claims := Some claims\<rparr>"

definition ClaimsFromContext :: "Request \<Rightarrow> Claims option" where
  "ClaimsFromContext r = rq_Claims r"

section \<open>Repository: roles and permissions\<close>

definition select_role :: "string \<Rightarrow> tables \<Rightarrow> pg_error + Role" where
  "select_role name d =
     (case find (\<lambda>r. role_Name r = name) (roles d) of None \<Rightarrow> Inl NoRows | Some r \<Rightarrow> Inr r)"

definition GetRoleByName :: "env \<Rightarrow> string \<Rightarrow> (world, error, Role) comp" where
  "GetRoleByName E name =
     wrapE (\<lambda>e. if errors_Is e (Pg NoRows) then ErrRoleNotFound else Errorf ''auth: get role: '' e '''')
       (pg_select E (select_role name))"

definition select_permissions :: "uuid \<Rightarrow> uuid \<Rightarrow> tables \<Rightarrow> string list" where
  "select_permissions tenantID userID d =
     [perm_Name p. u \<leftarrow> users d, usr_ID u = userID \<and> usr_TenantID u = tenantID,
        rp \<leftarrow> role_permissions d, fst rp = usr_RoleID u, p \<leftarrow> permissions d, perm_ID p = snd rp]"

definition GetUserPermissions :: "env \<Rightarrow> uuid \<Rightarrow> uuid \<Rightarrow> (world, error, string list) comp" where
  "GetUserPermissions E tenantID userID =
     wrapE (\<lambda>e. Errorf ''auth: get user permissions: '' e '''')
       (pg_select E (\<lambda>d. Inr (select_permissions tenantID userID d)))"

section \<open>Repository: users\<close>

fun isUniqueViolation :: "error \<Rightarrow> string \<Rightarrow> bool" where
  "isUniqueViolation (Pg (UniqueViolation c)) constraintName = (c = constraintName)"
| "isUniqueViolation (Errorf p e q) constraintName = isUniqueViolation e constraintName"
| "isUniqueViolation _ constraintName = False"

definition has_email :: "env \<Rightarrow> uuid \<Rightarrow> string \<Rightarrow> User \<Rightarrow> bool" where
  "has_email E tenantID email u \<longleftrightarrow> usr_TenantID u = tenantID \<and> pg_lower E (usr_Email u) = pg_lower E email"

definition insert_user :: "env \<Rightarrow> uuid \<Rightarrow> uuid \<Rightarrow> string \<Rightarrow> string \<Rightarrow> (uuid \<times> instant) stmt" where
  "insert_user E tenantID roleID email passwordHash now uid d =
     (if uid \<in> usr_ID ` set (users d) then Inl (UniqueViolation ''users_pkey'')
      else if list_ex (has_email E tenantID email) (users d)
        then Inl (UniqueViolation ''uq_users_tenant_lower_email'')
      else if \<not> tenant_exists d tenantID then Inl (ForeignKeyViolation ''users_tenant_id_fkey'')
      else if roleID \<notin> role_ID ` set (roles d) then Inl (ForeignKeyViolation ''users_role_id_fkey'')
      else Inr ((uid, now), d\<lparr>users := users d @
        [\<lparr>usr_ID = uid, usr_TenantID = tenantID, usr_RoleID = roleID, usr_Email = email,
          usr_PasswordHash = passwordHash, usr_Status = UserStatusActive, usr_CreatedAt = now\<rparr>]\<rparr>))"

definition CreateUser :: "env \<Rightarrow> uuid \<Rightarrow> uuid \<Rightarrow> string \<Rightarrow> string \<Rightarrow> (world, error, User) comp" where
  "CreateUser E tenantID roleID email passwordHash =
     bindC (wrapE (\<lambda>e. if isUniqueViolation e ''uq_users_tenant_lower_email'' then ErrEmailAlreadyExists
                      else Errorf ''auth: create user: '' e '''')
              (pg E (insert_user E tenantID roleID email passwordHash)))
       (\<lambda>(uid, createdAt).
          ok \<lparr>usr_ID = uid, usr_TenantID = tenantID, usr_RoleID = roleID, usr_Email = email,
              usr_PasswordHash = passwordHash, usr_Status = UserStatusActive, usr_CreatedAt = createdAt\<rparr>)"

definition select_user :: "(User \<Rightarrow> bool) \<Rightarrow> tables \<Rightarrow> pg_error + User" where
  "select_user P d = (case find P (users d) of None \<Rightarrow> Inl NoRows | Some u \<Rightarrow> Inr u)"

definition scanUser :: "(world, error, User) comp \<Rightarrow> (world, error, User) comp" where
  "scanUser row =
     wrapE (\<lambda>e. if errors_Is e (Pg NoRows) then ErrUserNotFound else Errorf ''auth: scan user: '' e '''') row"

definition GetUserByEmail :: "env \<Rightarrow> uuid \<Rightarrow> string \<Rightarrow> (world, error, User) comp" where
  "GetUserByEmail E tenantID email = scanUser (pg_select E (select_user (has_email E tenantID email)))"

definition GetUserByID :: "env \<Rightarrow> uuid \<Rightarrow> uuid \<Rightarrow> (world, error, User) comp" where
  "GetUserByID E tenantID userID =
     scanUser (pg_select E (select_user (\<lambda>u. usr_TenantID u = tenantID \<and> usr_ID u = userID)))"

section \<open>Repository: refresh tokens\<close>

definition insert_token :: "env \<Rightarrow> uuid \<Rightarrow> uuid \<Rightarrow> string \<Rightarrow> instant \<Rightarrow> (uuid \<times> instant \<times> instant) stmt" where
  "insert_token E userID tenantID tokenHash expiresAt now uid d =
     (if uid \<in> rt_ID ` set (refresh_tokens d) then Inl (UniqueViolation ''refresh_tokens_pkey'')
      else if tokenHash \<in> rt_TokenHash ` set (refresh_tokens d)
        then Inl (UniqueViolation ''refresh_tokens_token_hash_key'')
      else if (userID, tenantID) \<notin> (\<lambda>u. (usr_ID u, usr_TenantID u)) ` set (users d)
        then Inl (ForeignKeyViolation ''fk_refresh_tokens_user_tenant'')
      else Inr ((uid, now, pg_timestamptz E expiresAt), d\<lparr>refresh_tokens := refresh_tokens d @
        [\<lparr>rt_ID = uid, rt_UserID = userID, rt_TenantID = tenantID, rt_TokenHash = tokenHash,
          rt_Status = RefreshTokenStatusActive, rt_ReplacedBy = None, rt_CreatedAt = now,
          rt_ExpiresAt = pg_timestamptz E expiresAt\<rparr>]\<rparr>))"

definition CreateRefreshToken ::
  "env \<Rightarrow> uuid \<Rightarrow> uuid \<Rightarrow> string \<Rightarrow> duration \<Rightarrow> (world, error, RefreshToken) comp" where
  "CreateRefreshToken E userID tenantID tokenHash ttl =
     bindC (go_now E) (\<lambda>now.
     bindC (wrapE (\<lambda>e. Errorf ''auth: create refresh token: '' e '''')
              (pg E (insert_token E userID tenantID tokenHash (now + ttl))))
       (\<lambda>(uid, createdAt, expiresAt).
          ok \<lparr>rt_ID = uid, rt_UserID = userID, rt_TenantID = tenantID, rt_TokenHash = tokenHash,
              rt_Status = RefreshTokenStatusActive, rt_ReplacedBy = None, rt_CreatedAt = createdAt,
              rt_ExpiresAt = expiresAt\<rparr>))"

definition select_token :: "string \<Rightarrow> tables \<Rightarrow> pg_error + RefreshToken" where
  "select_token tokenHash d =
     (case find (\<lambda>r. rt_TokenHash r = tokenHash) (refresh_tokens d) of None \<Rightarrow> Inl NoRows | Some r \<Rightarrow> Inr r)"

definition GetRefreshTokenByHash :: "env \<Rightarrow> string \<Rightarrow> (world, error, RefreshToken) comp" where
  "GetRefreshTokenByHash E tokenHash =
     wrapE (\<lambda>e. if errors_Is e (Pg NoRows) then ErrRefreshTokenNotFound
              else Errorf ''auth: get refresh token: '' e '''')
       (pg_select E (select_token tokenHash))"

definition rotatable :: "uuid \<Rightarrow> instant \<Rightarrow> RefreshToken \<Rightarrow> bool" where
  "rotatable oldTokenID now r \<longleftrightarrow>
     rt_ID r = oldTokenID \<and> rt_Status r = RefreshTokenStatusActive \<and> now < rt_ExpiresAt r"

definition rotate_token :: "uuid \<Rightarrow> uuid \<Rightarrow> nat stmt" where
  "rotate_token oldTokenID newTokenID now uid d =
     (let n = length (filter (rotatable oldTokenID now) (refresh_tokens d)) in
      if 0 < n \<and> newTokenID \<notin> rt_ID ` set (refresh_tokens d)
      then Inl (ForeignKeyViolation ''refresh_tokens_replaced_by_fkey'')
      else Inr (n, d\<lparr>refresh_tokens := map (\<lambda>r. if rotatable oldTokenID now r
          then r\<lparr>rt_Status := RefreshTokenStatusRotated, rt_ReplacedBy := Some newTokenID\<rparr> else r)
            (refresh_tokens d)\<rparr>))"

definition RotateRefreshToken :: "env \<Rightarrow> uuid \<Rightarrow> uuid \<Rightarrow> (world, error, unit) comp" where
  "RotateRefreshToken E oldTokenID newTokenID =
     bindC (wrapE (\<lambda>e. Errorf ''auth: rotate refresh token: '' e '''')
              (pg E (rotate_token oldTokenID newTokenID)))
       (\<lambda>n. if n = 0 then raise ErrRefreshTokenInvalid else ok ())"

definition revoke_tokens :: "(RefreshToken \<Rightarrow> bool) \<Rightarrow> unit stmt" where
  "revoke_tokens P now uid d =
     Inr ((), d\<lparr>refresh_tokens := map (\<lambda>r. if P r \<and> rt_Status r = RefreshTokenStatusActive
         then r\<lparr>rt_Status := RefreshTokenStatusRevoked\<rparr> else r) (refresh_tokens d)\<rparr>)"

definition RevokeRefreshToken :: "env \<Rightarrow> uuid \<Rightarrow> (world, error, unit) comp" where
  "RevokeRefreshToken E tokenID =
     wrapE (\<lambda>e. Errorf ''auth: revoke refresh token: '' e '''')
       (pg E (revoke_tokens (\<lambda>r. rt_ID r = tokenID)))"

definition RevokeAllUserRefreshTokens :: "env \<Rightarrow> uuid \<Rightarrow> (world, error, unit) comp" where
  "RevokeAllUserRefreshTokens E userID =
     wrapE (\<lambda>e. Errorf ''auth: revoke all refresh tokens: '' e '''')
       (pg E (revoke_tokens (\<lambda>r. rt_UserID r = userID)))"

section \<open>Service\<close>

definition bcryptCost :: int where "bcryptCost = 12"
definition DefaultAccessTokenTTL :: duration where "DefaultAccessTokenTTL = 15 * 60 * 1000000000"
definition DefaultRefreshTokenTTL :: duration where "DefaultRefreshTokenTTL = 7 * 24 * 3600 * 1000000000"

definition AuditUserRegistered :: string where "AuditUserRegistered = ''user.registered''"
definition AuditUserLoggedIn :: string where "AuditUserLoggedIn = ''user.login''"
definition AuditTokenRefreshed :: string where "AuditTokenRefreshed = ''user.token_refreshed''"
definition AuditUserLoggedOut :: string where "AuditUserLoggedOut = ''user.logout''"
definition auditActorAPIKey :: string where "auditActorAPIKey = ''api-key''"

record AuthService =
  as_jwtSecret :: string
  as_accessTokenTTL :: duration
  as_refreshTokenTTL :: duration
  as_audit :: "AuditRecorder option"

definition WithAccessTokenTTL :: "duration \<Rightarrow> AuthService \<Rightarrow> AuthService" where
  "WithAccessTokenTTL d s = s\<lparr>as_accessTokenTTL := d\<rparr>"
definition WithRefreshTokenTTL :: "duration \<Rightarrow> AuthService \<Rightarrow> AuthService" where
  "WithRefreshTokenTTL d s = s\<lparr>as_refreshTokenTTL := d\<rparr>"
definition WithAuthAuditRecorder :: "AuditRecorder \<Rightarrow> AuthService \<Rightarrow> AuthService" where
  "WithAuthAuditRecorder a s = s\<lparr>as_audit := Some a\<rparr>"

definition NewAuthService :: "string \<Rightarrow> (AuthService \<Rightarrow> AuthService) list \<Rightarrow> AuthService" where
  "NewAuthService jwtSecret opts =
     fold (\<lambda>opt s. opt s) opts
       \<lparr>as_jwtSecret = jwtSecret, as_accessTokenTTL = DefaultAccessTokenTTL,
        as_refreshTokenTTL = DefaultRefreshTokenTTL, as_audit = None\<rparr>"

definition recordAudit_auth :: "AuthService \<Rightarrow> uuid \<Rightarrow> string \<Rightarrow> string \<Rightarrow> json \<Rightarrow> (world, error, unit) comp" where
  "recordAudit_auth s tenantID actorID action payload =
     (case as_audit s of
        None \<Rightarrow> ok ()
      | Some recorder \<Rightarrow> recorder tenantID actorID action (json_Marshal payload))"

definition audited_auth :: "AuthService \<Rightarrow> uuid \<Rightarrow> string \<Rightarrow> string \<Rightarrow> json \<Rightarrow> (world, error, unit) comp" where
  "audited_auth s tenantID actorID action payload =
     wrapE (\<lambda>e. Errorf ''auth: record audit: '' e '''') (recordAudit_auth s tenantID actorID action payload)"

definition auth_begin_err :: "error \<Rightarrow> error" where
  "auth_begin_err e = Errorf ''auth: begin tx: '' e ''''"

definition hash_password :: "env \<Rightarrow> string \<Rightarrow> (world, error, string) comp" where
  "hash_password E password = (\<lambda>w.
     case bcrypt_Generate E (tick w) password bcryptCost of
       Inl msg \<Rightarrow> (Inl (Errorf ''auth: hash password: '' (Lib msg) ''''), step w)
     | Inr h \<Rightarrow> (Inr h, step w))"

definition registered_payload :: "env \<Rightarrow> User \<Rightarrow> uuid \<Rightarrow> json" where
  "registered_payload E u roleID = JMap
     [(''user_id'', JStr (uuid_String E (usr_ID u))), (''email'', JStr (usr_Email u)),
      (''role_id'', JStr (uuid_String E roleID))]"

definition user_payload :: "env \<Rightarrow> uuid \<Rightarrow> json" where
  "user_payload E userID = JMap [(''user_id'', JStr (uuid_String E userID))]"

definition register_tx :: "env \<Rightarrow> AuthService \<Rightarrow> uuid \<Rightarrow> uuid \<Rightarrow> string \<Rightarrow> string \<Rightarrow> (world, error, User) comp" where
  "register_tx E s tenantID roleID email hash =
     bindC (CreateUser E tenantID roleID email hash) (\<lambda>user.
     bindC (audited_auth s tenantID auditActorAPIKey AuditUserRegistered (registered_payload E user roleID)) (\<lambda>_.
     ok user))"

definition Register :: "env \<Rightarrow> AuthService \<Rightarrow> uuid \<Rightarrow> uuid \<Rightarrow> string \<Rightarrow> string \<Rightarrow> (world, error, User) comp" where
  "Register E s tenantID roleID email password =
     bindC (hash_password E password) (\<lambda>hash.
       in_tx E auth_begin_err (\<lambda>e. Errorf ''auth: commit register: '' e '''')
         (register_tx E s tenantID roleID email hash))"

record AuthResult =
  ar_AccessToken :: string
  ar_RefreshToken :: string
  ar_AccessExpiresAt :: instant
  ar_RefreshExpiresAt :: instant

definition hashToken :: "string \<Rightarrow> string" where
  "hashToken raw = hex_EncodeToString (sha256_Sum256 raw)"

definition generateRawToken :: "env \<Rightarrow> (world, error, string \<times> string) comp" where
  "generateRawToken E = (\<lambda>w.
     case rand_Read E (tick w) 32 of
       None \<Rightarrow> (Inl (Errorf ''auth: generate refresh token: '' (Lib ''crypto/rand: read failed'') ''''), step w)
     | Some buf \<Rightarrow> let raw = hex_EncodeToString buf in (Inr (raw, hashToken raw), step w))"

definition access_claims :: "env \<Rightarrow> User \<Rightarrow> instant \<Rightarrow> instant \<Rightarrow> Claims" where
  "access_claims E user expiresAt issuedAt =
     \<lparr>cl_UserID = uuid_String E (usr_ID user), cl_TenantID = uuid_String E (usr_TenantID user),
      cl_RoleID = uuid_String E (usr_RoleID user), cl_Subject = uuid_String E (usr_ID user),
      cl_ExpiresAt = Some (jwt_NewNumericDate E expiresAt),
      cl_IssuedAt = Some (jwt_NewNumericDate E issuedAt)\<rparr>"

definition generateAccessToken :: "env \<Rightarrow> AuthService \<Rightarrow> User \<Rightarrow> (world, error, string \<times> instant) comp" where
  "generateAccessToken E s user =
     bindC (go_now E) (\<lambda>now.
     bindC (go_now E) (\<lambda>issuedAt.
       let expiresAt = now + as_accessTokenTTL s in
       case jwt_SignHS256 E (as_jwtSecret s) (access_claims E user expiresAt issuedAt) of
         Inl msg \<Rightarrow> raise (Errorf ''auth: sign access token: '' (Lib msg) '''')
       | Inr tok \<Rightarrow> ok (tok, expiresAt)))"

definition issueTokenPair :: "env \<Rightarrow> AuthService \<Rightarrow> User \<Rightarrow> (world, error, AuthResult) comp" where
  "issueTokenPair E s user =
     bindC (generateAccessToken E s user) (\<lambda>(accessToken, accessExpiresAt).
     bindC (generateRawToken E) (\<lambda>(rawRefreshToken, tokenHash).
     bindC (CreateRefreshToken E (usr_ID user) (usr_TenantID user) tokenHash (as_refreshTokenTTL s)) (\<lambda>rt.
     ok \<lparr>ar_AccessToken = accessToken, ar_RefreshToken = rawRefreshToken,
         ar_AccessExpiresAt = accessExpiresAt, ar_RefreshExpiresAt = rt_ExpiresAt rt\<rparr>)))"

text \<open>
  The comparison with \<open>dummyBcryptHash\<close> for an unknown email has no result the code uses; only its
  duration matters, which is not modelled.
\<close>

definition login_tx :: "env \<Rightarrow> AuthService \<Rightarrow> User \<Rightarrow> (world, error, AuthResult) comp" where
  "login_tx E s user =
     bindC (issueTokenPair E s user) (\<lambda>result.
     bindC (audited_auth s (usr_TenantID user) (uuid_String E (usr_ID user)) AuditUserLoggedIn
              (user_payload E (usr_ID user))) (\<lambda>_.
     ok result))"

definition Login :: "env \<Rightarrow> AuthService \<Rightarrow> uuid \<Rightarrow> string \<Rightarrow> string \<Rightarrow> (world, error, AuthResult) comp" where
  "Login E s tenantID email password =
     bindC (wrapE (\<lambda>e. if errors_Is e ErrUserNotFound then ErrInvalidCredentials else e)
              (GetUserByEmail E tenantID email)) (\<lambda>user.
     if \<not> bcrypt_Compare E (usr_PasswordHash user) password then raise ErrInvalidCredentials
     else if usr_Status user = UserStatusDisabled then raise ErrUserDisabled
     else in_tx E auth_begin_err (\<lambda>e. Errorf ''auth: commit login: '' e '''') (login_tx E s user))"

definition refresh_tx :: "env \<Rightarrow> AuthService \<Rightarrow> RefreshToken \<Rightarrow> User \<Rightarrow> (world, error, string \<times> RefreshToken) comp" where
  "refresh_tx E s existing user =
     bindC (generateRawToken E) (\<lambda>(newRawToken, newTokenHash).
     bindC (CreateRefreshToken E (usr_ID user) (usr_TenantID user) newTokenHash (as_refreshTokenTTL s)) (\<lambda>newRecord.
     bindC (RotateRefreshToken E (rt_ID existing) (rt_ID newRecord)) (\<lambda>_.
     bindC (audited_auth s (usr_TenantID user) (uuid_String E (usr_ID user)) AuditTokenRefreshed
              (user_payload E (usr_ID user))) (\<lambda>_.
     ok (newRawToken, newRecord)))))"

definition Refresh :: "env \<Rightarrow> AuthService \<Rightarrow> string \<Rightarrow> (world, error, AuthResult) comp" where
  "Refresh E s rawRefreshToken =
     bindC (GetRefreshTokenByHash E (hashToken rawRefreshToken)) (\<lambda>existing.
     if rt_Status existing = RefreshTokenStatusRotated \<or> rt_Status existing = RefreshTokenStatusRevoked then
       bindC (wrapE (\<lambda>e. Errorf ''auth: revoke sessions after detected reuse: '' e '''')
                (RevokeAllUserRefreshTokens E (rt_UserID existing))) (\<lambda>_.
       raise ErrRefreshTokenInvalid)
     else
       bindC (go_now E) (\<lambda>now.
       if rt_ExpiresAt existing < now then raise ErrRefreshTokenInvalid
       else
         bindC (GetUserByID E (rt_TenantID existing) (rt_UserID existing)) (\<lambda>user.
         if usr_Status user = UserStatusDisabled then raise ErrUserDisabled
         else
           bindC (in_tx E auth_begin_err (\<lambda>e. Errorf ''auth: commit refresh: '' e '''')
                    (refresh_tx E s existing user)) (\<lambda>(newRawToken, newRecord).
           bindC (generateAccessToken E s user) (\<lambda>(accessToken, accessExpiresAt).
           ok \<lparr>ar_AccessToken = accessToken, ar_RefreshToken = newRawToken,
               ar_AccessExpiresAt = accessExpiresAt, ar_RefreshExpiresAt = rt_ExpiresAt newRecord\<rparr>)))))"

definition logout_tx :: "env \<Rightarrow> AuthService \<Rightarrow> RefreshToken \<Rightarrow> (world, error, unit) comp" where
  "logout_tx E s existing =
     bindC (RevokeRefreshToken E (rt_ID existing)) (\<lambda>_.
     audited_auth s (rt_TenantID existing) (uuid_String E (rt_UserID existing)) AuditUserLoggedOut
       (user_payload E (rt_UserID existing)))"

definition Logout :: "env \<Rightarrow> AuthService \<Rightarrow> string \<Rightarrow> (world, error, unit) comp" where
  "Logout E s rawRefreshToken =
     bindC (GetRefreshTokenByHash E (hashToken rawRefreshToken)) (\<lambda>existing.
       in_tx E auth_begin_err (\<lambda>e. Errorf ''auth: commit logout: '' e '''') (logout_tx E s existing))"

text \<open>The key function refuses every method outside the HMAC family.\<close>

definition access_key :: "AuthService \<Rightarrow> jwt_method \<Rightarrow> error + string" where
  "access_key s m =
     (case m of
        SigningMethodHMAC alg \<Rightarrow> Inr (as_jwtSecret s)
      | OtherMethod alg \<Rightarrow> Inl (New (''auth: unexpected signing method '' @ alg)))"

definition ValidateAccessToken :: "env \<Rightarrow> AuthService \<Rightarrow> string \<Rightarrow> (world, error, Claims) comp" where
  "ValidateAccessToken E s tokenString = (\<lambda>w.
     case jwt_Parse E (time_Now E (tick w)) (access_key s) tokenString of
       Inl msg \<Rightarrow> (Inl (Errorf ''auth: invalid access token: '' (Lib msg) ''''), step w)
     | Inr (claims, valid) \<Rightarrow>
         if \<not> valid then (Inl (New ''auth: invalid access token''), step w) else (Inr claims, step w))"

end
