(* ===== verification/Auth_Spec.thy ===== *)
theory Auth_Spec
  imports Auth
begin

text \<open>
  The abstract sessions: users are only added, and a refresh token is issued active, then rotated once
  to a successor of the same user or revoked once, and never active again. The service's operations
  are shown to implement these steps, whatever call fails, each with its audit row.
\<close>

section \<open>Steps\<close>

definition new_user :: "env \<Rightarrow> tables \<Rightarrow> User \<Rightarrow> bool" where
  "new_user E d u \<longleftrightarrow> usr_ID u \<notin> usr_ID ` set (users d) \<and> usr_Status u = UserStatusActive \<and>
     \<not> list_ex (has_email E (usr_TenantID u) (usr_Email u)) (users d) \<and>
     tenant_exists d (usr_TenantID u) \<and> usr_RoleID u \<in> role_ID ` set (roles d)"

definition owners :: "tables \<Rightarrow> (uuid \<times> uuid) set" where
  "owners d = (\<lambda>u. (usr_ID u, usr_TenantID u)) ` set (users d)"

definition new_token :: "tables \<Rightarrow> RefreshToken \<Rightarrow> bool" where
  "new_token d r \<longleftrightarrow> rt_ID r \<notin> rt_ID ` set (refresh_tokens d) \<and> rt_TokenHash r \<notin> rt_TokenHash ` set (refresh_tokens d) \<and>
     (rt_UserID r, rt_TenantID r) \<in> owners d \<and> rt_Status r = RefreshTokenStatusActive \<and> rt_ReplacedBy r = None"

definition rotated_to :: "uuid \<Rightarrow> RefreshToken \<Rightarrow> RefreshToken" where
  "rotated_to j r = r\<lparr>rt_Status := RefreshTokenStatusRotated, rt_ReplacedBy := Some j\<rparr>"

definition revoke_where :: "(RefreshToken \<Rightarrow> bool) \<Rightarrow> RefreshToken list \<Rightarrow> RefreshToken list" where
  "revoke_where P = map (\<lambda>r. if P r \<and> rt_Status r = RefreshTokenStatusActive
     then r\<lparr>rt_Status := RefreshTokenStatusRevoked\<rparr> else r)"

inductive session_step :: "env \<Rightarrow> tables \<Rightarrow> tables \<Rightarrow> bool" for E where
  idle: "session_step E d d"
| register: "new_user E d u \<Longrightarrow> session_step E d (d\<lparr>users := users d @ [u]\<rparr>)"
| login: "new_token d r \<Longrightarrow> session_step E d (d\<lparr>refresh_tokens := refresh_tokens d @ [r]\<rparr>)"
| refresh: "new_token d r \<Longrightarrow> old \<in> set (refresh_tokens d) \<Longrightarrow> rotatable (rt_ID old) now old \<Longrightarrow>
    rt_UserID old = rt_UserID r \<Longrightarrow> rt_TenantID old = rt_TenantID r \<Longrightarrow>
    session_step E d (d\<lparr>refresh_tokens :=
      map (\<lambda>x. if rotatable (rt_ID old) now x then rotated_to (rt_ID r) x else x) (refresh_tokens d) @ [r]\<rparr>)"
| logout: "session_step E d (d\<lparr>refresh_tokens := revoke_where (\<lambda>r. rt_ID r = i) (refresh_tokens d)\<rparr>)"
| reuse: "old \<in> set (refresh_tokens d) \<Longrightarrow> rt_Status old \<noteq> RefreshTokenStatusActive \<Longrightarrow>
    session_step E d (d\<lparr>refresh_tokens := revoke_where (\<lambda>r. rt_UserID r = rt_UserID old) (refresh_tokens d)\<rparr>)"

inductive_cases session_stepE: "session_step E d d'"

section \<open>Invariant\<close>

text \<open>
  Identifiers, token hashes and a tenant's email addresses, up to case, are unique; a token belongs to
  a user of its tenant; exactly the rotated tokens have a successor, which is a token of the same user,
  and no two tokens share one.
\<close>

definition succeeds :: "RefreshToken list \<Rightarrow> RefreshToken \<Rightarrow> uuid \<Rightarrow> bool" where
  "succeeds ts r j \<longleftrightarrow> (\<exists>x \<in> set ts. rt_ID x = j \<and> rt_UserID x = rt_UserID r \<and> rt_TenantID x = rt_TenantID r)"

definition session_inv :: "env \<Rightarrow> tables \<Rightarrow> bool" where
  "session_inv E d \<longleftrightarrow>
     distinct (map usr_ID (users d)) \<and>
     distinct (map (\<lambda>u. (usr_TenantID u, pg_lower E (usr_Email u))) (users d)) \<and>
     distinct (map rt_ID (refresh_tokens d)) \<and>
     distinct (map rt_TokenHash (refresh_tokens d)) \<and>
     (\<forall>r \<in> set (refresh_tokens d). (rt_UserID r, rt_TenantID r) \<in> owners d) \<and>
     (\<forall>r \<in> set (refresh_tokens d). (rt_Status r = RefreshTokenStatusRotated) = (rt_ReplacedBy r \<noteq> None)) \<and>
     (\<forall>r \<in> set (refresh_tokens d). \<forall>j. rt_ReplacedBy r = Some j \<longrightarrow> succeeds (refresh_tokens d) r j) \<and>
     distinct (filter (\<lambda>x. x \<noteq> None) (map rt_ReplacedBy (refresh_tokens d)))"

lemma map_cong_if:
  "(\<And>x. f (g x) = f x) \<Longrightarrow> map f (map (\<lambda>x. if P x then g x else x) xs) = map f xs"
  by (induction xs) auto

lemma revoke_where_sel:
  "map rt_ID (revoke_where P ts) = map rt_ID ts" "map rt_TokenHash (revoke_where P ts) = map rt_TokenHash ts"
  "map rt_ReplacedBy (revoke_where P ts) = map rt_ReplacedBy ts"
  unfolding revoke_where_def by (rule map_cong_if, simp)+

lemma revoke_where_mem:
  assumes "r' \<in> set (revoke_where P ts)"
  obtains r where "r \<in> set ts" "rt_ID r' = rt_ID r" "rt_UserID r' = rt_UserID r" "rt_TenantID r' = rt_TenantID r"
    "rt_ReplacedBy r' = rt_ReplacedBy r"
    "(rt_Status r' = RefreshTokenStatusRotated) = (rt_Status r = RefreshTokenStatusRotated)"
  using assms unfolding revoke_where_def by (auto split: if_splits)

lemma succeeds_image:
  assumes "succeeds ts r j" and "\<And>x. rt_ID (f x) = rt_ID x \<and> rt_UserID (f x) = rt_UserID x \<and> rt_TenantID (f x) = rt_TenantID x"
    and "rt_UserID r' = rt_UserID r" and "rt_TenantID r' = rt_TenantID r"
  shows "succeeds (map f ts @ us) r' j"
proof -
  from assms(1) obtain x where "x \<in> set ts" "rt_ID x = j" "rt_UserID x = rt_UserID r" "rt_TenantID x = rt_TenantID r"
    by (auto simp: succeeds_def)
  with assms(2-4) show ?thesis by (auto simp: succeeds_def intro!: bexI [of _ "f x"])
qed

lemma session_inv_revoke:
  assumes "session_inv E d"
  shows "session_inv E (d\<lparr>refresh_tokens := revoke_where P (refresh_tokens d)\<rparr>)"
proof -
  let ?ts = "revoke_where P (refresh_tokens d)"
  have own: "owners (d\<lparr>refresh_tokens := ?ts\<rparr>) = owners d" by (simp add: owners_def)
  have "(rt_UserID r, rt_TenantID r) \<in> owners d \<and>
      ((rt_Status r = RefreshTokenStatusRotated) = (rt_ReplacedBy r \<noteq> None)) \<and>
      (\<forall>j. rt_ReplacedBy r = Some j \<longrightarrow> succeeds ?ts r j)" if "r \<in> set ?ts" for r
    using that
  proof (rule revoke_where_mem)
    fix x assume x: "x \<in> set (refresh_tokens d)" "rt_ID r = rt_ID x" "rt_UserID r = rt_UserID x" "rt_TenantID r = rt_TenantID x"
      "rt_ReplacedBy r = rt_ReplacedBy x" "(rt_Status r = RefreshTokenStatusRotated) = (rt_Status x = RefreshTokenStatusRotated)"
    have "succeeds ?ts r j" if "succeeds (refresh_tokens d) x j" for j
      using succeeds_image [OF that, of "\<lambda>r. if P r \<and> rt_Status r = RefreshTokenStatusActive
         then r\<lparr>rt_Status := RefreshTokenStatusRevoked\<rparr> else r" r "[]"] x
      by (simp add: revoke_where_def)
    with assms x show ?thesis by (simp add: session_inv_def)
  qed
  with assms show ?thesis by (simp add: session_inv_def own revoke_where_sel)
qed

lemma session_inv_login:
  assumes "session_inv E d" and "new_token d r"
  shows "session_inv E (d\<lparr>refresh_tokens := refresh_tokens d @ [r]\<rparr>)"
proof -
  have "succeeds (refresh_tokens d @ [r]) x j" if "succeeds (refresh_tokens d) x j" for x j
    using that by (auto simp: succeeds_def)
  with assms show ?thesis by (auto simp: session_inv_def new_token_def owners_def)
qed

lemma session_inv_register:
  assumes "session_inv E d" and "new_user E d u"
  shows "session_inv E (d\<lparr>users := users d @ [u]\<rparr>)"
proof -
  have "(usr_TenantID u, pg_lower E (usr_Email u)) \<notin> (\<lambda>u. (usr_TenantID u, pg_lower E (usr_Email u))) ` set (users d)"
    using assms(2) by (auto simp: new_user_def list_ex_iff has_email_def)
  with assms show ?thesis by (auto simp: session_inv_def new_user_def owners_def)
qed

lemma rotate_split:
  assumes "distinct (map rt_ID ts)" and "old \<in> set ts" and "rotatable (rt_ID old) now old"
  obtains as bs where "ts = as @ old # bs"
    and "map (\<lambda>x. if rotatable (rt_ID old) now x then rotated_to j x else x) ts = as @ rotated_to j old # bs"
proof -
  from assms(2) obtain as bs where ts: "ts = as @ old # bs" by (meson split_list)
  with assms(1) have "rt_ID x \<noteq> rt_ID old" if "x \<in> set as \<union> set bs" for x
    using that by (auto simp: image_iff)
  then have "map (\<lambda>x. if rotatable (rt_ID old) now x then rotated_to j x else x) as = as"
    "map (\<lambda>x. if rotatable (rt_ID old) now x then rotated_to j x else x) bs = bs"
    by (auto simp: rotatable_def intro!: map_idI)
  with ts assms(3) that show ?thesis by simp
qed

lemma succeeds_swap:
  assumes "rt_ID a = rt_ID b" and "rt_UserID a = rt_UserID b" and "rt_TenantID a = rt_TenantID b"
  shows "succeeds (as @ a # bs) r j \<Longrightarrow> succeeds (as @ b # bs @ cs) r j"
  using assms by (auto simp: succeeds_def)

lemma rotated_to_sel [simp]:
  "rt_ID (rotated_to j r) = rt_ID r" "rt_UserID (rotated_to j r) = rt_UserID r" "rt_TenantID (rotated_to j r) = rt_TenantID r"
  "rt_TokenHash (rotated_to j r) = rt_TokenHash r" "rt_Status (rotated_to j r) = RefreshTokenStatusRotated"
  "rt_ReplacedBy (rotated_to j r) = Some j"
  by (simp_all add: rotated_to_def)

lemma session_inv_successor:
  "session_inv E d \<Longrightarrow> x \<in> set (refresh_tokens d) \<Longrightarrow> rt_ReplacedBy x = Some j \<Longrightarrow> succeeds (refresh_tokens d) x j"
  by (simp add: session_inv_def)

lemma session_inv_refresh:
  assumes inv: "session_inv E d" and new: "new_token d r" and old: "old \<in> set (refresh_tokens d)"
    and rot: "rotatable (rt_ID old) now old" and same: "rt_UserID old = rt_UserID r" "rt_TenantID old = rt_TenantID r"
  shows "session_inv E (d\<lparr>refresh_tokens :=
      map (\<lambda>x. if rotatable (rt_ID old) now x then rotated_to (rt_ID r) x else x) (refresh_tokens d) @ [r]\<rparr>)"
proof -
  have dist: "distinct (map rt_ID (refresh_tokens d))" using inv by (simp add: session_inv_def)
  obtain as bs where ts: "refresh_tokens d = as @ old # bs"
    and rs: "map (\<lambda>x. if rotatable (rt_ID old) now x then rotated_to (rt_ID r) x else x) (refresh_tokens d) =
      as @ rotated_to (rt_ID r) old # bs"
    using rotate_split [OF dist old rot] by metis
  let ?ts = "as @ rotated_to (rt_ID r) old # bs @ [r]"
  have swap: "succeeds ?ts x j" if "succeeds (as @ old # bs) x j" for x j
    using succeeds_swap [OF _ _ _ that, of "rotated_to (rt_ID r) old" "[r]"] by simp
  have "rt_Status old = RefreshTokenStatusActive" using rot by (simp add: rotatable_def)
  then have none: "rt_ReplacedBy old = None"
    using inv old by (force simp: session_inv_def)
  have "rt_ReplacedBy x \<noteq> Some (rt_ID r)" if "x \<in> set (as @ old # bs)" for x
  proof
    assume "rt_ReplacedBy x = Some (rt_ID r)"
    with session_inv_successor [OF inv, of x] that ts have "succeeds (refresh_tokens d) x (rt_ID r)" by simp
    with new show False by (auto simp: succeeds_def new_token_def image_iff)
  qed
  then have "Some (rt_ID r) \<notin> set (filter (\<lambda>x. x \<noteq> None) (map rt_ReplacedBy as))"
    "Some (rt_ID r) \<notin> set (filter (\<lambda>x. x \<noteq> None) (map rt_ReplacedBy bs))" by fastforce+
  with inv new ts none have uniq: "distinct (filter (\<lambda>x. x \<noteq> None) (map rt_ReplacedBy ?ts))"
    by (auto simp: session_inv_def new_token_def)
  have succ: "succeeds ?ts (rotated_to (rt_ID r) old) (rt_ID r)"
    using same by (auto simp: succeeds_def)
  have own: "owners (d\<lparr>refresh_tokens := ?ts\<rparr>) = owners d" by (simp add: owners_def)
  have "(rt_UserID x, rt_TenantID x) \<in> owners d \<and> ((rt_Status x = RefreshTokenStatusRotated) = (rt_ReplacedBy x \<noteq> None)) \<and>
      (\<forall>j. rt_ReplacedBy x = Some j \<longrightarrow> succeeds ?ts x j)" if "x \<in> set ?ts" for x
    using that inv [unfolded session_inv_def ts] new succ swap by (auto simp: new_token_def)
  moreover have "distinct (map rt_ID ?ts)" "distinct (map rt_TokenHash ?ts)"
    using inv new ts by (auto simp: session_inv_def new_token_def)
  ultimately show ?thesis
    using inv uniq unfolding session_inv_def rs by (simp add: own)
qed

lemma session_step_inv: "session_step E d d' \<Longrightarrow> session_inv E d \<Longrightarrow> session_inv E d'"
  by (erule session_stepE)
    (auto intro: session_inv_register session_inv_login session_inv_refresh session_inv_revoke)

section \<open>The life of a token\<close>

text \<open>Rows are never removed, their owner and hash never change, and a token that is not active stays as it is.\<close>

definition token_history :: "RefreshToken list \<Rightarrow> RefreshToken list \<Rightarrow> bool" where
  "token_history ts ts' \<longleftrightarrow> (\<forall>r \<in> set ts. \<exists>r' \<in> set ts'. rt_ID r' = rt_ID r \<and> rt_UserID r' = rt_UserID r \<and>
     rt_TokenHash r' = rt_TokenHash r \<and> (rt_Status r \<noteq> RefreshTokenStatusActive \<longrightarrow> r' = r))"

lemma token_history_refl [simp]: "token_history ts ts"
  by (auto simp: token_history_def)

lemma token_history_trans: "token_history a b \<Longrightarrow> token_history b c \<Longrightarrow> token_history a c"
  unfolding token_history_def by (metis (no_types, lifting))

lemma token_history_append: "token_history ts us \<Longrightarrow> token_history ts (us @ vs)"
  unfolding token_history_def by (metis UnCI set_append)

lemma token_history_map:
  assumes "\<And>x. P x \<Longrightarrow> rt_Status x = RefreshTokenStatusActive"
    and "\<And>x. rt_ID (f x) = rt_ID x \<and> rt_UserID (f x) = rt_UserID x \<and> rt_TokenHash (f x) = rt_TokenHash x"
  shows "token_history ts (map (\<lambda>x. if P x then f x else x) ts)"
  unfolding token_history_def
proof
  fix r
  assume "r \<in> set ts"
  then have "(if P r then f r else r) \<in> set (map (\<lambda>x. if P x then f x else x) ts)" by auto
  then show "\<exists>r' \<in> set (map (\<lambda>x. if P x then f x else x) ts). rt_ID r' = rt_ID r \<and> rt_UserID r' = rt_UserID r \<and>
     rt_TokenHash r' = rt_TokenHash r \<and> (rt_Status r \<noteq> RefreshTokenStatusActive \<longrightarrow> r' = r)"
    by (rule bexI [rotated]) (use assms in auto)
qed

lemma session_step_history: "session_step E d d' \<Longrightarrow> token_history (refresh_tokens d) (refresh_tokens d')"
  by (erule session_stepE)
    (auto simp: revoke_where_def rotatable_def intro!: token_history_append token_history_map)

section \<open>What the service's transactions write\<close>

text \<open>\<open>audit_written s t actor act p d d'\<close>: one audit row where a recorder is configured, none otherwise.\<close>

definition audit_written :: "AuthService \<Rightarrow> uuid \<Rightarrow> string \<Rightarrow> string \<Rightarrow> string \<Rightarrow> tables \<Rightarrow> tables \<Rightarrow> bool" where
  "audit_written s t actor act p d d' \<longleftrightarrow>
     (if as_audit s = None then audit_log d' = audit_log d else one_audit t actor act p d d')"

lemma insert_user_InrD:
  assumes "insert_user E t role email h now uid d = Inr ((i, c), d')"
  shows "\<exists>u. d' = d\<lparr>users := users d @ [u]\<rparr> \<and> new_user E d u \<and> i = uid \<and> c = now \<and>
    u = \<lparr>usr_ID = i, usr_TenantID = t, usr_RoleID = role, usr_Email = email, usr_PasswordHash = h,
      usr_Status = UserStatusActive, usr_CreatedAt = c\<rparr>"
  using assms by (auto simp: insert_user_def new_user_def split: if_splits)

lemma CreateUser_InrD:
  assumes "CreateUser E t role email h w = (Inr u, w')"
  shows "db w' = (db w)\<lparr>users := users (db w) @ [u]\<rparr> \<and> new_user E (db w) u \<and> usr_TenantID u = t \<and> usr_RoleID u = role \<and>
    usr_Email u = email \<and> usr_PasswordHash u = h"
  using assms unfolding CreateUser_def
  by (fastforce elim!: bindC_InrE dest!: wrapE_InrD ok_InrD pg_InrD insert_user_InrD split: prod.splits)

lemma CreateRefreshToken_InrD:
  assumes "CreateRefreshToken E u t h ttl w = (Inr r, w')"
  shows "db w' = (db w)\<lparr>refresh_tokens := refresh_tokens (db w) @ [r]\<rparr> \<and> new_token (db w) r \<and> rt_UserID r = u \<and>
    rt_TenantID r = t \<and> rt_TokenHash r = h \<and> rt_ExpiresAt r = pg_timestamptz E (time_Now E (tick w) + ttl)"
  using assms
  by (auto simp: CreateRefreshToken_def bindC_def go_now_def wrapE_def pg_def ok_def insert_token_def new_token_def owners_def
      split: fault.splits sum.splits prod.splits if_splits)

lemma RotateRefreshToken_InrD:
  assumes "RotateRefreshToken E i j w = (Inr u, w')"
  shows "db w' = (db w)\<lparr>refresh_tokens := map (\<lambda>x. if rotatable i (sql_now E w) x then rotated_to j x else x)
      (refresh_tokens (db w))\<rparr> \<and> (\<exists>x \<in> set (refresh_tokens (db w)). rotatable i (sql_now E w) x)"
  using assms
  by (auto simp: RotateRefreshToken_def bindC_def wrapE_def pg_def ok_def raise_def rotate_token_def rotated_to_def [abs_def]
      filter_empty_conv Let_def split: fault.splits sum.splits prod.splits if_splits)

lemma revoke_InrD:
  assumes "wrapE g (pg E (revoke_tokens P)) w = (Inr u, w')"
  shows "db w' = (db w)\<lparr>refresh_tokens := revoke_where P (refresh_tokens (db w))\<rparr>"
  using assms by (auto simp: revoke_tokens_def revoke_where_def dest!: wrapE_InrD pg_InrD)

lemma keeps_generateAccessToken: "keeps db (generateAccessToken E s u)"
  by (auto simp: keeps_def generateAccessToken_def bindC_def go_now_def ok_def raise_def Let_def split: sum.splits)

lemma generateRawToken_InrD:
  "generateRawToken E w = (Inr (raw, h), w') \<Longrightarrow> h = hashToken raw \<and> w' = step w"
  by (auto simp: generateRawToken_def Let_def split: option.splits)

lemma tx_now_generateRawToken: "generateRawToken E w = (r, w') \<Longrightarrow> tx_now w' = tx_now w \<and> db w' = db w"
  by (auto simp: generateRawToken_def Let_def split: option.splits)

locale auth_service = audit_port stored "as_audit s"
  for stored :: "string \<Rightarrow> string" and s :: AuthService
begin

lemma audited_auth_InrD:
  assumes "audited_auth s t actor act p w = (Inr u, w')"
  shows "sans_audit (db w') = sans_audit (db w) \<and> audit_written s t actor act (stored (json_Marshal p)) (db w) (db w')"
proof (cases "as_audit s")
  case None
  with assms show ?thesis by (auto simp: audited_auth_def recordAudit_auth_def audit_written_def dest!: wrapE_InrD ok_InrD)
next
  case (Some f)
  with assms have run: "f t actor act (json_Marshal p) w = (Inr u, w')"
    by (auto simp: audited_auth_def recordAudit_auth_def dest!: wrapE_InrD)
  from keepsD [OF record_frame [OF Some] run] record_appends [OF Some run] Some
  show ?thesis by (simp add: audit_written_def)
qed

lemma register_tx_InrD:
  assumes "register_tx E s t role email h w = (Inr u, w')"
  shows "sans_audit (db w') = sans_audit ((db w)\<lparr>users := users (db w) @ [u]\<rparr>) \<and> new_user E (db w) u \<and>
    usr_TenantID u = t \<and> usr_RoleID u = role \<and> usr_Email u = email \<and> usr_PasswordHash u = h \<and>
    audit_written s t auditActorAPIKey AuditUserRegistered (stored (json_Marshal (registered_payload E u role))) (db w) (db w')"
  using assms unfolding register_tx_def
  by (auto elim!: bindC_InrE dest!: ok_InrD CreateUser_InrD audited_auth_InrD simp: audit_written_def one_audit_def split: if_splits)

lemma login_tx_InrD:
  assumes "login_tx E s user w = (Inr res, w')"
  shows "\<exists>r. sans_audit (db w') = sans_audit ((db w)\<lparr>refresh_tokens := refresh_tokens (db w) @ [r]\<rparr>) \<and> new_token (db w) r \<and>
    rt_UserID r = usr_ID user \<and> rt_TenantID r = usr_TenantID user \<and> rt_TokenHash r = hashToken (ar_RefreshToken res) \<and>
    rt_ExpiresAt r = ar_RefreshExpiresAt res \<and>
    audit_written s (usr_TenantID user) (uuid_String E (usr_ID user)) AuditUserLoggedIn
      (stored (json_Marshal (user_payload E (usr_ID user)))) (db w) (db w')"
proof -
  obtain w1 where issue: "issueTokenPair E s user w = (Inr res, w1)"
    and aud: "audited_auth s (usr_TenantID user) (uuid_String E (usr_ID user)) AuditUserLoggedIn (user_payload E (usr_ID user)) w1 = (Inr (), w')"
    using assms unfolding login_tx_def by (auto elim!: bindC_InrE dest!: ok_InrD)
  from issue obtain r where "db w1 = (db w)\<lparr>refresh_tokens := refresh_tokens (db w) @ [r]\<rparr>" "new_token (db w) r"
    "rt_UserID r = usr_ID user" "rt_TenantID r = usr_TenantID user" "rt_TokenHash r = hashToken (ar_RefreshToken res)"
    "rt_ExpiresAt r = ar_RefreshExpiresAt res"
    unfolding issueTokenPair_def
    by (auto elim!: bindC_InrE dest!: ok_InrD CreateRefreshToken_InrD generateRawToken_InrD
        keepsD [OF keeps_generateAccessToken] split: prod.splits)
  with audited_auth_InrD [OF aud] show ?thesis
    by (auto simp: audit_written_def one_audit_def split: if_splits)
qed

lemma refresh_tx_InrD:
  assumes "refresh_tx E s old user w = (Inr (raw, r), w')" and "rt_ID old \<in> rt_ID ` set (refresh_tokens (db w))"
  shows "\<exists>now. sans_audit (db w') = sans_audit ((db w)\<lparr>refresh_tokens :=
      map (\<lambda>x. if rotatable (rt_ID old) now x then rotated_to (rt_ID r) x else x) (refresh_tokens (db w)) @ [r]\<rparr>) \<and>
    new_token (db w) r \<and> (\<exists>x \<in> set (refresh_tokens (db w)). rotatable (rt_ID old) now x) \<and>
    rt_UserID r = usr_ID user \<and> rt_TenantID r = usr_TenantID user \<and> rt_TokenHash r = hashToken raw \<and>
    audit_written s (usr_TenantID user) (uuid_String E (usr_ID user)) AuditTokenRefreshed
      (stored (json_Marshal (user_payload E (usr_ID user)))) (db w) (db w')"
proof -
  obtain h w1 w2 w3 u where gen: "generateRawToken E w = (Inr (raw, h), w1)"
    and cr: "CreateRefreshToken E (usr_ID user) (usr_TenantID user) h (as_refreshTokenTTL s) w1 = (Inr r, w2)"
    and ro: "RotateRefreshToken E (rt_ID old) (rt_ID r) w2 = (Inr u, w3)"
    and aud: "audited_auth s (usr_TenantID user) (uuid_String E (usr_ID user)) AuditTokenRefreshed (user_payload E (usr_ID user)) w3 = (Inr (), w')"
    using assms(1) unfolding refresh_tx_def by (auto elim!: bindC_InrE dest!: ok_InrD split: prod.splits)
  note gen' = generateRawToken_InrD [OF gen]
  have db1: "db w1 = db w" using gen' by simp
  note cr' = CreateRefreshToken_InrD [OF cr, unfolded db1]
  have fresh: "rt_ID r \<noteq> rt_ID old" using cr' assms(2) by (auto simp: new_token_def)
  let ?now = "sql_now E w2"
  have db3: "db w3 = (db w)\<lparr>refresh_tokens :=
      map (\<lambda>x. if rotatable (rt_ID old) ?now x then rotated_to (rt_ID r) x else x) (refresh_tokens (db w)) @ [r]\<rparr>"
    and some: "\<exists>x \<in> set (refresh_tokens (db w)). rotatable (rt_ID old) ?now x"
    using RotateRefreshToken_InrD [OF ro] cr' fresh by (auto simp: rotatable_def)
  from audited_auth_InrD [OF aud] db3 some cr' gen' show ?thesis
    by (intro exI [of _ ?now]) (auto simp: audit_written_def one_audit_def split: if_splits)
qed

lemma logout_tx_InrD:
  assumes "logout_tx E s old w = (Inr u, w')"
  shows "sans_audit (db w') = sans_audit ((db w)\<lparr>refresh_tokens := revoke_where (\<lambda>r. rt_ID r = rt_ID old) (refresh_tokens (db w))\<rparr>) \<and>
    audit_written s (rt_TenantID old) (uuid_String E (rt_UserID old)) AuditUserLoggedOut
      (stored (json_Marshal (user_payload E (rt_UserID old)))) (db w) (db w')"
  using assms unfolding logout_tx_def RevokeRefreshToken_def
  by (auto elim!: bindC_InrE dest!: revoke_InrD audited_auth_InrD simp: audit_written_def one_audit_def split: if_splits)

end

section \<open>Every call is a step\<close>

lemma sans_audit_sel [simp]:
  "users (sans_audit d) = users d" "refresh_tokens (sans_audit d) = refresh_tokens d" "roles (sans_audit d) = roles d"
  "tenants (sans_audit d) = tenants d"
  by (simp_all add: sans_audit_def)

lemma sans_audit_upd:
  "sans_audit (d\<lparr>users := us\<rparr>) = (sans_audit d)\<lparr>users := us\<rparr>"
  "sans_audit (d\<lparr>refresh_tokens := ts\<rparr>) = (sans_audit d)\<lparr>refresh_tokens := ts\<rparr>"
  by (simp_all add: sans_audit_def)

lemma new_sans_audit [simp]:
  "new_user E (sans_audit d) u = new_user E d u" "new_token (sans_audit d) r = new_token d r"
  by (simp_all add: new_user_def new_token_def owners_def tenant_exists_def)

lemma session_inv_sans_audit [simp]: "session_inv E (sans_audit d) = session_inv E d"
  by (simp add: session_inv_def owners_def)

definition session_moves :: "env \<Rightarrow> tables \<Rightarrow> tables \<Rightarrow> bool" where
  "session_moves E d d' \<longleftrightarrow> session_step E (sans_audit d) (sans_audit d')"

lemma session_moves_refl [simp]: "session_moves E d d"
  by (simp add: session_moves_def idle)

lemma leads_tx:
  fixes w :: world
  assumes "P (db w)" and "\<And>a w0 w'. db w0 = db w \<Longrightarrow> body w0 = (Inr a, w') \<Longrightarrow> P (db w')"
  shows "leads (in_tx E bE cE body) P w"
  using assms(1)
proof (rule leads_in_tx)
  show "wp body (\<lambda>_ w'. P (db w')) (\<lambda>_ _. True) w0" if "db w0 = db w" for w0
    using assms(2) [OF that] by (auto simp: wp_def split: prod.splits sum.splits)
qed

lemma keeps_hash_password: "keeps db (hash_password E pw)"
  by (auto simp: keeps_def hash_password_def split: sum.splits)

lemma GetRefreshTokenByHash_InrD:
  assumes "GetRefreshTokenByHash E h w = (Inr r, w')"
  shows "db w' = db w" and "r \<in> set (refresh_tokens (db w))" and "rt_TokenHash r = h"
  using assms
  by (auto simp: GetRefreshTokenByHash_def select_token_def split: option.splits
      dest!: wrapE_InrD pg_select_InrD dest: find_SomeD)

lemma GetUserByID_InrD:
  assumes "GetUserByID E t i w = (Inr u, w')"
  shows "db w' = db w" and "u \<in> set (users (db w))" and "usr_TenantID u = t" and "usr_ID u = i"
  using assms
  by (auto simp: GetUserByID_def scanUser_def select_user_def split: option.splits
      dest!: wrapE_InrD pg_select_InrD dest: find_SomeD)

lemma GetUserByEmail_InrD:
  assumes "GetUserByEmail E t email w = (Inr u, w')"
  shows "db w' = db w" and "u \<in> set (users (db w))" and "has_email E t email u"
  using assms
  by (auto simp: GetUserByEmail_def scanUser_def select_user_def split: option.splits
      dest!: wrapE_InrD pg_select_InrD dest: find_SomeD)

lemma leads_keeps: "keeps db m \<Longrightarrow> P (db w) \<Longrightarrow> leads m P w"
  by (simp add: leads_def keeps_def)

lemma keeps_auth_reads:
  "keeps db (GetRefreshTokenByHash E h)" "keeps db (GetUserByID E t i)" "keeps db (GetUserByEmail E t email)"
  unfolding GetRefreshTokenByHash_def GetUserByID_def GetUserByEmail_def scanUser_def
  using keeps_pg_select [of "\<lambda>d. d"] by (auto intro!: keeps_wrapE)

lemma leads_revoke:
  assumes "P (db w)" and "P ((db w)\<lparr>refresh_tokens := revoke_where Q (refresh_tokens (db w))\<rparr>)"
  shows "leads (pg E (revoke_tokens Q)) P w"
  using assms by (auto simp: leads_wp wp_pg revoke_tokens_def revoke_where_def split: fault.splits)

context auth_service
begin

lemma leads_Register: "leads (Register E s t role email pw) (session_moves E (db w)) w"
proof -
  have "leads (in_tx E auth_begin_err g (register_tx E s t role email h)) (session_moves E (db w)) w1"
    if "db w1 = db w" for w1 h g
    using that session_step.register [of E "sans_audit (db w)"]
    by (intro leads_tx) (auto simp: session_moves_def sans_audit_upd dest!: register_tx_InrD intro: idle)
  then show ?thesis
    unfolding Register_def by (intro leads_bind_keeps [OF keeps_hash_password]) auto
qed

lemma leads_Login: "leads (Login E s t email pw) (session_moves E (db w)) w"
proof -
  have "leads (in_tx E auth_begin_err g (login_tx E s u)) (session_moves E (db w)) w1"
    if "db w1 = db w" for w1 u g
    using that session_step.login [of "sans_audit (db w)" _ E]
    by (intro leads_tx) (auto simp: session_moves_def sans_audit_upd dest!: login_tx_InrD intro: idle)
  then show ?thesis
    unfolding Login_def
    by (intro leads_bind_keeps [OF keeps_wrapE [OF keeps_auth_reads(3)]]) (auto simp: leads_simps)
qed

lemma leads_Logout: "leads (Logout E s raw) (session_moves E (db w)) w"
proof -
  have "leads (in_tx E auth_begin_err g (logout_tx E s r)) (session_moves E (db w)) w1"
    if "db w1 = db w" for w1 r g
    using that session_step.logout [of E "sans_audit (db w)"]
    by (intro leads_tx) (auto simp: session_moves_def sans_audit_upd dest!: logout_tx_InrD intro: idle)
  then show ?thesis
    unfolding Logout_def by (intro leads_bind_keeps [OF keeps_auth_reads(1)]) auto
qed

lemma leads_refresh_tx:
  assumes "session_inv E (db w)" and "old \<in> set (refresh_tokens (db w))"
    and "usr_ID u = rt_UserID old" and "usr_TenantID u = rt_TenantID old" and "db w1 = db w"
  shows "leads (in_tx E auth_begin_err g (refresh_tx E s old u)) (session_moves E (db w)) w1"
proof (rule leads_tx)
  show "session_moves E (db w) (db w1)" by (simp add: assms(5))
  fix a w0 w'
  assume "db w0 = db w1" and run: "refresh_tx E s old u w0 = (Inr a, w')"
  then have db0: "db w0 = db w" using assms(5) by simp
  obtain raw r where a: "a = (raw, r)" by fastforce
  from refresh_tx_InrD [OF run [unfolded a]] assms(2) db0 obtain now x where
    new: "sans_audit (db w') = sans_audit ((db w)\<lparr>refresh_tokens :=
        map (\<lambda>x. if rotatable (rt_ID old) now x then rotated_to (rt_ID r) x else x) (refresh_tokens (db w)) @ [r]\<rparr>)"
      "new_token (db w) r" "rt_UserID r = usr_ID u" "rt_TenantID r = usr_TenantID u"
    and x: "x \<in> set (refresh_tokens (db w))" "rotatable (rt_ID old) now x" by auto
  have "distinct (map rt_ID (refresh_tokens (db w)))" using assms(1) by (simp add: session_inv_def)
  then have "x = old" using x assms(2) by (auto simp: distinct_map inj_on_def rotatable_def)
  with session_step.refresh [of "sans_audit (db w)" r old now E] new x assms(2-4)
  show "session_moves E (db w) (db w')" by (simp add: session_moves_def sans_audit_upd)
qed

lemma leads_Refresh:
  assumes "session_inv E (db w)"
  shows "leads (Refresh E s raw) (session_moves E (db w)) w"
  unfolding Refresh_def
proof (rule leads_bind)
  show "leads (GetRefreshTokenByHash E (hashToken raw)) (session_moves E (db w)) w"
    by (rule leads_keeps [OF keeps_auth_reads(1)]) simp
  fix old w1
  assume "GetRefreshTokenByHash E (hashToken raw) w = (Inr old, w1)"
  note old = GetRefreshTokenByHash_InrD [OF this]
  let ?tail = "\<lambda>user. bindC (in_tx E auth_begin_err (\<lambda>e. Errorf ''auth: commit refresh: '' e '''') (refresh_tx E s old user))
     (\<lambda>(newRawToken, newRecord). bindC (generateAccessToken E s user) (\<lambda>(accessToken, accessExpiresAt).
           ok \<lparr>ar_AccessToken = accessToken, ar_RefreshToken = newRawToken,
               ar_AccessExpiresAt = accessExpiresAt, ar_RefreshExpiresAt = rt_ExpiresAt newRecord\<rparr>))"
  have tail: "leads (?tail u) (session_moves E (db w)) w2"
    if "db w2 = db w" "usr_ID u = rt_UserID old" "usr_TenantID u = rt_TenantID old" for u w2
    using leads_refresh_tx [OF assms old(2) that(2,3,1)]
    by (rule leads_bind)
      (auto intro!: leads_bind leads_keeps [OF keeps_generateAccessToken] simp: leads_simps split: prod.splits)
  show "leads (if rt_Status old = RefreshTokenStatusRotated \<or> rt_Status old = RefreshTokenStatusRevoked then
       bindC (wrapE (\<lambda>e. Errorf ''auth: revoke sessions after detected reuse: '' e '''')
                (RevokeAllUserRefreshTokens E (rt_UserID old))) (\<lambda>_. raise ErrRefreshTokenInvalid)
     else
       bindC (go_now E) (\<lambda>now.
       if rt_ExpiresAt old < now then raise ErrRefreshTokenInvalid
       else
         bindC (GetUserByID E (rt_TenantID old) (rt_UserID old)) (\<lambda>user.
         if usr_Status user = UserStatusDisabled then raise ErrUserDisabled else ?tail user)))
     (session_moves E (db w)) w1"
  proof (cases "rt_Status old = RefreshTokenStatusRotated \<or> rt_Status old = RefreshTokenStatusRevoked")
    case True
    then have "session_moves E (db w) ((db w)\<lparr>refresh_tokens := revoke_where (\<lambda>r. rt_UserID r = rt_UserID old) (refresh_tokens (db w))\<rparr>)"
      using session_step.reuse [of old "sans_audit (db w)" E] old(2) by (auto simp: session_moves_def sans_audit_upd)
    with True old(1) show ?thesis
      by (auto simp: RevokeAllUserRefreshTokens_def leads_simps intro!: leads_bind leads_revoke)
  next
    case False
    have "leads (bindC (GetUserByID E (rt_TenantID old) (rt_UserID old)) (\<lambda>user.
         if usr_Status user = UserStatusDisabled then raise ErrUserDisabled else ?tail user)) (session_moves E (db w)) w2"
      if "db w2 = db w" for w2
    proof (rule leads_bind)
      show "leads (GetUserByID E (rt_TenantID old) (rt_UserID old)) (session_moves E (db w)) w2"
        by (rule leads_keeps [OF keeps_auth_reads(2)]) (simp add: that)
      fix u w3
      assume "GetUserByID E (rt_TenantID old) (rt_UserID old) w2 = (Inr u, w3)"
      note u = GetUserByID_InrD [OF this]
      show "leads (if usr_Status u = UserStatusDisabled then raise ErrUserDisabled else ?tail u) (session_moves E (db w)) w3"
        using tail [of w3 u] u that by (simp add: leads_simps)
    qed
    with False old(1) show ?thesis by (simp add: leads_simps)
  qed
qed

end

text \<open>The service as \<open>cmd/api/main.go\<close> builds it, with the audit repository, and one without audit.\<close>

definition authSvc :: "env \<Rightarrow> string \<Rightarrow> AuthService" where
  "authSvc E secret = NewAuthService secret [WithAuthAuditRecorder (RecordAudit E)]"

lemma authSvc_sel [simp]:
  "as_audit (authSvc E secret) = Some (RecordAudit E)" "as_jwtSecret (authSvc E secret) = secret"
  "as_accessTokenTTL (authSvc E secret) = DefaultAccessTokenTTL" "as_refreshTokenTTL (authSvc E secret) = DefaultRefreshTokenTTL"
  by (simp_all add: authSvc_def NewAuthService_def WithAuthAuditRecorder_def)

interpretation prod_auth: auth_service "pg_jsonb E" "authSvc E secret"
  unfolding auth_service_def authSvc_sel by (rule audit_repo.audit_port_axioms)

interpretation bare_auth: auth_service stored "NewAuthService secret []"
  by unfold_locales (simp_all add: NewAuthService_def)

end
