(* ===== verification/Auth_Properties.thy ===== *)
theory Auth_Properties
  imports Auth_Spec Fixtures
begin

text \<open>
  What the authentication service promises: its calls implement the abstract sessions, a refresh token
  is rotated at most once and never revived, a replayed token ends every session of its user, a login
  answers an unknown email like a wrong password, and an access token says whose it is.
\<close>

section \<open>Sequences of calls\<close>

datatype auth_op =
    DoRegister uuid uuid string string
  | DoLogin uuid string string
  | DoRefresh string
  | DoLogout string

fun run_auth_op :: "env \<Rightarrow> AuthService \<Rightarrow> auth_op \<Rightarrow> world \<Rightarrow> world" where
  "run_auth_op E s (DoRegister t role email pw) w = snd (Register E s t role email pw w)"
| "run_auth_op E s (DoLogin t email pw) w = snd (Login E s t email pw w)"
| "run_auth_op E s (DoRefresh raw) w = snd (Refresh E s raw w)"
| "run_auth_op E s (DoLogout raw) w = snd (Logout E s raw w)"

definition run_auth_ops :: "env \<Rightarrow> AuthService \<Rightarrow> auth_op list \<Rightarrow> world \<Rightarrow> world" where
  "run_auth_ops E s ops w = fold (run_auth_op E s) ops w"

lemma auth_op_moves:
  "session_inv E (db w) \<Longrightarrow> session_moves E (db w) (db (run_auth_op E (authSvc E k) op w))"
  using prod_auth.leads_Register prod_auth.leads_Login prod_auth.leads_Refresh prod_auth.leads_Logout
  by (cases op) (simp_all add: leads_def)

lemma auth_ops_invariants:
  assumes "session_inv E (db w)"
  shows "session_inv E (db (run_auth_ops E (authSvc E k) ops w)) \<and>
    token_history (refresh_tokens (db w)) (refresh_tokens (db (run_auth_ops E (authSvc E k) ops w)))"
  using assms
proof (induction ops arbitrary: w)
  case Nil
  then show ?case by (simp add: run_auth_ops_def)
next
  case (Cons op ops)
  let ?w = "run_auth_op E (authSvc E k) op w"
  note move = auth_op_moves [OF Cons.prems, of k op, unfolded session_moves_def]
  have "session_inv E (db ?w)" using session_step_inv [OF move] Cons.prems by simp
  with Cons.IH [of ?w] session_step_history [OF move] show ?case
    by (auto simp: run_auth_ops_def intro: token_history_trans)
qed

text \<open>
  C26. The authentication service implements the abstract sessions: each of its calls, whichever of its
  database calls fails, adds one user, adds one session, rotates one active token of a user to a new
  token of the same user, revokes one token, revokes all tokens of a user one of whose tokens was
  replayed, or changes nothing.
\<close>

theorem auth_service_refines_sessions:
  assumes "session_inv E (db w)"
  shows "session_step E (sans_audit (db w)) (sans_audit (db (run_auth_op E (authSvc E k) op w)))"
  using auth_op_moves [OF assms] by (simp add: session_moves_def)

text \<open>
  Users and sessions stay consistent over any sequence of calls and failures: identifiers and token
  hashes are unique, a tenant has one user per email address up to case, every token belongs to a user
  of its tenant, and the rotated tokens, and only they, have a successor, of the same user, that no
  other token has.
\<close>

theorem sessions_stay_consistent:
  assumes "session_inv E (db w)"
  shows "session_inv E (db (run_auth_ops E (authSvc E k) ops w))"
  using auth_ops_invariants [OF assms] by blast

text \<open>
  C27. No call revives a session: over any sequence of calls a refresh token keeps its owner and hash,
  and once it is rotated or revoked its row never changes again.
\<close>

theorem refresh_tokens_are_never_revived:
  assumes "session_inv E (db w)" and "r \<in> set (refresh_tokens (db w))"
  shows "\<exists>r' \<in> set (refresh_tokens (db (run_auth_ops E (authSvc E k) ops w))).
    rt_ID r' = rt_ID r \<and> rt_UserID r' = rt_UserID r \<and> rt_TokenHash r' = rt_TokenHash r \<and>
    (rt_Status r \<noteq> RefreshTokenStatusActive \<longrightarrow> r' = r)"
  using auth_ops_invariants [OF assms(1)] assms(2) unfolding token_history_def by blast

section \<open>A race for one token\<close>

text \<open>
  The statements other sessions may run between two rotations of the same token, committed one after
  the other.
\<close>

datatype token_op =
    TokCreate uuid uuid string duration
  | TokRotate uuid uuid
  | TokRevoke uuid
  | TokRevokeAll uuid

fun run_token_op :: "env \<Rightarrow> token_op \<Rightarrow> world \<Rightarrow> world" where
  "run_token_op E (TokCreate u t h ttl) w = snd (CreateRefreshToken E u t h ttl w)"
| "run_token_op E (TokRotate i j) w = snd (RotateRefreshToken E i j w)"
| "run_token_op E (TokRevoke i) w = snd (RevokeRefreshToken E i w)"
| "run_token_op E (TokRevokeAll u) w = snd (RevokeAllUserRefreshTokens E u w)"

text \<open>\<open>spent i ts\<close>: the token \<open>i\<close> exists and none of its rows is active.\<close>

definition spent :: "uuid \<Rightarrow> RefreshToken list \<Rightarrow> bool" where
  "spent i ts \<longleftrightarrow> i \<in> rt_ID ` set ts \<and> (\<forall>r \<in> set ts. rt_ID r = i \<longrightarrow> rt_Status r \<noteq> RefreshTokenStatusActive)"

lemma spent_map:
  assumes "spent i ts" and "\<And>x. rt_ID (f x) = rt_ID x" and "\<And>x. rt_Status (f x) = RefreshTokenStatusActive \<Longrightarrow> rt_Status x = RefreshTokenStatusActive"
  shows "spent i (map f ts)"
proof -
  from assms(1) obtain x where "x \<in> set ts" "rt_ID x = i" by (auto simp: spent_def)
  then have "i \<in> rt_ID ` set (map f ts)" using assms(2) by (force simp: image_iff)
  with assms show ?thesis by (auto simp: spent_def)
qed

lemma spent_insert_token:
  "insert_token E u t h ex now uid d = Inr (a, d') \<Longrightarrow> spent i (refresh_tokens d) \<Longrightarrow> spent i (refresh_tokens d')"
  by (auto simp: insert_token_def spent_def split: if_splits)

lemma spent_rotate_token:
  "rotate_token x j now uid d = Inr (n, d') \<Longrightarrow> spent i (refresh_tokens d) \<Longrightarrow> spent i (refresh_tokens d')"
  by (auto simp: rotate_token_def Let_def split: if_splits intro!: spent_map)

lemma spent_revoke_tokens:
  "revoke_tokens P now uid d = Inr (u, d') \<Longrightarrow> spent i (refresh_tokens d) \<Longrightarrow> spent i (refresh_tokens d')"
  by (auto simp: revoke_tokens_def split: if_splits intro!: spent_map)

lemma leads_pg:
  "I (db w) \<Longrightarrow> (\<And>now uid a d'. q now uid (db w) = Inr (a, d') \<Longrightarrow> I d') \<Longrightarrow> leads (pg E q) I w"
  by (auto simp: leads_wp wp_pg split: fault.splits sum.splits)

lemma run_token_op_spent:
  assumes "spent i (refresh_tokens (db w))"
  shows "spent i (refresh_tokens (db (run_token_op E op w)))"
proof -
  let ?I = "\<lambda>d. spent i (refresh_tokens d)"
  have "leads (CreateRefreshToken E u t h ttl) ?I w" for u t h ttl
  proof -
    have "leads (pg E (insert_token E u t h ex)) ?I (step w)" for ex
      by (rule leads_pg) (use assms in \<open>simp_all add: spent_insert_token\<close>)
    then show ?thesis
      unfolding CreateRefreshToken_def leads_go_now
      by (intro leads_bind) (simp_all add: leads_simps split: prod.splits)
  qed
  moreover have "leads (RotateRefreshToken E x j) ?I w" for x j
  proof -
    have "leads (pg E (rotate_token x j)) ?I w"
      by (rule leads_pg) (use assms in \<open>simp_all add: spent_rotate_token\<close>)
    then show ?thesis
      unfolding RotateRefreshToken_def by (intro leads_bind) (simp_all add: leads_simps)
  qed
  moreover have "leads (RevokeRefreshToken E x) ?I w" for x
    unfolding RevokeRefreshToken_def leads_wrapE
    by (rule leads_pg) (use assms in \<open>simp_all add: spent_revoke_tokens\<close>)
  moreover have "leads (RevokeAllUserRefreshTokens E u) ?I w" for u
    unfolding RevokeAllUserRefreshTokens_def leads_wrapE
    by (rule leads_pg) (use assms in \<open>simp_all add: spent_revoke_tokens\<close>)
  ultimately show ?thesis by (cases op) (simp_all add: leads_def)
qed

lemma run_token_ops_spent: "spent i (refresh_tokens (db w)) \<Longrightarrow> spent i (refresh_tokens (db (fold (run_token_op E) ops w)))"
  by (induction ops arbitrary: w) (simp_all add: run_token_op_spent)

lemma rotated_spent:
  assumes "RotateRefreshToken E i j w = (Inr u, w')" and "distinct (map rt_ID (refresh_tokens (db w)))"
  shows "spent i (refresh_tokens (db w'))"
proof -
  let ?now = "sql_now E w"
  note rot = RotateRefreshToken_InrD [OF assms(1)]
  then obtain x where x: "x \<in> set (refresh_tokens (db w))" "rotatable i ?now x" by blast
  have "rt_ID x = i" using x by (simp add: rotatable_def)
  have "y = x" if "y \<in> set (refresh_tokens (db w))" "rt_ID y = i" for y
    using assms(2) that x(1) \<open>rt_ID x = i\<close> by (auto simp: distinct_map inj_on_def)
  then have inactive: "rt_Status y \<noteq> RefreshTokenStatusActive" if "y \<in> set (refresh_tokens (db w'))" "rt_ID y = i" for y
    using that rot x(2) by (auto split: if_splits)
  have "rotated_to j x \<in> set (refresh_tokens (db w'))" using rot x by auto
  then have "rt_ID (rotated_to j x) \<in> rt_ID ` set (refresh_tokens (db w'))" by (rule imageI)
  with inactive \<open>rt_ID x = i\<close> show ?thesis by (simp add: spent_def)
qed

text \<open>
  C28. A refresh token is rotated at most once, also when several sessions race for it: after one rotation
  has succeeded, and whatever statements on tokens other sessions commit meanwhile, a second rotation
  of the same token does not succeed, even for a session that read the token while it was active.
\<close>

theorem token_is_rotated_at_most_once:
  assumes "distinct (map rt_ID (refresh_tokens (db w)))"
    and "RotateRefreshToken E i j w = (Inr u, w')"
  shows "isl (fst (RotateRefreshToken E i j' (fold (run_token_op E) ops w')))"
proof -
  let ?w = "fold (run_token_op E) ops w'"
  have "spent i (refresh_tokens (db ?w))" using rotated_spent [OF assms(2,1)] by (rule run_token_ops_spent)
  then have none: "\<not> (\<exists>x \<in> set (refresh_tokens (db ?w)). rotatable i n x)" for n
    by (auto simp: spent_def rotatable_def)
  show ?thesis
  proof (cases "RotateRefreshToken E i j' ?w")
    case (Pair r w2)
    then show ?thesis
      using RotateRefreshToken_InrD [of E i j' ?w _ w2] none by (cases r) auto
  qed
qed

section \<open>Login over a database that answers\<close>










section \<open>Refresh over a database that answers\<close>








section \<open>Access tokens\<close>


definition jwt_asks_for_key :: "env \<Rightarrow> (string \<Rightarrow> jwt_method) \<Rightarrow> bool" where
  "jwt_asks_for_key E alg \<longleftrightarrow> (\<forall>now key tok c. jwt_Parse E now key tok = Inr (c, True) \<longrightarrow> (\<exists>k. key (alg tok) = Inr k))"


text \<open>
  C32. A token whose header names a signing method outside the HMAC family, \<open>none\<close> or RS256 say, is never
  accepted, whatever its claims and signature.
\<close>

theorem only_hmac_tokens_are_accepted:
  assumes "jwt_asks_for_key E alg" and "fst (ValidateAccessToken E s tok w) = Inr c"
  shows "\<exists>a. alg tok = SigningMethodHMAC a"
proof -
  from assms(2) have "jwt_Parse E (time_Now E (tick w)) (access_key s) tok = Inr (c, True)"
    by (auto simp: ValidateAccessToken_def split: sum.splits prod.splits if_splits)
  with assms(1) obtain key where "access_key s (alg tok) = Inr key" unfolding jwt_asks_for_key_def by blast
  then show ?thesis by (cases "alg tok") (simp_all add: access_key_def)
qed

section \<open>Witnesses\<close>

definition demo_user :: User where
  "demo_user = \<lparr>usr_ID = 31, usr_TenantID = 1, usr_RoleID = 3, usr_Email = ''Ann@x.org'', usr_PasswordHash = ''$pw'',
     usr_Status = UserStatusActive, usr_CreatedAt = 0\<rparr>"

definition demo_token :: "token_status \<Rightarrow> RefreshToken" where
  "demo_token st = \<lparr>rt_ID = 41, rt_UserID = 31, rt_TenantID = 1, rt_TokenHash = hashToken ''raw'', rt_Status = st,
     rt_ReplacedBy = None, rt_CreatedAt = 0, rt_ExpiresAt = 500\<rparr>"

definition demo_sessions :: "RefreshToken list \<Rightarrow> tables" where
  "demo_sessions ts = empty_tables\<lparr>tenants := [demo_tenant 1],
     roles := [\<lparr>role_ID = 3, role_Name = ''viewer'', role_Description = None, role_CreatedAt = 0\<rparr>],
     users := [demo_user], refresh_tokens := ts\<rparr>"

lemma demo_session_inv:
  "session_inv demo_env (db (demo_world (demo_sessions [])))"
  "st \<noteq> RefreshTokenStatusRotated \<Longrightarrow> session_inv demo_env (db (demo_world (demo_sessions [demo_token st])))"
  by (simp_all add: session_inv_def owners_def demo_sessions_def demo_user_def demo_token_def demo_world_def)

theorem auth_service_refines_sessions_witness:
  "session_step demo_env (sans_audit (demo_sessions []))
     (sans_audit (db (run_auth_op demo_env (authSvc demo_env ''k'') (DoLogin 1 ''ann@X.org'' ''pw'') (demo_world (demo_sessions [])))))"
  using auth_service_refines_sessions [OF demo_session_inv(1), of "''k''" "DoLogin 1 ''ann@X.org'' ''pw''"]
  by (simp add: demo_world_def)

theorem sessions_stay_consistent_witness:
  "session_inv demo_env (db (run_auth_ops demo_env (authSvc demo_env ''k'')
     [DoLogin 1 ''ann@X.org'' ''pw'', DoRefresh ''x'', DoLogout ''y''] (demo_world (demo_sessions []))))"
  by (rule sessions_stay_consistent [OF demo_session_inv(1)])

theorem refresh_tokens_are_never_revived_witness:
  "\<exists>r' \<in> set (refresh_tokens (db (run_auth_ops demo_env (authSvc demo_env ''k'')
     [DoRefresh ''raw''] (demo_world (demo_sessions [demo_token RefreshTokenStatusRevoked]))))).
     r' = demo_token RefreshTokenStatusRevoked"
  using refresh_tokens_are_never_revived [OF demo_session_inv(2), of RefreshTokenStatusRevoked "demo_token RefreshTokenStatusRevoked"
      "''k''" "[DoRefresh ''raw'']"]
  by (simp add: demo_world_def demo_sessions_def demo_token_def)

lemma demo_rotation:
  "\<exists>w'. RotateRefreshToken demo_env 41 41 (demo_world (demo_sessions [demo_token RefreshTokenStatusActive])) = (Inr (), w')"
  by (simp add: RotateRefreshToken_def bindC_def wrapE_def pg_def rotate_token_def rotatable_def sql_now_def demo_defs
      demo_sessions_def demo_token_def ok_def Let_def)

theorem token_is_rotated_at_most_once_witness:
  "\<exists>w'. RotateRefreshToken demo_env 41 41 (demo_world (demo_sessions [demo_token RefreshTokenStatusActive])) = (Inr (), w') \<and>
     isl (fst (RotateRefreshToken demo_env 41 42 (fold (run_token_op demo_env) [TokRevokeAll 7] w')))"
proof -
  obtain w' where run: "RotateRefreshToken demo_env 41 41 (demo_world (demo_sessions [demo_token RefreshTokenStatusActive])) = (Inr (), w')"
    using demo_rotation by blast
  have "distinct (map rt_ID (refresh_tokens (db (demo_world (demo_sessions [demo_token RefreshTokenStatusActive])))))"
    by (simp add: demo_world_def demo_sessions_def)
  from token_is_rotated_at_most_once [OF this run] run show ?thesis by blast
qed







definition demo_alg :: "string \<Rightarrow> jwt_method" where
  "demo_alg tok = SigningMethodHMAC ''HS256''"

definition demo_jwt_token :: string where
  "demo_jwt_token = put_field ''k'' @ put_field ''u'' @ put_field ''t'' @ put_field ''r''"

theorem only_hmac_tokens_are_accepted_witness: "\<exists>a. demo_alg demo_jwt_token = SigningMethodHMAC a"
proof (rule only_hmac_tokens_are_accepted [where E = demo_env and s = "authSvc demo_env ''k''" and w = "demo_world (demo_sessions [])"])
  show "jwt_asks_for_key demo_env demo_alg"
    unfolding jwt_asks_for_key_def demo_alg_def
  proof (intro allI impI)
    fix now key tok c
    assume "jwt_Parse demo_env now key tok = Inr (c, True)"
    then show "\<exists>k. key (SigningMethodHMAC ''HS256'') = Inr k"
      by (cases "key (SigningMethodHMAC ''HS256'')") (simp_all add: demo_env_def demo_parse_def split: prod.splits)
  qed
  show "fst (ValidateAccessToken demo_env (authSvc demo_env ''k'') demo_jwt_token (demo_world (demo_sessions []))) =
      Inr \<lparr>cl_UserID = ''u'', cl_TenantID = ''t'', cl_RoleID = ''r'', cl_Subject = ''u'', cl_ExpiresAt = None, cl_IssuedAt = None\<rparr>"
    by (simp add: ValidateAccessToken_def demo_env_def demo_parse_def access_key_def demo_jwt_token_def)
qed

end
