(* ===== verification/Middleware.thy ===== *)
theory Middleware
  imports Auth Tenants
begin

text \<open>
  The middleware of \<open>internal/middleware\<close> other than idempotency: authentication by access token and
  authorisation by permission (\<open>auth\<close>), request logging (\<open>logging\<close>), request metrics (\<open>metrics\<close>) and panic
  recovery (\<open>recovery\<close>), and the API-key gate of \<open>cmd/api/handlers.go\<close>. The interfaces the first two depend
  on are locales, interpreted for the auth service.
\<close>

section \<open>Authentication and authorisation\<close>

type_synonym TokenValidator = "string \<Rightarrow> (world, error, Claims) comp"
type_synonym PermissionChecker = "uuid \<Rightarrow> uuid \<Rightarrow> (world, error, string list) comp"

definition bearer_prefix :: string where
  "bearer_prefix = ''Bearer ''"

definition auth_Middleware :: "env \<Rightarrow> TokenValidator \<Rightarrow> http_Handler \<Rightarrow> http_Handler" where
  "auth_Middleware E validator next r =
     (let header = header_Get (rq_Header r) ''Authorization'' in
      if \<not> (take (length bearer_prefix) header = bearer_prefix) \<or> length header \<le> length bearer_prefix
      then respond (http_Error ''missing or malformed Authorization header'' 401)
      else let tokenString = drop (length bearer_prefix) header in
        perform (validator tokenString) (\<lambda>res.
          case res of
            Inl err \<Rightarrow> respond (http_Error ''invalid or expired access token'' 401)
          | Inr claims \<Rightarrow>
              (case uuid_Parse E (cl_TenantID claims) of
                 None \<Rightarrow> respond (http_Error ''token contains an invalid tenant claim'' 401)
               | Some tenantID \<Rightarrow> next (WithClaims (WithTenantID r tenantID) claims))))"

primrec hasPermission :: "string list \<Rightarrow> string \<Rightarrow> bool" where
  "hasPermission [] want = False"
| "hasPermission (p # perms) want = (if p = want then True else hasPermission perms want)"

definition RequirePermission :: "env \<Rightarrow> PermissionChecker \<Rightarrow> string \<Rightarrow> http_Handler \<Rightarrow> http_Handler" where
  "RequirePermission E checker permission next r =
     (case ClaimsFromContext r of
        None \<Rightarrow> respond (http_Error ''auth: no authenticated user in request context'' 500)
      | Some claims \<Rightarrow>
          (case uuid_Parse E (cl_UserID claims) of
             None \<Rightarrow> respond (http_Error ''token contains an invalid user claim'' 401)
           | Some userID \<Rightarrow>
               (case FromContext r of
                  None \<Rightarrow> respond (http_Error ''auth: no tenant in request context'' 500)
                | Some tenantID \<Rightarrow>
                    perform (checker tenantID userID) (\<lambda>res.
                      case res of
                        Inl err \<Rightarrow> respond (http_Error ''permission check failed'' 500)
                      | Inr perms \<Rightarrow>
                          if \<not> hasPermission perms permission
                          then respond (http_Error (''missing required permission: '' @ permission) 403)
                          else next r))))"

definition requireTenantAPIKey :: "env \<Rightarrow> http_Handler \<Rightarrow> http_Handler" where
  "requireTenantAPIKey E next r =
     (let rawKey = header_Get (rq_Header r) ''X-API-Key'' in
      if rawKey = '''' then respond (http_Error ''X-API-Key header required'' 401)
      else perform (VerifyAPIKey E rawKey) (\<lambda>res.
        case res of
          Inl err \<Rightarrow> respond (http_Error ''invalid API key'' 401)
        | Inr tenantID \<Rightarrow> next (WithTenantID r tenantID)))"

section \<open>Logging and metrics\<close>

text \<open>
  The \<open>statusRecorder\<close> of the logging package: the wrapping writer remembers the status of the last
  \<open>WriteHeader\<close>. The metrics package has one of its own below.
\<close>

record statusRecorder =
  sr_statusCode :: int
  sr_wroteHead :: bool

fun statusRecorder_call :: "wcall \<Rightarrow> statusRecorder \<Rightarrow> statusRecorder" where
  "statusRecorder_call (WriteHeader code) r = r\<lparr>sr_statusCode := code, sr_wroteHead := True\<rparr>"
| "statusRecorder_call (Write b) r = (if \<not> sr_wroteHead r then r\<lparr>sr_statusCode := 200\<rparr> else r)"
| "statusRecorder_call _ r = r"

definition recorded_status :: "wcall list \<Rightarrow> int" where
  "recorded_status cs = sr_statusCode (fold statusRecorder_call cs \<lparr>sr_statusCode = 200, sr_wroteHead = False\<rparr>)"

definition log_to :: "log_line \<Rightarrow> world \<Rightarrow> world" where
  "log_to l w = w\<lparr>logs := logs w @ [l]\<rparr>"

text \<open>\<open>Duration.Milliseconds\<close>: integer division that truncates towards zero.\<close>

definition Milliseconds :: "duration \<Rightarrow> int" where
  "Milliseconds d = (if d < 0 then - (- d div 1000000) else d div 1000000)"

definition request_line :: "Request \<Rightarrow> int \<Rightarrow> duration \<Rightarrow> log_line" where
  "request_line r status elapsed =
     (''INFO'', ''request'',
      [(''request_id'', LogString (rq_RequestID r)), (''method'', LogString (rq_Method r)),
       (''path'', LogString (rq_Path r)), (''status'', LogInt status),
       (''duration_ms'', LogInt (Milliseconds elapsed)), (''remote_addr'', LogString (rq_RemoteAddr r))])"

definition logging_Middleware :: "env \<Rightarrow> http_Handler \<Rightarrow> http_Handler" where
  "logging_Middleware E next r = (\<lambda>w.
     case next r (step w) of
       (calls, Some p, w') \<Rightarrow> (calls, Some p, w')
     | (calls, None, w') \<Rightarrow>
         (calls, None,
          log_to (request_line r (recorded_status calls) (time_Now E (tick w') - time_Now E (tick w))) (step w')))"

definition routePattern :: "Request \<Rightarrow> string" where
  "routePattern r = (if rq_Route r \<noteq> '''' then rq_Route r else ''unmatched'')"

record metrics_statusRecorder =
  msr_statusCode :: int
  msr_wroteHead :: bool

fun metrics_statusRecorder_call :: "wcall \<Rightarrow> metrics_statusRecorder \<Rightarrow> metrics_statusRecorder" where
  "metrics_statusRecorder_call (WriteHeader code) r = r\<lparr>msr_statusCode := code, msr_wroteHead := True\<rparr>"
| "metrics_statusRecorder_call (Write b) r = (if \<not> msr_wroteHead r then r\<lparr>msr_statusCode := 200\<rparr> else r)"
| "metrics_statusRecorder_call _ r = r"

definition metrics_recorded_status :: "wcall list \<Rightarrow> int" where
  "metrics_recorded_status cs =
     msr_statusCode (fold metrics_statusRecorder_call cs \<lparr>msr_statusCode = 200, msr_wroteHead = False\<rparr>)"

text \<open>A histogram's observation is counted; its value is not kept.\<close>

definition inc_metric :: "metric \<Rightarrow> world \<Rightarrow> world" where
  "inc_metric m w = w\<lparr>counters := (counters w)(m := Suc (counters w m))\<rparr>"

definition metrics_Middleware :: "env \<Rightarrow> http_Handler \<Rightarrow> http_Handler" where
  "metrics_Middleware E next r = (\<lambda>w.
     case next r (step w) of
       (calls, Some p, w') \<Rightarrow> (calls, Some p, w')
     | (calls, None, w') \<Rightarrow>
         (calls, None,
          inc_metric (HTTPRequestDuration (rq_Method r) (routePattern r))
            (inc_metric (HTTPRequestsTotal (rq_Method r) (routePattern r) (FormatInt (metrics_recorded_status calls))) (step w'))))"

section \<open>Recovery\<close>

definition panic_line :: "env \<Rightarrow> Request \<Rightarrow> string \<Rightarrow> nat \<Rightarrow> log_line" where
  "panic_line E r v n =
     (''ERROR'', ''panic recovered'',
      [(''request_id'', LogString (rq_RequestID r)), (''method'', LogString (rq_Method r)),
       (''path'', LogString (rq_Path r)), (''panic'', LogString v), (''stack'', LogString (debug_Stack E n))])"

definition internal_error :: "wcall list" where
  "internal_error =
     [HeaderSet ''Content-Type'' ''application/json'', WriteHeader 500,
      Write (CHR 0x7B # ''\"error\":\"internal server error\"'' @ [CHR 0x7D])]"

definition recovery_Middleware :: "env \<Rightarrow> http_Handler \<Rightarrow> http_Handler" where
  "recovery_Middleware E next r = (\<lambda>w.
     case next r w of
       (calls, None, w') \<Rightarrow> (calls, None, w')
     | (calls, Some ErrAbortHandler, w') \<Rightarrow> (calls, Some ErrAbortHandler, w')
     | (calls, Some (Panic v), w') \<Rightarrow>
         (calls @ internal_error, None, log_to (panic_line E r v (tick w')) (step w')))"

text \<open>The two recorders see the same calls and keep the same status.\<close>

lemma recorders_agree [simp]: "metrics_recorded_status cs = recorded_status cs"
proof -
  have "msr_statusCode (fold metrics_statusRecorder_call cs r) = sr_statusCode (fold statusRecorder_call cs s)"
    if "msr_statusCode r = sr_statusCode s" "msr_wroteHead r = sr_wroteHead s" for r s
    using that
  proof (induction cs arbitrary: r s)
    case (Cons c cs)
    then show ?case by (cases c) simp_all
  qed simp
  then show ?thesis by (simp add: metrics_recorded_status_def recorded_status_def)
qed

section \<open>What the gates rely on\<close>

lemma hasPermission_iff: "hasPermission perms p \<longleftrightarrow> p \<in> set perms"
  by (induction perms) auto

text \<open>\<open>refused c r w\<close>: the request was answered with the error status \<open>c\<close>, and the tables are those of \<open>w\<close>.\<close>

definition refused :: "int set \<Rightarrow> served \<Rightarrow> world \<Rightarrow> bool" where
  "refused codes out w \<longleftrightarrow>
     (\<exists>code \<in> codes. \<exists>msg. fst out = http_Error msg code) \<and> fst (snd out) = None \<and> db (snd (snd out)) = db w"

definition bearer_token :: "Request \<Rightarrow> string option" where
  "bearer_token r =
     (let h = header_Get (rq_Header r) ''Authorization'' in
      if take (length bearer_prefix) h = bearer_prefix \<and> length bearer_prefix < length h
      then Some (drop (length bearer_prefix) h) else None)"

locale token_validator =
  fixes validate :: TokenValidator
  assumes validate_reads: "keeps db (validate tok)"
begin

text \<open>
  Either the request is refused with 401 whatever the handler is, or it bears a token the validator
  accepts and the handler runs on the request extended by the token's tenant and claims.
\<close>

lemma auth_gate:
  shows "(\<forall>nxt. refused {401} (auth_Middleware E validate nxt r w) w \<and>
                auth_Middleware E validate nxt r w = auth_Middleware E validate nxt0 r w) \<or>
    (\<exists>tok claims t w1. bearer_token r = Some tok \<and> validate tok w = (Inr claims, w1) \<and> db w1 = db w \<and>
       uuid_Parse E (cl_TenantID claims) = Some t \<and>
       (\<forall>nxt. auth_Middleware E validate nxt r w = nxt (WithClaims (WithTenantID r t) claims) w1))"
proof (cases "bearer_token r")
  case None
  then have "auth_Middleware E validate nxt r w =
      (http_Error ''missing or malformed Authorization header'' 401, None, w)" for nxt
    by (auto simp: bearer_token_def auth_Middleware_def respond_def Let_def split: if_splits)
  then show ?thesis by (auto simp: refused_def)
next
  case (Some tok)
  then have mw: "auth_Middleware E validate nxt r w =
      perform (validate tok) (\<lambda>res. case res of
         Inl err \<Rightarrow> respond (http_Error ''invalid or expired access token'' 401)
       | Inr claims \<Rightarrow> (case uuid_Parse E (cl_TenantID claims) of
           None \<Rightarrow> respond (http_Error ''token contains an invalid tenant claim'' 401)
         | Some t \<Rightarrow> nxt (WithClaims (WithTenantID r t) claims))) w" for nxt
    by (auto simp: bearer_token_def auth_Middleware_def Let_def split: if_splits)
  obtain res w1 where run: "validate tok w = (res, w1)" by fastforce
  then have "db w1 = db w" using keepsD [OF validate_reads run] by simp
  then show ?thesis using Some run unfolding mw
    by (cases res) (auto simp: perform_def refused_def respond_def split: option.splits)
qed

end

locale permission_checker =
  fixes check :: PermissionChecker and grants :: "tables \<Rightarrow> uuid \<Rightarrow> uuid \<Rightarrow> string set"
  assumes check_reads: "keeps db (check t u)"
    and check_sound: "check t u w = (Inr perms, w') \<Longrightarrow> set perms = grants (db w) t u"
begin

lemma permission_gate:
  assumes "rq_Claims r = Some claims" and "rq_TenantID r = Some t"
  shows "(\<forall>nxt. refused {401, 403, 500} (RequirePermission E check p nxt r w) w \<and>
                RequirePermission E check p nxt r w = RequirePermission E check p nxt0 r w) \<or>
    (\<exists>u perms w1. uuid_Parse E (cl_UserID claims) = Some u \<and> check t u w = (Inr perms, w1) \<and> db w1 = db w \<and>
       p \<in> grants (db w) t u \<and> (\<forall>nxt. RequirePermission E check p nxt r w = nxt r w1))"
proof (cases "uuid_Parse E (cl_UserID claims)")
  case None
  with assms show ?thesis
    by (auto simp: RequirePermission_def ClaimsFromContext_def refused_def respond_def)
next
  case (Some u)
  obtain res w1 where run: "check t u w = (res, w1)" by fastforce
  then have "db w1 = db w" using keepsD [OF check_reads run] by simp
  then show ?thesis using assms Some run check_sound [of t u w _ w1]
    by (cases res)
      (auto simp: RequirePermission_def ClaimsFromContext_def FromContext_def perform_def refused_def respond_def
        hasPermission_iff)
qed

end

text \<open>The auth service provides both.\<close>

interpretation access_tokens: token_validator "ValidateAccessToken E s"
  by unfold_locales (auto simp: ValidateAccessToken_def keeps_def split: sum.splits prod.splits)

interpretation user_permissions: permission_checker "GetUserPermissions E"
    "\<lambda>d t u. set (select_permissions t u d)"
proof unfold_locales
  show "keeps db (GetUserPermissions E t u)" for t u
    using keeps_pg_select [of id] by (auto simp: GetUserPermissions_def intro!: keeps_wrapE)
  show "set perms = set (select_permissions t u (db w))" if "GetUserPermissions E t u w = (Inr perms, w')" for t u w perms w'
    using that by (auto simp: GetUserPermissions_def dest!: wrapE_InrD pg_select_InrD)
qed

end
