(* ===== verification/Json_Decode.thy ===== *)
theory Json_Decode
  imports Json
begin

text \<open>
  \<open>json.NewDecoder(body).Decode(&v)\<close> of Go's \<open>encoding/json\<close>, for the request structs of the program: the
  scanner, which reads one JSON value and ignores what follows it, and the decoding of that value into
  a struct with string, \<open>int64\<close> and slice-of-struct fields. Names are matched without regard to case, a
  repeated name overwrites, \<open>null\<close> leaves a string, number or struct as it was, unknown names are
  skipped, and a value of another type is an error. Every error is \<open>None\<close>: the callers do not look at it.
  With it \<open>strconv.Atoi\<close>, and \<open>json.NewEncoder(w).Encode(v)\<close>.
\<close>

section \<open>Tokens\<close>

datatype jvalue =
    VNull
  | VBool bool
  | VNum string
  | VStr string
  | VArr "jvalue list"
  | VObj "(string \<times> jvalue) list"

datatype token = TPunct char | TVal jvalue

definition is_digit :: "char \<Rightarrow> bool" where
  "is_digit c \<longleftrightarrow> 48 \<le> (of_char c :: nat) \<and> (of_char c :: nat) < 58"

definition hex_val :: "char \<Rightarrow> nat option" where
  "hex_val c =
     (let n = (of_char c :: nat) in
      if 48 \<le> n \<and> n < 58 then Some (n - 48)
      else if 97 \<le> n \<and> n < 103 then Some (n - 87)
      else if 65 \<le> n \<and> n < 71 then Some (n - 55)
      else None)"

definition hex4 :: "string \<Rightarrow> nat option" where
  "hex4 s =
     (case s of
        a # b # c # d # _ \<Rightarrow>
          (case (hex_val a, hex_val b, hex_val c, hex_val d) of
             (Some w, Some x, Some y, Some z) \<Rightarrow> Some (w * 4096 + x * 256 + y * 16 + z)
           | _ \<Rightarrow> None)
      | _ \<Rightarrow> None)"

definition utf8_encode :: "nat \<Rightarrow> string" where
  "utf8_encode r =
     (if r < 128 then [char_of r]
      else if r < 2048 then [char_of (192 + r div 64), char_of (128 + r mod 64)]
      else if r < 65536 then [char_of (224 + r div 4096), char_of (128 + r div 64 mod 64), char_of (128 + r mod 64)]
      else [char_of (240 + r div 262144), char_of (128 + r div 4096 mod 64), char_of (128 + r div 64 mod 64),
            char_of (128 + r mod 64)])"

definition RuneError :: nat where "RuneError = 65533"

text \<open>
  What follows a backslash: the bytes it stands for and how many characters it takes. A surrogate is read
  with the escape after it when the two form a pair, and replaced when they do not.
\<close>

definition unescape :: "string \<Rightarrow> (string \<times> nat) option" where
  "unescape s =
     (case s of
        [] \<Rightarrow> None
      | e # r \<Rightarrow>
          if e = CHR 0x22 \<or> e = CHR 0x5C \<or> e = CHR ''/'' then Some ([e], 1)
          else if e = CHR ''b'' then Some ([CHR 0x08], 1)
          else if e = CHR ''f'' then Some ([CHR 0x0C], 1)
          else if e = CHR ''n'' then Some ([CHR 0x0A], 1)
          else if e = CHR ''r'' then Some ([CHR 0x0D], 1)
          else if e = CHR ''t'' then Some ([CHR 0x09], 1)
          else if e = CHR ''u'' then
            (case hex4 r of
               None \<Rightarrow> None
             | Some v \<Rightarrow>
                 if \<not> (55296 \<le> v \<and> v < 57344) then Some (utf8_encode v, 5)
                 else
                   (case (if take 2 (drop 4 r) = [CHR 0x5C, CHR ''u''] then hex4 (drop 6 r) else None) of
                      Some v2 \<Rightarrow>
                        if v < 56320 \<and> 56320 \<le> v2 \<and> v2 < 57344
                        then Some (utf8_encode ((v - 55296) * 1024 + (v2 - 56320) + 65536), 11)
                        else Some (utf8_encode RuneError, 5)
                    | None \<Rightarrow> Some (utf8_encode RuneError, 5)))
          else None)"

definition prepend :: "string \<Rightarrow> (string \<times> string) option \<Rightarrow> (string \<times> string) option" where
  "prepend s x = (case x of None \<Rightarrow> None | Some (a, b) \<Rightarrow> Some (s @ a, b))"

text \<open>The rest of a string after its opening quote: the bytes it denotes, and what follows it.\<close>

fun string_body :: "string \<Rightarrow> (string \<times> string) option" where
  "string_body [] = None"
| "string_body (c # cs) =
     (if c = CHR 0x22 then Some ([], cs)
      else if c = CHR 0x5C then
        (case unescape cs of None \<Rightarrow> None | Some (out, k) \<Rightarrow> prepend out (string_body (drop k cs)))
      else if (of_char c :: nat) < 32 then None
      else if (of_char c :: nat) < 128 then prepend [c] (string_body cs)
      else let w = rune_width (map of_char (c # cs)) in
        if w = 0 then prepend (utf8_encode RuneError) (string_body cs)
        else prepend (take w (c # cs)) (string_body (drop (w - 1) cs)))"

text \<open>A number: its literal and what follows it.\<close>

definition digits1 :: "string \<Rightarrow> (string \<times> string) option" where
  "digits1 s = (let ds = takeWhile is_digit s in if ds = [] then None else Some (ds, dropWhile is_digit s))"

definition scan_fraction :: "string \<Rightarrow> (string \<times> string) option" where
  "scan_fraction s = (case s of c # r \<Rightarrow> if c = CHR ''.'' then prepend [c] (digits1 r) else Some ([], s) | [] \<Rightarrow> Some ([], s))"

definition scan_exponent :: "string \<Rightarrow> (string \<times> string) option" where
  "scan_exponent s =
     (case s of
        c # r \<Rightarrow>
          if c = CHR ''e'' \<or> c = CHR ''E'' then
            (case r of
               d # r' \<Rightarrow> if d = CHR ''+'' \<or> d = CHR ''-'' then prepend [c, d] (digits1 r') else prepend [c] (digits1 r)
             | [] \<Rightarrow> None)
          else Some ([], s)
      | [] \<Rightarrow> Some ([], s))"

definition scan_integer :: "string \<Rightarrow> (string \<times> string) option" where
  "scan_integer s = (case s of c # r \<Rightarrow> if c = CHR ''0'' then Some ([c], r) else digits1 s | [] \<Rightarrow> None)"

definition scan_number :: "string \<Rightarrow> (string \<times> string) option" where
  "scan_number s =
     (let (sign, r0) = (case s of c # r \<Rightarrow> if c = CHR ''-'' then ([c], r) else ([], s) | [] \<Rightarrow> ([], s)) in
      case scan_integer r0 of
        None \<Rightarrow> None
      | Some (i, r1) \<Rightarrow>
          (case scan_fraction r1 of
             None \<Rightarrow> None
           | Some (f, r2) \<Rightarrow> prepend (sign @ i @ f) (scan_exponent r2)))"

definition next_token :: "string \<Rightarrow> (token \<times> string) option" where
  "next_token s =
     (case dropWhile json_space s of
        [] \<Rightarrow> None
      | c # r \<Rightarrow>
          if c \<in> {CHR 0x7B, CHR 0x7D, CHR ''['', CHR '']'', CHR '':'', CHR '',''} then Some (TPunct c, r)
          else if c = CHR 0x22 then map_option (\<lambda>(v, r'). (TVal (VStr v), r')) (string_body r)
          else if c = CHR ''-'' \<or> is_digit c then map_option (\<lambda>(v, r'). (TVal (VNum v), r')) (scan_number (c # r))
          else if take 4 (c # r) = ''true'' then Some (TVal (VBool True), drop 3 r)
          else if take 5 (c # r) = ''false'' then Some (TVal (VBool False), drop 4 r)
          else if take 4 (c # r) = ''null'' then Some (TVal VNull, drop 3 r)
          else None)"

section \<open>Values\<close>

text \<open>
  The scanner keeps a stack of the arrays and objects that are open, at most \<open>maxNestingDepth\<close>, and what
  it expects next. An open object remembers the name whose value is being read.
\<close>

datatype frame = FArr "jvalue list" | FObj "(string \<times> jvalue) list" string

datatype expect = XValue | XValueOrEnd | XKeyOrEnd | XKey | XColon | XCommaOrEnd

datatype shifted = Reject | Accept jvalue | More expect "frame list"

definition maxNestingDepth :: nat where "maxNestingDepth = 10000"

fun complete_value :: "jvalue \<Rightarrow> frame list \<Rightarrow> shifted" where
  "complete_value v [] = Accept v"
| "complete_value v (FArr vs # st) = More XCommaOrEnd (FArr (v # vs) # st)"
| "complete_value v (FObj ms k # st) = More XCommaOrEnd (FObj ((k, v) # ms) k # st)"

definition open_frame :: "expect \<Rightarrow> frame \<Rightarrow> frame list \<Rightarrow> shifted" where
  "open_frame x f st = (if length st < maxNestingDepth then More x (f # st) else Reject)"

definition shift_value :: "jvalue \<Rightarrow> expect \<Rightarrow> frame list \<Rightarrow> shifted" where
  "shift_value v x st =
     (case x of
        XValue \<Rightarrow> complete_value v st
      | XValueOrEnd \<Rightarrow> complete_value v st
      | _ \<Rightarrow>
          (if x = XKey \<or> x = XKeyOrEnd then
             (case (v, st) of (VStr k, FObj ms _ # st') \<Rightarrow> More XColon (FObj ms k # st') | _ \<Rightarrow> Reject)
           else Reject))"

definition shift_punct :: "char \<Rightarrow> expect \<Rightarrow> frame list \<Rightarrow> shifted" where
  "shift_punct c x st =
     (if (x = XValue \<or> x = XValueOrEnd) \<and> c = CHR 0x7B then open_frame XKeyOrEnd (FObj [] '''') st
      else if (x = XValue \<or> x = XValueOrEnd) \<and> c = CHR ''['' then open_frame XValueOrEnd (FArr []) st
      else if x = XColon \<and> c = CHR '':'' then More XValue st
      else
        (case st of
           FArr vs # st' \<Rightarrow>
             if (x = XValueOrEnd \<or> x = XCommaOrEnd) \<and> c = CHR '']'' then complete_value (VArr (rev vs)) st'
             else if x = XCommaOrEnd \<and> c = CHR '','' then More XValue st
             else Reject
         | FObj ms k # st' \<Rightarrow>
             if (x = XKeyOrEnd \<or> x = XCommaOrEnd) \<and> c = CHR 0x7D then complete_value (VObj (rev ms)) st'
             else if x = XCommaOrEnd \<and> c = CHR '','' then More XKey st
             else Reject
         | [] \<Rightarrow> Reject))"

fun shift :: "token \<Rightarrow> expect \<Rightarrow> frame list \<Rightarrow> shifted" where
  "shift (TVal v) x st = shift_value v x st"
| "shift (TPunct c) x st = shift_punct c x st"

lemma prepend_SomeD: "prepend s x = Some (a, b) \<Longrightarrow> \<exists>a'. x = Some (a', b)"
  by (auto simp: prepend_def split: option.splits)

lemma string_body_shorter: "string_body s = Some (a, b) \<Longrightarrow> length b < length s"
proof (induction "length s" arbitrary: s a rule: less_induct)
  case less
  have tail: "length b < length (c # cs)" if "s = c # cs" "string_body (drop k cs) = Some (x, b)" for c cs k x
    using less(1) [of "drop k cs" x] that by (simp add: less_Suc_eq_le)
  show ?case
  proof (cases s)
    case (Cons c cs)
    from less(2) have "b = cs \<or> (\<exists>k x. string_body (drop k cs) = Some (x, b))"
      unfolding Cons string_body.simps(2)
      by (auto simp only: Let_def option.simps prod.simps split: if_splits option.splits prod.splits
          dest!: prepend_SomeD intro: exI [where x = 0] exI)
        (metis drop0)+
    then show ?thesis using tail [OF Cons] Cons by auto
  qed (use less(2) in simp)
qed

lemma digits1_shorter: "digits1 s = Some (a, b) \<Longrightarrow> length b < length s"
proof -
  assume d: "digits1 s = Some (a, b)"
  have "length s = length (takeWhile is_digit s) + length (dropWhile is_digit s)"
    by (metis length_append takeWhile_dropWhile_id)
  with d show ?thesis by (auto simp: digits1_def Let_def split: if_splits)
qed

lemma scan_fraction_shorter: "scan_fraction s = Some (a, b) \<Longrightarrow> length b \<le> length s"
  by (force simp: scan_fraction_def split: list.splits if_splits dest!: prepend_SomeD digits1_shorter)

lemma scan_exponent_shorter: "scan_exponent s = Some (a, b) \<Longrightarrow> length b \<le> length s"
  by (force simp: scan_exponent_def split: list.splits if_splits dest!: prepend_SomeD digits1_shorter)

lemma scan_integer_shorter: "scan_integer s = Some (a, b) \<Longrightarrow> length b < length s"
  by (force simp: scan_integer_def split: list.splits if_splits dest!: digits1_shorter)

lemma scan_number_shorter: "scan_number s = Some (a, b) \<Longrightarrow> length b < length s"
  by (force simp: scan_number_def Let_def split: list.splits if_splits option.splits prod.splits
      dest!: prepend_SomeD scan_integer_shorter scan_fraction_shorter scan_exponent_shorter)

lemma next_token_shorter: "next_token s = Some (t, r) \<Longrightarrow> length r < length s"
proof -
  assume tok: "next_token s = Some (t, r)"
  then obtain c cs where cs: "dropWhile json_space s = c # cs"
    by (auto simp: next_token_def split: list.splits)
  have either: "(if P then x else y) = z \<Longrightarrow> x = z \<or> y = z" for P :: bool and x y z :: "(token \<times> string) option"
    by (cases P) simp_all
  have "length r < length (c # cs)"
    using tok unfolding next_token_def cs list.case
    by (elim either [THEN disjE])
      (auto simp: less_Suc_eq_le simp del: length_Cons dest!: string_body_shorter scan_number_shorter)
  also have "length (c # cs) \<le> length s" unfolding cs [symmetric] by (rule length_dropWhile_le)
  finally show ?thesis .
qed

text \<open>One JSON value from the head of a text, and what follows it.\<close>

function scan :: "expect \<Rightarrow> frame list \<Rightarrow> string \<Rightarrow> (jvalue \<times> string) option" where
  "scan x st s =
     (case next_token s of
        None \<Rightarrow> None
      | Some (t, r) \<Rightarrow>
          (case shift t x st of
             Reject \<Rightarrow> None
           | Accept v \<Rightarrow> Some (v, r)
           | More x' st' \<Rightarrow> scan x' st' r))"
  by auto
termination
  by (relation "measure (\<lambda>(x, st, s). length s)") (auto dest: next_token_shorter)

declare scan.simps [simp del]

definition json_value :: "string \<Rightarrow> (jvalue \<times> string) option" where
  "json_value s = scan XValue [] s"

definition json_valid :: "string \<Rightarrow> bool" where
  "json_valid s = (case json_value s of None \<Rightarrow> False | Some (v, r) \<Rightarrow> list_all json_space r)"

section \<open>Decoding into a struct\<close>

text \<open>
  \<open>foldName\<close>: letters in upper case; the only runes beyond ASCII that fold to an ASCII letter are the
  Kelvin sign and the long s.
\<close>

fun foldName :: "string \<Rightarrow> string" where
  "foldName [] = []"
| "foldName (c # cs) =
     (let bs = map of_char (c # cs) :: nat list in
      if take 3 bs = [226, 132, 170] then CHR ''K'' # foldName (drop 2 cs)
      else if take 2 bs = [197, 191] then CHR ''S'' # foldName (drop 1 cs)
      else if 97 \<le> (of_char c :: nat) \<and> (of_char c :: nat) < 123 then char_of (of_char c - 32 :: nat) # foldName cs
      else c # foldName cs)"

text \<open>\<open>strconv.ParseInt(s, 10, 64)\<close>; \<open>Atoi\<close> is the same on a 64-bit platform.\<close>

definition parse_digits :: "string \<Rightarrow> int option" where
  "parse_digits s =
     (if s \<noteq> [] \<and> list_all is_digit s then Some (foldl (\<lambda>a c. 10 * a + int (digit_val c)) 0 s) else None)"

definition in_int64 :: "int \<Rightarrow> int option" where
  "in_int64 i = (if fits64 i then Some i else None)"

definition ParseInt :: "string \<Rightarrow> int option" where
  "ParseInt s =
     (case s of
        [] \<Rightarrow> None
      | c # r \<Rightarrow>
          if c = CHR ''-'' then Option.bind (parse_digits r) (\<lambda>n. in_int64 (- n))
          else if c = CHR ''+'' then Option.bind (parse_digits r) in_int64
          else Option.bind (parse_digits s) in_int64)"

definition strconv_Atoi :: "string \<Rightarrow> int option" where
  "strconv_Atoi s = ParseInt s"

text \<open>A field decoder takes the value read and the struct so far.\<close>

type_synonym 'r field = "string \<times> (jvalue \<Rightarrow> 'r \<Rightarrow> 'r option)"

definition string_field :: "string \<Rightarrow> (string \<Rightarrow> 'r \<Rightarrow> 'r) \<Rightarrow> 'r field" where
  "string_field name upd = (name, \<lambda>v r. case v of VStr s \<Rightarrow> Some (upd s r) | VNull \<Rightarrow> Some r | _ \<Rightarrow> None)"

definition int64_field :: "string \<Rightarrow> (int \<Rightarrow> 'r \<Rightarrow> 'r) \<Rightarrow> 'r field" where
  "int64_field name upd =
     (name, \<lambda>v r. case v of VNum s \<Rightarrow> map_option (\<lambda>i. upd i r) (ParseInt s) | VNull \<Rightarrow> Some r | _ \<Rightarrow> None)"

fun decode_members :: "'r field list \<Rightarrow> (string \<times> jvalue) list \<Rightarrow> 'r \<Rightarrow> 'r option" where
  "decode_members fs [] r = Some r"
| "decode_members fs ((k, v) # ms) r =
     (case find (\<lambda>f. foldName (fst f) = foldName k) fs of
        None \<Rightarrow> decode_members fs ms r
      | Some f \<Rightarrow> (case snd f v r of None \<Rightarrow> None | Some r' \<Rightarrow> decode_members fs ms r'))"

definition decode_struct :: "'r field list \<Rightarrow> jvalue \<Rightarrow> 'r \<Rightarrow> 'r option" where
  "decode_struct fs v r = (case v of VObj ms \<Rightarrow> decode_members fs ms r | VNull \<Rightarrow> Some r | _ \<Rightarrow> None)"

text \<open>
  A slice is its backing array, as far as it was ever written, and its length. An array is decoded into
  the elements the slice already has, which a repeated name makes visible.
\<close>

type_synonym 'a slice = "'a list \<times> nat"

definition slice_elems :: "'a slice \<Rightarrow> 'a list" where
  "slice_elems s = take (snd s) (fst s)"

fun decode_elems :: "'a field list \<Rightarrow> 'a \<Rightarrow> jvalue list \<Rightarrow> 'a list \<Rightarrow> 'a list option" where
  "decode_elems fs zero [] old = Some old"
| "decode_elems fs zero (v # vs) old =
     (case decode_struct fs v (case old of [] \<Rightarrow> zero | x # _ \<Rightarrow> x) of
        None \<Rightarrow> None
      | Some y \<Rightarrow> map_option ((#) y) (decode_elems fs zero vs (tl old)))"

definition decode_slice :: "'a field list \<Rightarrow> 'a \<Rightarrow> jvalue \<Rightarrow> 'a slice \<Rightarrow> 'a slice option" where
  "decode_slice fs zero v s =
     (case v of
        VNull \<Rightarrow> Some ([], 0)
      | VArr vs \<Rightarrow> if vs = [] then Some ([], 0)
                  else map_option (\<lambda>ys. (ys, length vs)) (decode_elems fs zero vs (fst s))
      | _ \<Rightarrow> None)"

definition json_Decode :: "'r field list \<Rightarrow> 'r \<Rightarrow> string option \<Rightarrow> 'r option" where
  "json_Decode fs zero body =
     Option.bind body (\<lambda>s. Option.bind (json_value s) (\<lambda>(v, r). decode_struct fs v zero))"

section \<open>Encoding to a writer\<close>

text \<open>
  \<open>Encode\<close> writes the document and a newline in one call, or nothing when a raw message in it is not
  valid JSON.
\<close>

fun raws_valid :: "json \<Rightarrow> bool" where
  "raws_valid (JRaw s) = json_valid s"
| "raws_valid (JArr xs) = list_all raws_valid xs"
| "raws_valid (JStruct fs) = list_all (\<lambda>(k, v). raws_valid v) fs"
| "raws_valid (JMap kvs) = list_all (\<lambda>(k, v). raws_valid v) kvs"
| "raws_valid _ = True"

definition encoded :: "json \<Rightarrow> string option" where
  "encoded v = (if raws_valid v then Some (json_Marshal v @ [CHR 0x0A]) else None)"

end
