(* ===== verification/Handlers.thy ===== *)
theory Handlers
  imports Middleware Json_Decode Ledger_Service
begin

text \<open>
  \<open>cmd/api/handlers.go\<close>: what each route decodes, which service it calls and how it answers. A handler
  takes the services it is built from and is a function of the request and the world.
\<close>

section \<open>Shared parts\<close>

definition actorIDFromContext :: "Request \<Rightarrow> string" where
  "actorIDFromContext r = (case ClaimsFromContext r of None \<Rightarrow> '''' | Some claims \<Rightarrow> cl_UserID claims)"

definition json_response :: "int \<Rightarrow> json \<Rightarrow> wcall list" where
  "json_response code v =
     [HeaderSet ''Content-Type'' ''application/json'', WriteHeader code] @
     (case encoded v of None \<Rightarrow> [] | Some b \<Rightarrow> [Write b])"

definition no_tenant :: "wcall list" where
  "no_tenant = http_Error ''no tenant in request context'' 500"

definition invalid_JSON :: "wcall list" where
  "invalid_JSON = http_Error ''invalid JSON body'' 400"

definition quoted :: "env \<Rightarrow> string \<Rightarrow> string" where
  "quoted E s = strconv_Quote (unicode_IsPrint E) s"

definition writeAuthError :: "env \<Rightarrow> error \<Rightarrow> wcall list" where
  "writeAuthError E err =
     http_Error (Error (pg_message E) err)
       (if errors_Is err ErrInvalidCredentials \<or> errors_Is err ErrRefreshTokenInvalid \<or> errors_Is err ErrRefreshTokenNotFound
        then 401
        else if errors_Is err ErrUserDisabled then 403
        else if errors_Is err ErrEmailAlreadyExists then 409
        else if errors_Is err ErrRoleNotFound \<or> errors_Is err ErrUserNotFound then 404
        else 422)"

definition writeTransferError :: "env \<Rightarrow> error \<Rightarrow> wcall list" where
  "writeTransferError E err =
     http_Error (Error (pg_message E) err)
       (if errors_Is err ErrInsufficientFunds \<or> errors_Is err ErrTransactionNotPending \<or> errors_Is err ErrStatusConflict
        then 409
        else if errors_Is err ErrAccountNotFound \<or> errors_Is err ErrTransactionNotFound then 404
        else if errors_Is err ErrUnbalancedEntries \<or> errors_Is err ErrEmptyEntries \<or> errors_Is err ErrZeroAmountEntry
        then 400
        else 422)"

section \<open>Registration and sessions\<close>

record registerRequest =
  rgr_Email :: string
  rgr_Password :: string
  rgr_RoleName :: string

definition registerRequest_fields :: "registerRequest field list" where
  "registerRequest_fields =
     [string_field ''email'' (\<lambda>s r. r\<lparr>rgr_Email := s\<rparr>), string_field ''password'' (\<lambda>s r. r\<lparr>rgr_Password := s\<rparr>),
      string_field ''role_name'' (\<lambda>s r. r\<lparr>rgr_RoleName := s\<rparr>)]"

definition registerHandler :: "env \<Rightarrow> AuthService \<Rightarrow> http_Handler" where
  "registerHandler E svc r =
     (case FromContext r of
        None \<Rightarrow> respond no_tenant
      | Some tenantID \<Rightarrow>
          (case json_Decode registerRequest_fields \<lparr>rgr_Email = '''', rgr_Password = '''', rgr_RoleName = ''''\<rparr> (rq_Body r) of
             None \<Rightarrow> respond invalid_JSON
           | Some req \<Rightarrow>
               let roleName = (if rgr_RoleName req = '''' then ''viewer'' else rgr_RoleName req) in
               perform (GetRoleByName E roleName) (\<lambda>res.
                 case res of
                   Inl err \<Rightarrow> respond (http_Error (''unknown role: '' @ quoted E roleName) 400)
                 | Inr role \<Rightarrow>
                     perform (Register E svc tenantID (role_ID role) (rgr_Email req) (rgr_Password req)) (\<lambda>res.
                       case res of
                         Inl err \<Rightarrow> respond (writeAuthError E err)
                       | Inr user \<Rightarrow>
                           respond (json_response 201 (JMap
                             [(''user_id'', JStr (uuid_String E (usr_ID user))), (''email'', JStr (usr_Email user))]))))))"

definition writeAuthResult :: "env \<Rightarrow> int \<Rightarrow> AuthResult \<Rightarrow> wcall list" where
  "writeAuthResult E status result =
     json_response status (JMap
       [(''access_token'', JStr (ar_AccessToken result)), (''refresh_token'', JStr (ar_RefreshToken result)),
        (''access_expires_at'', JStr (time_RFC3339Nano_UTC E (ar_AccessExpiresAt result))),
        (''refresh_expires_at'', JStr (time_RFC3339Nano E (ar_RefreshExpiresAt result)))])"

record loginRequest =
  lgr_TenantID :: string
  lgr_Email :: string
  lgr_Password :: string

definition loginRequest_fields :: "loginRequest field list" where
  "loginRequest_fields =
     [string_field ''tenant_id'' (\<lambda>s r. r\<lparr>lgr_TenantID := s\<rparr>), string_field ''email'' (\<lambda>s r. r\<lparr>lgr_Email := s\<rparr>),
      string_field ''password'' (\<lambda>s r. r\<lparr>lgr_Password := s\<rparr>)]"

definition loginHandler :: "env \<Rightarrow> AuthService \<Rightarrow> http_Handler" where
  "loginHandler E svc r =
     (case json_Decode loginRequest_fields \<lparr>lgr_TenantID = '''', lgr_Email = '''', lgr_Password = ''''\<rparr> (rq_Body r) of
        None \<Rightarrow> respond invalid_JSON
      | Some req \<Rightarrow>
          (case uuid_Parse E (lgr_TenantID req) of
             None \<Rightarrow> respond (http_Error ''invalid tenant_id'' 400)
           | Some tenantID \<Rightarrow>
               perform (Login E svc tenantID (lgr_Email req) (lgr_Password req)) (\<lambda>res.
                 case res of
                   Inl err \<Rightarrow> respond (writeAuthError E err)
                 | Inr result \<Rightarrow> respond (writeAuthResult E 200 result))))"

record refreshRequest =
  rfr_RefreshToken :: string

definition refreshRequest_fields :: "refreshRequest field list" where
  "refreshRequest_fields = [string_field ''refresh_token'' (\<lambda>s r. r\<lparr>rfr_RefreshToken := s\<rparr>)]"

definition refreshHandler :: "env \<Rightarrow> AuthService \<Rightarrow> http_Handler" where
  "refreshHandler E svc r =
     (case json_Decode refreshRequest_fields \<lparr>rfr_RefreshToken = ''''\<rparr> (rq_Body r) of
        None \<Rightarrow> respond invalid_JSON
      | Some req \<Rightarrow>
          perform (Refresh E svc (rfr_RefreshToken req)) (\<lambda>res.
            case res of
              Inl err \<Rightarrow> respond (writeAuthError E err)
            | Inr result \<Rightarrow> respond (writeAuthResult E 200 result)))"

definition logoutHandler :: "env \<Rightarrow> AuthService \<Rightarrow> http_Handler" where
  "logoutHandler E svc r =
     (case json_Decode refreshRequest_fields \<lparr>rfr_RefreshToken = ''''\<rparr> (rq_Body r) of
        None \<Rightarrow> respond invalid_JSON
      | Some req \<Rightarrow>
          perform (Logout E svc (rfr_RefreshToken req)) (\<lambda>res.
            case res of
              Inl err \<Rightarrow> respond (writeAuthError E err)
            | Inr _ \<Rightarrow> respond [WriteHeader 204]))"

section \<open>Transfers\<close>

record transferEntryRequest =
  ter_AccountID :: string
  ter_AmountMinor :: int

definition transferEntryRequest_fields :: "transferEntryRequest field list" where
  "transferEntryRequest_fields =
     [string_field ''account_id'' (\<lambda>s r. r\<lparr>ter_AccountID := s\<rparr>), int64_field ''amount_minor'' (\<lambda>i r. r\<lparr>ter_AmountMinor := i\<rparr>)]"

record transferRequest =
  tfr_Entries :: "transferEntryRequest slice"

definition transferRequest_fields :: "transferRequest field list" where
  "transferRequest_fields =
     [(''entries'', \<lambda>v r. map_option (\<lambda>s. r\<lparr>tfr_Entries := s\<rparr>)
         (decode_slice transferEntryRequest_fields \<lparr>ter_AccountID = '''', ter_AmountMinor = 0\<rparr> v (tfr_Entries r)))]"

text \<open>The entries of a transfer, or the answer to the first account that is no identifier.\<close>

fun entry_inputs :: "env \<Rightarrow> transferEntryRequest list \<Rightarrow> wcall list + EntryInput list" where
  "entry_inputs E [] = Inr []"
| "entry_inputs E (e # es) =
     (case uuid_Parse E (ter_AccountID e) of
        None \<Rightarrow> Inl (http_Error (''invalid account_id: '' @ quoted E (ter_AccountID e)) 400)
      | Some accountID \<Rightarrow>
          (case entry_inputs E es of
             Inl answer \<Rightarrow> Inl answer
           | Inr rest \<Rightarrow> Inr (\<lparr>ei_AccountID = accountID, ei_AmountMinor = word_of_int (ter_AmountMinor e)\<rparr> # rest)))"

definition transferResponse :: "env \<Rightarrow> Transaction \<Rightarrow> json" where
  "transferResponse E txn =
     JStruct [(''transaction_id'', JStr (uuid_String E (txn_ID txn))), (''status'', JStr (status_string (txn_Status txn)))]"

definition transferHandler :: "env \<Rightarrow> Service \<Rightarrow> http_Handler" where
  "transferHandler E svc r =
     (case FromContext r of
        None \<Rightarrow> respond no_tenant
      | Some tenantID \<Rightarrow>
          (case json_Decode transferRequest_fields \<lparr>tfr_Entries = ([], 0)\<rparr> (rq_Body r) of
             None \<Rightarrow> respond invalid_JSON
           | Some req \<Rightarrow>
               (case entry_inputs E (slice_elems (tfr_Entries req)) of
                  Inl answer \<Rightarrow> respond answer
                | Inr rows \<Rightarrow>
                    perform (ExecuteTransfer E svc
                        \<lparr>tr_TenantID = tenantID, tr_Entries = rows, tr_ActorID = actorIDFromContext r\<rparr>) (\<lambda>res.
                      case res of
                        Inl err \<Rightarrow> respond (writeTransferError E err)
                      | Inr (txn, _) \<Rightarrow> respond (json_response 201 (transferResponse E txn))))))"

section \<open>Accounts\<close>

record createAccountRequest =
  car_Name :: string

definition createAccountRequest_fields :: "createAccountRequest field list" where
  "createAccountRequest_fields = [string_field ''name'' (\<lambda>s r. r\<lparr>car_Name := s\<rparr>)]"

definition accountResponse :: "env \<Rightarrow> Account \<Rightarrow> json" where
  "accountResponse E a =
     JStruct [(''id'', JStr (uuid_String E (acct_ID a))), (''name'', JStr (acct_Name a)),
       (''balance_minor'', JInt (sint (acct_Balance a)))]"

definition createAccountHandler :: "env \<Rightarrow> Service \<Rightarrow> http_Handler" where
  "createAccountHandler E svc r =
     (case FromContext r of
        None \<Rightarrow> respond no_tenant
      | Some tenantID \<Rightarrow>
          (case json_Decode createAccountRequest_fields \<lparr>car_Name = ''''\<rparr> (rq_Body r) of
             None \<Rightarrow> respond invalid_JSON
           | Some req \<Rightarrow>
               if car_Name req = '''' then respond (http_Error ''name is required'' 400)
               else perform (CreateAccount E svc tenantID (car_Name req) (actorIDFromContext r)) (\<lambda>res.
                 case res of
                   Inl err \<Rightarrow> respond (writeTransferError E err)
                 | Inr account \<Rightarrow> respond (json_response 201 (accountResponse E account)))))"

definition getAccountHandler :: "env \<Rightarrow> http_Handler" where
  "getAccountHandler E r =
     (case FromContext r of
        None \<Rightarrow> respond no_tenant
      | Some tenantID \<Rightarrow>
          (case uuid_Parse E (rq_Param r ''id'') of
             None \<Rightarrow> respond (http_Error ''invalid account id'' 400)
           | Some accountID \<Rightarrow>
               perform (GetAccount E tenantID accountID) (\<lambda>res.
                 case res of
                   Inl err \<Rightarrow> respond (writeTransferError E err)
                 | Inr account \<Rightarrow> respond (json_response 200 (accountResponse E account)))))"

section \<open>Transactions\<close>

text \<open>A slice that nothing was appended to is nil, which is written as \<open>null\<close>.\<close>

definition transactionDetailResponse :: "env \<Rightarrow> Transaction \<Rightarrow> Entry list \<Rightarrow> json" where
  "transactionDetailResponse E txn rows =
     JStruct [(''id'', JStr (uuid_String E (txn_ID txn))), (''status'', JStr (status_string (txn_Status txn))),
       (''entries'',
        if rows = [] then JNull
        else JArr (map (\<lambda>e. JStruct [(''account_id'', JStr (uuid_String E (ent_AccountID e))),
                                   (''amount_minor'', JInt (sint (ent_AmountMinor e)))]) rows))]"

definition getTransactionHandler :: "env \<Rightarrow> http_Handler" where
  "getTransactionHandler E r =
     (case FromContext r of
        None \<Rightarrow> respond no_tenant
      | Some tenantID \<Rightarrow>
          (case uuid_Parse E (rq_Param r ''id'') of
             None \<Rightarrow> respond (http_Error ''invalid transaction id'' 400)
           | Some txnID \<Rightarrow>
               perform (GetTransaction E tenantID txnID) (\<lambda>res.
                 case res of
                   Inl err \<Rightarrow> respond (writeTransferError E err)
                 | Inr (txn, rows) \<Rightarrow> respond (json_response 200 (transactionDetailResponse E txn rows)))))"

definition createPendingTransactionHandler :: "env \<Rightarrow> Service \<Rightarrow> http_Handler" where
  "createPendingTransactionHandler E svc r =
     (case FromContext r of
        None \<Rightarrow> respond no_tenant
      | Some tenantID \<Rightarrow>
          (case json_Decode transferRequest_fields \<lparr>tfr_Entries = ([], 0)\<rparr> (rq_Body r) of
             None \<Rightarrow> respond invalid_JSON
           | Some req \<Rightarrow>
               (case entry_inputs E (slice_elems (tfr_Entries req)) of
                  Inl answer \<Rightarrow> respond answer
                | Inr rows \<Rightarrow>
                    perform (CreatePendingTransaction E svc
                        \<lparr>tr_TenantID = tenantID, tr_Entries = rows, tr_ActorID = actorIDFromContext r\<rparr>) (\<lambda>res.
                      case res of
                        Inl err \<Rightarrow> respond (writeTransferError E err)
                      | Inr (txn, _) \<Rightarrow> respond (json_response 201 (transferResponse E txn))))))"

definition postPendingTransactionHandler :: "env \<Rightarrow> Service \<Rightarrow> http_Handler" where
  "postPendingTransactionHandler E svc r =
     (case FromContext r of
        None \<Rightarrow> respond no_tenant
      | Some tenantID \<Rightarrow>
          (case uuid_Parse E (rq_Param r ''id'') of
             None \<Rightarrow> respond (http_Error ''invalid transaction id'' 400)
           | Some txnID \<Rightarrow>
               perform (PostPendingTransaction E svc tenantID txnID (actorIDFromContext r)) (\<lambda>res.
                 case res of
                   Inl err \<Rightarrow> respond (writeTransferError E err)
                 | Inr txn \<Rightarrow> respond (json_response 200 (transferResponse E txn)))))"

definition failPendingTransactionHandler :: "env \<Rightarrow> Service \<Rightarrow> http_Handler" where
  "failPendingTransactionHandler E svc r =
     (case FromContext r of
        None \<Rightarrow> respond no_tenant
      | Some tenantID \<Rightarrow>
          (case uuid_Parse E (rq_Param r ''id'') of
             None \<Rightarrow> respond (http_Error ''invalid transaction id'' 400)
           | Some txnID \<Rightarrow>
               perform (FailPendingTransaction E svc tenantID txnID (actorIDFromContext r)) (\<lambda>res.
                 case res of
                   Inl err \<Rightarrow> respond (writeTransferError E err)
                 | Inr txn \<Rightarrow> respond (json_response 200 (transferResponse E txn)))))"

section \<open>Audit log\<close>

definition auditEntryResponse :: "env \<Rightarrow> AuditEntry \<Rightarrow> json" where
  "auditEntryResponse E e =
     JStruct [(''id'', JStr (uuid_String E (aud_ID e))), (''action'', JStr (aud_Action e)),
       (''actor_id'', JStr (aud_ActorID e)), (''payload'', JRaw (aud_Payload e)),
       (''created_at'', JStr (time_RFC3339 E (aud_CreatedAt e)))]"

definition audit_limit :: "Request \<Rightarrow> int" where
  "audit_limit r =
     (let raw = first_value (rq_Query r) ''limit'' in
      if raw \<noteq> '''' then (case strconv_Atoi raw of Some n \<Rightarrow> n | None \<Rightarrow> 50) else 50)"

definition auditLogHandler :: "env \<Rightarrow> http_Handler" where
  "auditLogHandler E r =
     (case FromContext r of
        None \<Rightarrow> respond no_tenant
      | Some tenantID \<Rightarrow>
          perform (List_audit E tenantID (audit_limit r)) (\<lambda>res.
            case res of
              Inl err \<Rightarrow> respond (http_Error ''failed to list audit log'' 500)
            | Inr rows \<Rightarrow>
                respond (json_response 200 (JMap [(''entries'', JArr (map (auditEntryResponse E) rows))]))))"

end
