(* ===== verification/Server.thy ===== *)
theory Server
  imports Handlers Idempotency Auth_Spec
begin

text \<open>
  \<open>cmd/api/main.go\<close>: how the process is put together. The router and two of the middlewares are chi's, and
  the handler of \<open>/metrics\<close> is Prometheus's: they are fields of a record the definitions take. chi's
  routing has happened when a request gets here, as its matched pattern. The start of the process, its
  worker, its listener and its shutdown are in \<open>Process\<close>.
\<close>

section \<open>Health\<close>

definition PingContext :: "env \<Rightarrow> (world, error, unit) comp" where
  "PingContext E = pg_select E (\<lambda>d. Inr ())"

definition healthHandler :: "env \<Rightarrow> http_Handler" where
  "healthHandler E r =
     perform (PingContext E) (\<lambda>res.
       case res of
         Inl err \<Rightarrow> respond [WriteHeader 503, Write (CHR 0x7B # ''\"status\":\"unhealthy\"'' @ [CHR 0x7D])]
       | Inr _ \<Rightarrow> respond [WriteHeader 200, Write (CHR 0x7B # ''\"status\":\"ok\"'' @ [CHR 0x7D])])"

section \<open>Routes\<close>

record libraries =
  chi_Timeout :: "http_Handler \<Rightarrow> http_Handler"
  chi_NotFound :: http_Handler
  promhttp_Handler :: http_Handler

definition authenticated :: "env \<Rightarrow> AuthService \<Rightarrow> string \<Rightarrow> http_Handler \<Rightarrow> http_Handler" where
  "authenticated E asvc permission h =
     auth_Middleware E (ValidateAccessToken E asvc) (RequirePermission E (GetUserPermissions E) permission h)"

definition idempotent :: "env \<Rightarrow> http_Handler \<Rightarrow> http_Handler" where
  "idempotent E h = idempotency_Middleware (IdemRepository E) DefaultTTL [] h"

definition v1_routes :: "env \<Rightarrow> AuthService \<Rightarrow> Service \<Rightarrow> ((string \<times> string) \<times> http_Handler) list" where
  "v1_routes E asvc lsvc =
     [((''POST'', ''/v1/auth/register''), requireTenantAPIKey E (registerHandler E asvc)),
      ((''POST'', ''/v1/auth/login''), loginHandler E asvc),
      ((''POST'', ''/v1/auth/refresh''), refreshHandler E asvc),
      ((''POST'', ''/v1/auth/logout''), logoutHandler E asvc),
      ((''POST'', ''/v1/accounts''),
        authenticated E asvc ''accounts:write'' (idempotent E (createAccountHandler E lsvc))),
      ((''GET'', ''/v1/accounts/{id}''), authenticated E asvc ''accounts:read'' (getAccountHandler E)),
      ((''GET'', ''/v1/transactions/{id}''), authenticated E asvc ''transactions:read'' (getTransactionHandler E)),
      ((''POST'', ''/v1/transfers''),
        authenticated E asvc ''transactions:write'' (idempotent E (transferHandler E lsvc))),
      ((''POST'', ''/v1/transactions/pending''),
        authenticated E asvc ''transactions:write'' (idempotent E (createPendingTransactionHandler E lsvc))),
      ((''POST'', ''/v1/transactions/{id}/post''),
        authenticated E asvc ''transactions:write'' (idempotent E (postPendingTransactionHandler E lsvc))),
      ((''POST'', ''/v1/transactions/{id}/fail''),
        authenticated E asvc ''transactions:write'' (idempotent E (failPendingTransactionHandler E lsvc))),
      ((''GET'', ''/v1/audit-log''), authenticated E asvc ''audit:read'' (auditLogHandler E))]"

definition route :: "env \<Rightarrow> libraries \<Rightarrow> AuthService \<Rightarrow> Service \<Rightarrow> http_Handler" where
  "route E lib asvc lsvc r =
     (if rq_Route r = ''/metrics'' then promhttp_Handler lib r
      else if (rq_Method r, rq_Route r) = (''GET'', ''/healthz'') then healthHandler E r
      else case map_of (v1_routes E asvc lsvc) (rq_Method r, rq_Route r) of
        None \<Rightarrow> chi_NotFound lib r
      | Some h \<Rightarrow> h r)"

definition server :: "env \<Rightarrow> libraries \<Rightarrow> AuthService \<Rightarrow> Service \<Rightarrow> http_Handler" where
  "server E lib asvc lsvc =
     logging_Middleware E (metrics_Middleware E (recovery_Middleware E (chi_Timeout lib (route E lib asvc lsvc))))"

section \<open>What is assumed of the libraries\<close>

text \<open>
  chi's \<open>Timeout\<close> runs the handler and, when the deadline has passed, writes the header of a 504 after it;
  chi's 404 and 405 answers and the Prometheus handler know nothing of the database.
\<close>

definition timeout_lawful :: "(http_Handler \<Rightarrow> http_Handler) \<Rightarrow> bool" where
  "timeout_lawful t \<longleftrightarrow>
     (\<forall>h r w. \<exists>late. (late = [] \<or> late = [WriteHeader 504]) \<and> fst (t h r w) = fst (h r w) @ late \<and> snd (t h r w) = snd (h r w))"

definition reads_only :: "http_Handler \<Rightarrow> bool" where
  "reads_only h \<longleftrightarrow> (\<forall>r w. db (snd (snd (h r w))) = db w)"

definition libraries_lawful :: "libraries \<Rightarrow> bool" where
  "libraries_lawful lib \<longleftrightarrow>
     timeout_lawful (chi_Timeout lib) \<and> reads_only (chi_NotFound lib) \<and> reads_only (promhttp_Handler lib)"

section \<open>Effects of handlers\<close>

text \<open>\<open>effect R h r\<close>: whatever happens, serving \<open>r\<close> with \<open>h\<close> changes the tables as \<open>R\<close> allows.\<close>

definition effect :: "(tables \<Rightarrow> tables \<Rightarrow> bool) \<Rightarrow> (world \<Rightarrow> served) \<Rightarrow> bool" where
  "effect R f \<longleftrightarrow> (\<forall>w. R (db w) (db (snd (snd (f w)))))"

lemma effect_respond [simp]: "reflp R \<Longrightarrow> effect R (respond cs)"
  by (simp add: effect_def respond_def reflp_def)

lemma effect_perform:
  assumes "\<And>w. R (db w) (db (snd (m w)))" and "\<And>res. \<exists>cs. k res = respond cs"
  shows "effect R (perform m k)"
  unfolding effect_def
proof
  fix w
  obtain res w1 where run: "m w = (res, w1)" by fastforce
  obtain cs where "k res = respond cs" using assms(2) by blast
  with run assms(1) [of w] show "R (db w) (db (snd (snd (perform m k w))))"
    by (simp add: perform_def respond_def)
qed

lemma effect_perform_keeps:
  assumes "keeps db m" and "\<And>res. effect R (k res)"
  shows "effect R (perform m k)"
  unfolding effect_def
proof
  fix w
  obtain res w1 where run: "m w = (res, w1)" by fastforce
  then have "db w1 = db w" using keepsD [OF assms(1) run] by simp
  with run assms(2) [of res] show "R (db w) (db (snd (snd (perform m k w))))"
    by (simp add: perform_def effect_def) (metis)
qed

lemma effect_mono: "effect R f \<Longrightarrow> (\<And>d d'. R d d' \<Longrightarrow> S d d') \<Longrightarrow> effect S f"
  by (simp add: effect_def)

end
