(* ===== verification/Api.thy ===== *)
theory Api
  imports Server Ledger Webhook_Properties
begin

text \<open>
  What a request to the API can do to the database: the effects of the handlers, of the middleware around
  them and of the whole server, as steps of the abstract ledger and of the abstract sessions.
\<close>

section \<open>Steps of the API\<close>

text \<open>
  \<open>outbox\<close>: at most one event is enqueued, and nothing else happens to the queue. \<open>rbac\<close>: roles, permissions and
  grants. \<open>work t\<close>: a step of tenant \<open>t\<close>'s ledger that leaves users, sessions and roles alone, keeps the idempotency keys unique and does no more to
  the queue. An API step is such a step or one of the sessions; the process also takes the worker's.
\<close>

definition outbox :: "tables \<Rightarrow> tables \<Rightarrow> bool" where
  "outbox d d' \<longleftrightarrow> dead_letter_events d' = dead_letter_events d \<and>
     (webhook_events d' = webhook_events d \<or> (\<exists>t ty p. one_event t ty p d d'))"

definition rbac :: "tables \<Rightarrow> Role list \<times> Permission list \<times> (uuid \<times> uuid) list" where
  "rbac d = (roles d, permissions d, role_permissions d)"

definition work :: "uuid \<Rightarrow> tables \<Rightarrow> tables \<Rightarrow> bool" where
  "work t d d' \<longleftrightarrow> ledger_step t d d' \<and> users d' = users d \<and> refresh_tokens d' = refresh_tokens d \<and>
     rbac d' = rbac d \<and> (keys_unique d \<longrightarrow> keys_unique d') \<and> outbox d d'"

definition api_step :: "env \<Rightarrow> tables \<Rightarrow> tables \<Rightarrow> bool" where
  "api_step E d d' \<longleftrightarrow> session_moves E d d' \<or> (\<exists>t. work t d d')"

definition system_inv :: "env \<Rightarrow> WebhookService \<Rightarrow> tables \<Rightarrow> bool" where
  "system_inv E s d \<longleftrightarrow> ledger_wf d \<and> session_inv E d \<and> keys_unique d \<and> queue_inv s d"

definition books :: "tables \<Rightarrow> account_row list \<times> Transaction list \<times> Entry list" where
  "books d = (accounts d, transactions d, entries d)"

lemma work_refl: "reflp (work t)"
  by (simp add: reflp_def work_def ledger_step.other outbox_def)

lemma outbox_same: "webhook_events d' = webhook_events d \<Longrightarrow> dead_letter_events d' = dead_letter_events d \<Longrightarrow> outbox d d'"
  by (simp add: outbox_def)

lemma outbox_queue_inv:
  assumes "outbox d d'" and "queue_inv s d" and "0 < ws_maxAttempts s"
  shows "queue_inv s d'"
proof (cases "webhook_events d' = webhook_events d")
  case True
  with assms show ?thesis by (simp add: outbox_def queue_inv_def failed_ids_def)
next
  case False
  with assms(1) obtain t ty p j where "webhook_events d' = webhook_events d @ [j]" "event_for t ty p j"
    "job_ID j \<notin> job_ID ` set (webhook_events d)" "dead_letter_events d' = dead_letter_events d"
    by (auto simp: outbox_def one_event_def)
  with assms(2,3) show ?thesis
    by (auto simp: queue_inv_def failed_ids_def attempts_ok_def event_for_def)
qed

lemma session_step_tables:
  "session_step E d d' \<Longrightarrow> books d' = books d \<and> idempotency_keys d' = idempotency_keys d \<and>
    webhook_events d' = webhook_events d \<and> dead_letter_events d' = dead_letter_events d \<and> rbac d' = rbac d"
  by (erule session_stepE) (simp_all add: books_def rbac_def)

lemma session_moves_tables:
  "session_moves E d d' \<Longrightarrow> books d' = books d \<and> idempotency_keys d' = idempotency_keys d \<and> outbox d d' \<and> rbac d' = rbac d"
  unfolding session_moves_def by (drule session_step_tables) (simp add: sans_audit_def books_def outbox_def rbac_def)

lemma keys_unique_cong: "idempotency_keys d' = idempotency_keys d \<Longrightarrow> keys_unique d' = keys_unique d"
  by (simp add: keys_unique_def)

lemma session_inv_cong:
  "users d' = users d \<Longrightarrow> refresh_tokens d' = refresh_tokens d \<Longrightarrow> session_inv E d' = session_inv E d"
  by (simp add: session_inv_def owners_def)

lemma books_step: "books d' = books d \<Longrightarrow> ledger_step t d d'"
  by (intro ledger_step.other) (simp_all add: books_def)

lemma api_step_ledger: "api_step E d d' \<Longrightarrow> \<exists>t. ledger_step t d d'"
  by (auto simp: api_step_def work_def dest: session_moves_tables intro: books_step)

lemma api_step_inv:
  assumes "api_step E d d'" and "system_inv E s d" and "0 < ws_maxAttempts s"
  shows "system_inv E s d'"
proof -
  obtain t where "ledger_step t d d'" using api_step_ledger [OF assms(1)] by blast
  then have "ledger_wf d'" using assms(2) ledger_step_wf by (auto simp: system_inv_def)
  moreover have "session_inv E d'" if "session_moves E d d'"
    using session_step_inv [OF that [unfolded session_moves_def]] assms(2) by (simp add: system_inv_def)
  moreover have "outbox d d'" using assms(1) session_moves_tables by (auto simp: api_step_def work_def)
  ultimately show ?thesis
    using assms session_inv_cong keys_unique_cong session_moves_tables outbox_queue_inv
    unfolding api_step_def work_def system_inv_def by metis
qed

lemma api_steps_ledger: "(api_step E)\<^sup>*\<^sup>* d d' \<Longrightarrow> ledger_steps d d'"
  by (induction rule: rtranclp_induct) (auto dest!: api_step_ledger intro: rtranclp.rtrancl_into_rtrancl)

lemma work_steps_api: "(work t)\<^sup>*\<^sup>* d d' \<Longrightarrow> (api_step E)\<^sup>*\<^sup>* d d'"
  by (rule rtranclp_mono [THEN predicate2D]) (auto simp: api_step_def)

section \<open>The ledger's handlers\<close>

text \<open>A call of the ledger touches neither users, sessions, idempotency keys nor roles.\<close>

definition elsewhere :: "tables \<Rightarrow> (User list \<times> RefreshToken list \<times> Record list) \<times> Role list \<times> Permission list \<times> (uuid \<times> uuid) list" where
  "elsewhere d = ((users d, refresh_tokens d, idempotency_keys d), rbac d)"

lemma rbac_domain: "rbac (domain d) = rbac d"
  by (simp add: rbac_def domain_def)

lemma elsewhere_domain: "domain d' = domain d \<Longrightarrow> elsewhere d' = elsewhere d"
  unfolding elsewhere_def using domain_proj [of d] domain_proj [of d'] rbac_domain [of d] rbac_domain [of d'] by simp

lemma elsewhere_upd [simp]:
  "elsewhere (d\<lparr>accounts := as\<rparr>) = elsewhere d" "elsewhere (d\<lparr>transactions := ts\<rparr>) = elsewhere d"
  "elsewhere (d\<lparr>entries := es\<rparr>) = elsewhere d"
  by (simp_all add: elsewhere_def rbac_def)

lemma elsewhere_effects:
  "inserted t st es txn rows d d' \<Longrightarrow> elsewhere d' = elsewhere d"
  "moved t i st d d' \<Longrightarrow> elsewhere d' = elsewhere d"
  by (auto simp: inserted_def moved_def set_status_def dest!: elsewhere_domain)

lemma outbox_domain:
  "domain d' = domain (d\<lparr>accounts := as\<rparr>) \<Longrightarrow> webhook_events d' = webhook_events d \<Longrightarrow> outbox d d'"
  using domain_proj(8) [of d'] domain_proj(8) [of "d\<lparr>accounts := as\<rparr>"] by (simp add: outbox_same)

lemma outbox_emitted:
  assumes "emitted s t ty p d d'"
  shows "inserted u st es txn rows d d' \<Longrightarrow> outbox d d'" and "moved u i st d d' \<Longrightarrow> outbox d d'"
proof -
  have dead: "dead_letter_events d' = dead_letter_events d1" if "domain d' = domain d1" for d1
    using that domain_proj(8) by metis
  have "webhook_events d' = webhook_events d \<or> (\<exists>t ty p. one_event t ty p d d')"
    using assms by (auto simp: emitted_def split: option.splits)
  then show "inserted u st es txn rows d d' \<Longrightarrow> outbox d d'" "moved u i st d d' \<Longrightarrow> outbox d d'"
    by (auto simp: inserted_def moved_def set_status_def outbox_def dest!: dead)
qed

context ledger_service
begin

lemma run_op_aside: "elsewhere (db (snd (run_op E s x w))) = elsewhere (db w) \<and> outbox (db w) (db (snd (run_op E s x w)))"
proof (cases x)
  case (OpCreateAccount t name actor)
  obtain r w' where run: "CreateAccount E s t name actor w = (r, w')" by fastforce
  then have "elsewhere (db w') = elsewhere (db w) \<and> outbox (db w) (db w')"
    using CreateAccount_outcome [OF run]
    by (auto simp: outcome_of_def outbox_same dest: elsewhere_domain outbox_domain)
  with run OpCreateAccount show ?thesis by (simp add: snd_discard)
next
  case (OpExecuteTransfer req)
  obtain r w' where run: "ExecuteTransfer E s req w = (r, w')" by fastforce
  then have "elsewhere (db w') = elsewhere (db w) \<and> outbox (db w) (db w')"
    using ExecuteTransfer_outcome [OF run]
    by (auto simp: outcome_of_def outbox_same dest: elsewhere_effects outbox_emitted)
  with run OpExecuteTransfer show ?thesis by (simp add: snd_discard)
next
  case (OpCreatePending req)
  obtain r w' where run: "CreatePendingTransaction E s req w = (r, w')" by fastforce
  then have "elsewhere (db w') = elsewhere (db w) \<and> outbox (db w) (db w')"
    using CreatePending_outcome [OF run]
    by (auto simp: outcome_of_def outbox_same dest: elsewhere_effects outbox_emitted)
  with run OpCreatePending show ?thesis by (simp add: snd_discard)
next
  case (OpPostPending t i actor)
  obtain r w' where run: "PostPendingTransaction E s t i actor w = (r, w')" by fastforce
  then have "elsewhere (db w') = elsewhere (db w) \<and> outbox (db w) (db w')"
    using PostPending_outcome [OF run]
    by (auto simp: outcome_of_def outbox_same dest: elsewhere_effects outbox_emitted)
  with run OpPostPending show ?thesis by (simp add: snd_discard)
next
  case (OpFailPending t i actor)
  obtain r w' where run: "FailPendingTransaction E s t i actor w = (r, w')" by fastforce
  then have "elsewhere (db w') = elsewhere (db w) \<and> outbox (db w) (db w')"
    using FailPending_outcome [OF run]
    by (auto simp: outcome_of_def outbox_same dest: elsewhere_effects outbox_emitted)
  with run OpFailPending show ?thesis by (simp add: snd_discard)
next
  case (OpGetTransaction t i)
  then show ?thesis using keeps_reads(1) by (simp add: snd_discard keeps_def outbox_same)
next
  case (OpGetAccount t i)
  then show ?thesis using keeps_reads(2) by (simp add: snd_discard keeps_def outbox_same)
qed

lemma run_op_work: "work (op_tenant x) (db w) (db (snd (run_op E s x w)))"
  using run_op_step [of x w E] run_op_aside [of E x w]
  by (auto simp: work_def elsewhere_def keys_unique_def)

end

lemma service_work: "work (op_tenant x) (db w) (db (snd (run_op E (ledgerSvc E repo) x w)))"
  by (rule prod.run_op_work)

lemmas service_works =
  service_work [of "OpCreateAccount t name actor" for t name actor, simplified, unfolded snd_discard]
  service_work [of "OpExecuteTransfer req" for req, simplified, unfolded snd_discard]
  service_work [of "OpCreatePending req" for req, simplified, unfolded snd_discard]
  service_work [of "OpPostPending t i actor" for t i actor, simplified, unfolded snd_discard]
  service_work [of "OpFailPending t i actor" for t i actor, simplified, unfolded snd_discard]

lemma service_elsewhere: "elsewhere (db (snd (run_op E (ledgerSvc E repo) x w))) = elsewhere (db w)"
  using prod.run_op_aside by blast

text \<open>A read answers from the database and leaves it as it is.\<close>

definition unchanged :: "tables \<Rightarrow> tables \<Rightarrow> bool" where
  "unchanged d d' \<longleftrightarrow> d' = d"

lemma unchanged_refl: "reflp unchanged"
  by (simp add: reflp_def unchanged_def)

lemma keeps_unchanged: "keeps db m \<Longrightarrow> unchanged (db w) (db (snd (m w)))"
  by (simp add: unchanged_def keeps_def)

lemma unchanged_work: "unchanged d d' \<Longrightarrow> work t d d'"
  using work_refl [of t] by (simp add: unchanged_def reflp_def)

lemma responds_cases [simp]:
  "\<exists>cs. (case res of Inl e \<Rightarrow> respond (f e) | Inr a \<Rightarrow> respond (g a)) = respond cs"
  "\<exists>cs. (case res2 of Inl e \<Rightarrow> respond (f e) | Inr (a, b) \<Rightarrow> respond (h a b)) = respond cs"
  by (auto split: sum.splits prod.splits)

lemma mutating_handlers_work:
  assumes "rq_TenantID r = Some t"
  shows "effect (work t) (createAccountHandler E (ledgerSvc E repo) r)"
    and "effect (work t) (transferHandler E (ledgerSvc E repo) r)"
    and "effect (work t) (createPendingTransactionHandler E (ledgerSvc E repo) r)"
    and "effect (work t) (postPendingTransactionHandler E (ledgerSvc E repo) r)"
    and "effect (work t) (failPendingTransactionHandler E (ledgerSvc E repo) r)"
  using assms service_works(2,3) [where req = "\<lparr>tr_TenantID = t, tr_Entries = es, tr_ActorID = actorIDFromContext r\<rparr>" for es]
  by (auto simp: createAccountHandler_def transferHandler_def createPendingTransactionHandler_def
      postPendingTransactionHandler_def failPendingTransactionHandler_def FromContext_def work_refl service_works
      split: option.splits sum.splits intro!: effect_perform)

lemma reading_handlers:
  "effect unchanged (getAccountHandler E r)" "effect unchanged (getTransactionHandler E r)"
  "effect unchanged (auditLogHandler E r)" "effect unchanged (healthHandler E r)"
  using keeps_List_audit [of id]
  by (auto simp: getAccountHandler_def getTransactionHandler_def auditLogHandler_def healthHandler_def unchanged_refl
      PingContext_def split: option.splits intro!: effect_perform keeps_unchanged keeps_reads keeps_pg_select_db)

section \<open>The handlers of sessions\<close>

definition sessions :: "env \<Rightarrow> tables \<Rightarrow> tables \<Rightarrow> bool" where
  "sessions E d d' \<longleftrightarrow> (session_inv E d \<longrightarrow> session_moves E d d')"

lemma sessions_refl: "reflp (sessions E)"
  by (simp add: reflp_def sessions_def)

lemma unchanged_sessions: "unchanged d d' \<Longrightarrow> sessions E d d'"
  by (simp add: unchanged_def sessions_def)

lemma service_sessions:
  "sessions E (db w) (db (snd (Register E (authSvc E k) t role email pw w)))"
  "sessions E (db w) (db (snd (Login E (authSvc E k) t email pw w)))"
  "sessions E (db w) (db (snd (Refresh E (authSvc E k) raw w)))"
  "sessions E (db w) (db (snd (Logout E (authSvc E k) raw w)))"
  using prod_auth.leads_Register prod_auth.leads_Login prod_auth.leads_Refresh prod_auth.leads_Logout
  by (simp_all add: sessions_def leads_def)

lemma keeps_GetRoleByName: "keeps db (GetRoleByName E name)"
  unfolding GetRoleByName_def by (intro keeps_wrapE keeps_pg_select_db)

lemma keeps_VerifyAPIKey: "keeps db (VerifyAPIKey E key)"
  unfolding VerifyAPIKey_def by (intro keeps_wrapE keeps_pg_select_db)

lemma session_handlers:
  "effect (sessions E) (registerHandler E (authSvc E k) r)" "effect (sessions E) (loginHandler E (authSvc E k) r)"
  "effect (sessions E) (refreshHandler E (authSvc E k) r)" "effect (sessions E) (logoutHandler E (authSvc E k) r)"
  by (auto simp: registerHandler_def loginHandler_def refreshHandler_def logoutHandler_def sessions_refl service_sessions
      Let_def split: option.splits sum.splits
      intro!: effect_perform_keeps [OF keeps_GetRoleByName] effect_perform)

lemma requireTenantAPIKey_effect:
  assumes "\<And>r. effect R (h r)" and "reflp R"
  shows "effect R (requireTenantAPIKey E h r)"
  using assms
  by (auto simp: requireTenantAPIKey_def Let_def split: sum.splits intro!: effect_perform_keeps [OF keeps_VerifyAPIKey])

section \<open>The middleware\<close>

definition sans_keys :: "tables \<Rightarrow> tables" where
  "sans_keys d = d\<lparr>idempotency_keys := []\<rparr>"

lemma sans_keys_proj:
  "books (sans_keys d) = books d" "users (sans_keys d) = users d" "refresh_tokens (sans_keys d) = refresh_tokens d"
  "webhook_events (sans_keys d) = webhook_events d" "dead_letter_events (sans_keys d) = dead_letter_events d"
  "rbac (sans_keys d) = rbac d"
  by (simp_all add: sans_keys_def books_def rbac_def)

lemma keys_work:
  assumes "sans_keys d' = sans_keys d" and "keys_unique d \<Longrightarrow> keys_unique d'"
  shows "work t d d'"
  using sans_keys_proj [of d] sans_keys_proj [of d'] assms books_step by (simp add: work_def outbox_def)

lemma keeps_store:
  "keeps (\<lambda>w. sans_keys (db w)) (ClaimOrGet E t k h lease)"
  "keeps (\<lambda>w. sans_keys (db w)) (Complete E t k c b ttl since)"
  by (auto simp: ClaimOrGet_def Get_record_def Complete_def claim_record_def complete_record_def sans_keys_def Let_def
      intro!: keeps_bindC keeps_attempt keeps_wrapE keeps_go_now keeps_pg_db keeps_pg_select
      split: sum.splits option.splits if_splits)

lemma keys_steps:
  "work t' (db w) (db (snd (ClaimOrGet E t k h lease w)))"
  "work t' (db w) (db (snd (Complete E t k c b ttl since w)))"
  using keeps_store(1) [of E t k h lease] keeps_store(2) [of E t k c b ttl since]
  by (auto simp: keeps_def intro!: keys_work dest: ClaimOrGet_unique [OF prod.collapse [symmetric]]
      Complete_unique [OF prod.collapse [symmetric]])

lemma complete_attempts_works:
  assumes "\<And>w. work t (db w) (db (snd (m w)))"
  shows "(work t)\<^sup>*\<^sup>* (db w) (db (snd (complete_attempts n m w)))"
proof (induction n arbitrary: w)
  case (Suc n)
  obtain res w1 where run: "m w = (res, w1)" by fastforce
  with assms [of w] have "work t (db w) (db w1)" by simp
  with Suc.IH [of w1] run show ?case
    by (auto simp: bindC_def attempt_def ok_def split: sum.splits intro: converse_rtranclp_into_rtranclp)
qed (simp add: ok_def)

lemma idempotent_works:
  assumes "effect (work t) (h r)"
  shows "effect (work t)\<^sup>*\<^sup>* (idempotent E h r)"
  unfolding effect_def
proof
  fix w
  show "(work t)\<^sup>*\<^sup>* (db w) (db (snd (snd (idempotent E h r w))))"
  proof (cases "header_Get (rq_Header r) HeaderKey = '''' \<or> rq_TenantID r = None \<or> rq_Body r = None")
    case True
    then show ?thesis
      by (auto simp: idempotent_def idempotency_Middleware_def respond_def Let_def split: option.splits)
  next
    case False
    then obtain tn body where tn: "rq_TenantID r = Some tn" and body: "rq_Body r = Some body" by auto
    let ?hash = "requestHash (rq_Method r) (rq_Path r) body" and ?key = "header_Get (rq_Header r) HeaderKey"
    obtain res w1 where claim: "ClaimOrGet E tn ?key ?hash DefaultProcessingLease w = (res, w1)" by fastforce
    then have step1: "work t (db w) (db w1)"
      using keys_steps(1) [of t w E tn ?key ?hash DefaultProcessingLease] by simp
    show ?thesis
    proof (cases "\<exists>x. res = Inr (x, True)")
      case True
      then obtain x where x: "res = Inr (x, True)" ..
      obtain calls p w2 where run: "h r w1 = (calls, p, w2)" by (metis prod.exhaust)
      have step2: "work t (db w1) (db w2)" using assms run by (simp add: effect_def) (metis snd_conv)
      have "(work t)\<^sup>*\<^sup>* (db w2) (db (snd (completeWithRetry (IdemRepository E) tn ?key c b ttl since w2)))" for c b ttl since
        unfolding completeWithRetry_def by (rule complete_attempts_works) (simp add: IdemRepository_def keys_steps(2))
      then have tail: "(work t)\<^sup>*\<^sup>* (db w) (db (snd (completeWithRetry (IdemRepository E) tn ?key c b ttl since w2)))" for c b ttl since
        using step1 step2 by (metis converse_rtranclp_into_rtranclp)
      from False claim tn body x run step1 step2 show ?thesis
        by (cases p) (auto simp: idempotent_def idempotency_Middleware_def perform_def Let_def run_claimed_def
            IdemRepository_def [THEN arg_cong [where f = st_ClaimOrGet]] intro: tail)
    next
      case False
      with \<open>\<not> (_ \<or> _)\<close> claim tn body step1 show ?thesis
        by (auto simp: idempotent_def idempotency_Middleware_def perform_def respond_def Let_def IdemRepository_def
            split: sum.splits prod.splits)
    qed
  qed
qed

text \<open>A claimed key runs the handler; what is done after it is done to the keys.\<close>

lemma idempotent_runs:
  assumes "header_Get (rq_Header r) HeaderKey = key" and "key \<noteq> ''''"
    and "rq_TenantID r = Some t" and "rq_Body r = Some body"
    and "ClaimOrGet E t key (requestHash (rq_Method r) (rq_Path r) body) DefaultProcessingLease w = (Inr (x, True), w1)"
    and "h r w1 = (calls, None, w2)"
  shows "\<exists>w'. idempotent E h r w = (calls, None, w') \<and> sans_keys (db w') = sans_keys (db w2)"
proof -
  have tail: "keeps (\<lambda>w. sans_keys (db w)) (complete_attempts n (Complete E t key c b ttl since))" for n c b ttl since
    by (induction n) (auto intro!: keeps_bindC keeps_attempt keeps_store split: sum.splits)
  have "idempotent E h r w = (calls, None, snd (completeWithRetry (IdemRepository E) t key
      (rr_statusCode (recorded_response calls)) (rr_body (recorded_response calls)) DefaultTTL (rec_CreatedAt x) w2))"
    using assms
    by (simp add: idempotent_def idempotency_Middleware_def perform_def Let_def run_claimed_def IdemRepository_def DefaultTTL_def)
  moreover have "sans_keys (db (snd (completeWithRetry (IdemRepository E) t key
      (rr_statusCode (recorded_response calls)) (rr_body (recorded_response calls)) DefaultTTL (rec_CreatedAt x) w2))) = sans_keys (db w2)"
    using tail unfolding completeWithRetry_def IdemRepository_def by (simp add: keeps_def)
  ultimately show ?thesis by simp
qed

text \<open>Behind the two gates: refused, or done for the token's tenant by a user who may.\<close>

definition admitted :: "env \<Rightarrow> AuthService \<Rightarrow> string \<Rightarrow> Request \<Rightarrow> world \<Rightarrow> uuid \<Rightarrow> bool" where
  "admitted E s permission r w t \<longleftrightarrow>
     (\<exists>tok claims u w1. bearer_token r = Some tok \<and> ValidateAccessToken E s tok w = (Inr claims, w1) \<and>
        uuid_Parse E (cl_TenantID claims) = Some t \<and> uuid_Parse E (cl_UserID claims) = Some u \<and>
        permission \<in> set (select_permissions t u (db w)))"

lemma authenticated_cases:
  "(\<forall>h. refused {401, 403, 500} (authenticated E s permission h r w) w \<and>
        authenticated E s permission h r w = authenticated E s permission h0 r w) \<or>
   (\<exists>t claims w1. admitted E s permission r w t \<and> db w1 = db w \<and>
      (\<forall>h. authenticated E s permission h r w = h (WithClaims (WithTenantID r t) claims) w1))"
proof -
  let ?perm = "RequirePermission E (GetUserPermissions E) permission"
  let ?auth = "auth_Middleware E (ValidateAccessToken E s)"
  consider (no) "\<forall>nxt. refused {401} (?auth nxt r w) w \<and> ?auth nxt r w = ?auth (?perm h0) r w"
    | (yes) tok claims t w1 where "bearer_token r = Some tok" "ValidateAccessToken E s tok w = (Inr claims, w1)"
      "db w1 = db w" "uuid_Parse E (cl_TenantID claims) = Some t"
      "\<forall>nxt. ?auth nxt r w = nxt (WithClaims (WithTenantID r t) claims) w1"
    using access_tokens.auth_gate [where r = r and w = w and ?nxt0.0 = "?perm h0"] by blast
  then show ?thesis
  proof cases
    case no
    then show ?thesis by (auto simp: authenticated_def refused_def)
  next
    case (yes tok claims t w1)
    let ?r = "WithClaims (WithTenantID r t) claims"
    have ctx: "rq_Claims ?r = Some claims" "rq_TenantID ?r = Some t" by (simp_all add: WithClaims_def WithTenantID_def)
    have eq: "authenticated E s permission h r w = ?perm h ?r w1" for h
      using yes(5) by (simp add: authenticated_def)
    from user_permissions.permission_gate [OF ctx, where p = permission and w = w1 and ?nxt0.0 = h0 and E = E and Ea = E]
    show ?thesis
    proof (elim disjE exE conjE)
      assume "\<forall>nxt. refused {401, 403, 500} (?perm nxt ?r w1) w1 \<and> ?perm nxt ?r w1 = ?perm h0 ?r w1"
      then show ?thesis using yes(3) by (auto simp: eq refused_def)
    next
      fix u perms w2
      assume "uuid_Parse E (cl_UserID claims) = Some u" "db w2 = db w1"
        "permission \<in> set (select_permissions t u (db w1))" "\<forall>nxt. ?perm nxt ?r w1 = nxt ?r w2"
      then show ?thesis using yes by (auto simp: eq admitted_def)
    qed
  qed
qed

section \<open>The whole server\<close>

text \<open>
  \<open>confined\<close>: serving the request is at most a step of the sessions, or work in the ledger of the tenant
  whose valid token the request bears, by a user with a permission to write.
\<close>

definition confined :: "env \<Rightarrow> AuthService \<Rightarrow> http_Handler \<Rightarrow> Request \<Rightarrow> world \<Rightarrow> bool" where
  "confined E s h r w \<longleftrightarrow>
     (let d' = db (snd (snd (h r w))) in
      sessions E (db w) d' \<or>
      (\<exists>t permission. permission \<in> {''accounts:write'', ''transactions:write''} \<and> admitted E s permission r w t \<and>
         (work t)\<^sup>*\<^sup>* (db w) d'))"

lemma confined_sessions: "effect (sessions E) (h r) \<Longrightarrow> confined E s h r w"
  by (simp add: confined_def effect_def)

lemma confined_reads: "effect unchanged (h r) \<Longrightarrow> confined E s h r w"
  by (rule confined_sessions) (auto intro: effect_mono unchanged_sessions)

lemma refused_db: "refused codes out w \<Longrightarrow> db (snd (snd out)) = db w"
  by (simp add: refused_def)

lemma confined_reading:
  assumes "\<And>r. effect unchanged (h r)"
  shows "confined E s (authenticated E s permission h) r w"
proof -
  have "db (snd (snd (authenticated E s permission h r w))) = db w"
    using authenticated_cases [of E s permission r w h] assms
    by (auto simp: refused_def effect_def unchanged_def)
  then show ?thesis by (simp add: confined_def sessions_def)
qed

lemma confined_writing:
  assumes "\<And>r t. rq_TenantID r = Some t \<Longrightarrow> effect (work t) (h r)"
    and "permission \<in> {''accounts:write'', ''transactions:write''}"
  shows "confined E s (authenticated E s permission (idempotent E h)) r w"
  using authenticated_cases [of E s permission r w "idempotent E h"]
proof (elim disjE exE conjE)
  assume "\<forall>h'. refused {401, 403, 500} (authenticated E s permission h' r w) w \<and>
    authenticated E s permission h' r w = authenticated E s permission (idempotent E h) r w"
  then show ?thesis by (auto simp: confined_def refused_def sessions_def)
next
  fix t claims w1
  let ?r = "WithClaims (WithTenantID r t) claims"
  assume adm: "admitted E s permission r w t" and "db w1 = db w"
    and "\<forall>h'. authenticated E s permission h' r w = h' ?r w1"
  moreover have "effect (work t)\<^sup>*\<^sup>* (idempotent E h ?r)"
    by (rule idempotent_works) (rule assms(1), simp add: WithClaims_def WithTenantID_def)
  ultimately have "(work t)\<^sup>*\<^sup>* (db w) (db (snd (snd (authenticated E s permission (idempotent E h) r w))))"
    by (simp add: effect_def) metis
  with adm assms(2) show ?thesis unfolding confined_def Let_def by blast
qed

lemma v1_confined:
  "list_all (\<lambda>(k, h). confined E (authSvc E key) h r w) (v1_routes E (authSvc E key) (ledgerSvc E repo))"
  unfolding v1_routes_def
  by (simp add: confined_sessions session_handlers requireTenantAPIKey_effect sessions_refl
      confined_reading reading_handlers confined_writing mutating_handlers_work)

lemma route_confined:
  assumes "libraries_lawful lib"
  shows "confined E (authSvc E key) (route E lib (authSvc E key) (ledgerSvc E repo)) r w"
proof (cases "map_of (v1_routes E (authSvc E key) (ledgerSvc E repo)) (rq_Method r, rq_Route r)")
  case None
  with assms reading_handlers(4) [of E r] show ?thesis
    by (auto simp: confined_def route_def libraries_lawful_def reads_only_def sessions_def effect_def unchanged_def)
next
  case (Some h)
  then have "confined E (authSvc E key) h r w"
    using v1_confined [of E key r w repo] by (auto simp: list_all_iff dest!: map_of_SomeD)
  with Some assms reading_handlers(4) [of E r] show ?thesis
    by (auto simp: confined_def route_def libraries_lawful_def reads_only_def sessions_def effect_def unchanged_def)
qed

lemma server_shell:
  assumes "timeout_lawful (chi_Timeout lib)"
  shows "db (snd (snd (server E lib s l r w))) = db (snd (snd (route E lib s l r (step (step w)))))"
proof -
  have mw: "db (snd (snd (logging_Middleware E h r w))) = db (snd (snd (h r (step w))))"
    "db (snd (snd (metrics_Middleware E h r w))) = db (snd (snd (h r (step w))))"
    "db (snd (snd (recovery_Middleware E h r w))) = db (snd (snd (h r w)))" for h r w
    by (auto simp: logging_Middleware_def metrics_Middleware_def recovery_Middleware_def log_to_def inc_metric_def
        split: prod.splits option.splits panic.splits)
  have "db (snd (snd (chi_Timeout lib h r w))) = db (snd (snd (h r w)))" for h r w
    using assms unfolding timeout_lawful_def by metis
  then show ?thesis unfolding server_def mw by simp
qed

text \<open>The worker writes to its own two tables and keeps the queue's invariant.\<close>

definition polled :: "WebhookService \<Rightarrow> tables \<Rightarrow> tables \<Rightarrow> bool" where
  "polled s d d' \<longleftrightarrow> books d' = books d \<and> elsewhere d' = elsewhere d \<and> (queue_inv s d \<longrightarrow> queue_inv s d')"

definition process_step :: "env \<Rightarrow> WebhookService \<Rightarrow> tables \<Rightarrow> tables \<Rightarrow> bool" where
  "process_step E s d d' \<longleftrightarrow> api_step E d d' \<or> polled s d d'"

lemma process_step_ledger: "process_step E s d d' \<Longrightarrow> \<exists>t. ledger_step t d d'"
  by (auto simp: process_step_def polled_def intro: api_step_ledger books_step)

lemma process_step_inv:
  assumes "process_step E s d d'" and "system_inv E s d" and "0 < ws_maxAttempts s"
  shows "system_inv E s d'"
proof (cases "polled s d d'")
  case True
  then have "ledger_wf d'"
    using ledger_step_wf [OF books_step] assms(2) by (auto simp: polled_def system_inv_def)
  moreover have "session_inv E d' = session_inv E d" "keys_unique d' = keys_unique d"
    using True session_inv_cong [of d' d E] keys_unique_cong [of d' d] by (simp_all add: polled_def elsewhere_def)
  ultimately show ?thesis using True assms(2) by (simp add: polled_def system_inv_def)
next
  case False
  with assms api_step_inv show ?thesis by (auto simp: process_step_def)
qed

lemma process_steps_inv:
  "(process_step E s)\<^sup>*\<^sup>* d d' \<Longrightarrow> system_inv E s d \<Longrightarrow> 0 < ws_maxAttempts s \<Longrightarrow> system_inv E s d'"
  by (induction rule: rtranclp_induct) (auto dest: process_step_inv)

lemma process_steps_rbac: "(process_step E s)\<^sup>*\<^sup>* d d' \<Longrightarrow> rbac d' = rbac d"
  by (induction rule: rtranclp_induct)
    (auto simp: process_step_def polled_def elsewhere_def api_step_def work_def dest: session_moves_tables)

lemma process_steps_ledger: "(process_step E s)\<^sup>*\<^sup>* d d' \<Longrightarrow> ledger_steps d d'"
  by (induction rule: rtranclp_induct) (auto dest!: process_step_ledger intro: rtranclp.rtrancl_into_rtrancl)

lemma server_steps:
  assumes "libraries_lawful lib" and "session_inv E (db w)"
  shows "(api_step E)\<^sup>*\<^sup>* (db w) (db (snd (snd (server E lib (authSvc E key) (ledgerSvc E repo) r w))))"
proof -
  have shell: "db (snd (snd (server E lib s l r w))) = db (snd (snd (route E lib s l r (step (step w)))))" for s l
    using server_shell assms(1) by (simp add: libraries_lawful_def)
  show ?thesis
    using route_confined [OF assms(1), of E key repo r "step (step w)"] assms(2)
    by (auto simp: shell confined_def Let_def sessions_def api_step_def intro: work_steps_api)
qed

text \<open>Serving a request changes no money, or is steps of the ledger an admitted user may take.\<close>

lemma server_moves_money:
  assumes "libraries_lawful lib" and "session_inv E (db w)"
    and "server E lib (authSvc E key) (ledgerSvc E repo) r w = (calls, p, w')"
  shows "books (db w') = books (db w) \<or>
    (\<exists>t permission. permission \<in> {''accounts:write'', ''transactions:write''} \<and>
       admitted E (authSvc E key) permission r (step (step w)) t \<and> (ledger_step t)\<^sup>*\<^sup>* (db w) (db w'))"
proof -
  have "db w' = db (snd (snd (route E lib (authSvc E key) (ledgerSvc E repo) r (step (step w)))))"
    using server_shell [of lib E] assms(1,3) by (simp add: libraries_lawful_def) (metis snd_conv)
  moreover have "(ledger_step t)\<^sup>*\<^sup>* d d'" if "(work t)\<^sup>*\<^sup>* d d'" for t d d'
    using that by (rule rtranclp_mono [THEN predicate2D, rotated]) (auto simp: work_def)
  ultimately show ?thesis
    using route_confined [OF assms(1), of E key repo r "step (step w)"] assms(2) session_moves_tables
    by (fastforce simp: confined_def Let_def sessions_def)
qed

end
