(* ===== verification/Process.thy ===== *)
theory Process
  imports Api "HOL-Library.Multiset"
begin

text \<open>
  The process of \<open>cmd/api/main.go\<close> from start to exit, as a state machine. The listener, the handlers,
  the worker and its goroutines and the function \<open>main\<close> itself run concurrently: a run is a sequence of
  incidents, each of which one of them takes. A request is served in one step, the worker claims a batch
  in one step and processes each claimed event in one of its own, and between any two of these anything
  else may happen. A crash of the machine is a run that ends.
\<close>

section \<open>State\<close>

text \<open>
  Where \<open>main\<close> is: waiting for a signal, past \<open>workerCancel\<close>, inside \<open>srv.Shutdown\<close> with the listener closed,
  or gone with an exit code.
\<close>

datatype phase = Listening | Stopping | Draining | Exited int

text \<open>
  The requests that were accepted and not answered yet, the answers given, the events of the batch the
  worker is waiting for, and whether the loop of \<open>Run\<close> still runs.
\<close>

record process =
  pr_world :: world
  pr_phase :: phase
  pr_accepted :: "Request list"
  pr_answered :: "(Request \<times> wcall list \<times> panic option) list"
  pr_batch :: "Event list"
  pr_polling :: bool

datatype incident =
    Arrives Request | Served nat
  | Ticks | Processed nat | WorkerStops
  | ListenFails string | Signalled | ShutdownStarts | ShutdownReturns | ShutdownFails string

definition running :: "process \<Rightarrow> bool" where
  "running p \<longleftrightarrow> pr_phase p \<in> {Listening, Stopping, Draining}"

definition open_listener :: "process \<Rightarrow> bool" where
  "open_listener p \<longleftrightarrow> pr_phase p \<in> {Listening, Stopping}"

definition drop_nth :: "nat \<Rightarrow> 'a list \<Rightarrow> 'a list" where
  "drop_nth i xs = take i xs @ drop (Suc i) xs"

section \<open>Start\<close>

text \<open>What ends the process before it serves: \<open>os.Exit(1)\<close> after a line of the log, or a panic.\<close>

datatype startup_failure = Fatal log_line | Panicked

definition main_start ::
  "env \<Rightarrow> process_env \<Rightarrow> (string \<Rightarrow> string option) \<Rightarrow> libraries \<Rightarrow> (world, startup_failure, Worker \<times> http_Handler) comp"
where
  "main_start E env sql_Open lib =
     (let cfg = Load env in
      case sql_Open (DatabaseDSN cfg) of
        Some msg \<Rightarrow> raise (Fatal (''ERROR'', ''open database'', [(''error'', LogString msg)]))
      | None \<Rightarrow>
          bindC (wrapE (\<lambda>e. Fatal (''ERROR'', ''ping database'', [(''error'', LogString (Error (pg_message E) e))]))
            (PingContext E)) (\<lambda>_.
          bindC (\<lambda>w. (Inr (), log_to (''INFO'', ''connected to database'',
            [(''host'', LogString (cfg_DBHost cfg)), (''name'', LogString (cfg_DBName cfg))]) w)) (\<lambda>_.
          if cfg_JWTSecret cfg = ''''
          then raise (Fatal (''ERROR'',
            ''JWT_SECRET is not set -- refusing to start with an unsigned/insecure JWT signing key'', []))
          else case NewWebhookRepository of
            Inl _ \<Rightarrow> raise Panicked
          | Inr webhookRepo \<Rightarrow>
              bindC (\<lambda>w. (Inr (), log_to (''INFO'', ''webhook worker started'', []) w)) (\<lambda>_.
              bindC (\<lambda>w. (Inr (), log_to (''INFO'', ''listening'', [(''port'', LogString (cfg_Port cfg))]) w)) (\<lambda>_.
              ok (NewWorker webhookRepo (NewWebhookService webhookRepo []) [],
                  server E lib (authSvc E (cfg_JWTSecret cfg)) (ledgerSvc E webhookRepo)))))))"

definition serving :: "world \<Rightarrow> process" where
  "serving w = \<lparr>pr_world = w, pr_phase = Listening, pr_accepted = [], pr_answered = [], pr_batch = [], pr_polling = True\<rparr>"

definition exit_with :: "int \<Rightarrow> process \<Rightarrow> process" where
  "exit_with code p = p\<lparr>pr_phase := Exited code\<rparr>"

definition log_line_to :: "log_line \<Rightarrow> process \<Rightarrow> process" where
  "log_line_to l p = p\<lparr>pr_world := log_to l (pr_world p)\<rparr>"

section \<open>Steps\<close>

text \<open>
  The first half of \<open>processBatch\<close>: the claim in its transaction; a failure leaves the batch empty. The
  second half, a goroutine for each event and the wait for all of them, are the steps \<open>Processed\<close>.
\<close>

definition claim_batch :: "env \<Rightarrow> Worker \<Rightarrow> (world, error, Event list) comp" where
  "claim_batch E wk =
     bindC (attempt (in_tx E (\<lambda>e. e) (\<lambda>e. e) (ClaimPendingEvents E (wk_repo wk) (wk_batchSize wk))))
       (\<lambda>r. case r of Inl _ \<Rightarrow> ok [] | Inr evs \<Rightarrow> ok evs)"

text \<open>
  After \<open>workerCancel\<close> the context the worker passes to every call is done, and \<open>database/sql\<close> and
  \<open>net/http\<close> refuse a call whose context is done.
\<close>

definition cancelled :: "env \<Rightarrow> env" where
  "cancelled E = E\<lparr>outcome := \<lambda>_. Failed, http_Do := \<lambda>_ _. Inl ''context canceled''\<rparr>"

definition worker_env :: "env \<Rightarrow> process \<Rightarrow> env" where
  "worker_env E p = (if pr_phase p = Listening then E else cancelled E)"

fun advance :: "env \<Rightarrow> Worker \<Rightarrow> http_Handler \<Rightarrow> incident \<Rightarrow> process \<Rightarrow> process option" where
  "advance E wk h (Arrives r) p =
     (if open_listener p then Some (p\<lparr>pr_accepted := pr_accepted p @ [r]\<rparr>) else None)"
| "advance E wk h (Served i) p =
     (if running p \<and> i < length (pr_accepted p)
      then let r = pr_accepted p ! i in
        case h r (pr_world p) of (calls, pn, w) \<Rightarrow>
          Some (p\<lparr>pr_world := w, pr_accepted := drop_nth i (pr_accepted p),
                  pr_answered := pr_answered p @ [(r, calls, pn)]\<rparr>)
      else None)"
| "advance E wk h Ticks p =
     (if running p \<and> pr_polling p \<and> pr_batch p = []
      then case claim_batch (worker_env E p) wk (pr_world p) of
          (Inl _, w) \<Rightarrow> Some (p\<lparr>pr_world := w\<rparr>)
        | (Inr evs, w) \<Rightarrow> Some (p\<lparr>pr_world := w, pr_batch := evs\<rparr>)
      else None)"
| "advance E wk h (Processed i) p =
     (if running p \<and> i < length (pr_batch p)
      then case ProcessEvent (worker_env E p) (wk_svc wk) (pr_batch p ! i) (pr_world p) of
          (Inl _, w) \<Rightarrow> Some (exit_with 2 (p\<lparr>pr_world := w, pr_batch := drop_nth i (pr_batch p)\<rparr>))
        | (Inr _, w) \<Rightarrow> Some (p\<lparr>pr_world := w, pr_batch := drop_nth i (pr_batch p)\<rparr>)
      else None)"
| "advance E wk h WorkerStops p =
     (if running p \<and> pr_phase p \<noteq> Listening \<and> pr_polling p \<and> pr_batch p = []
      then Some (log_line_to (''INFO'', ''webhook worker: shutting down'', []) (p\<lparr>pr_polling := False\<rparr>)) else None)"
| "advance E wk h (ListenFails msg) p =
     (if open_listener p
      then Some (exit_with 1 (log_line_to (''ERROR'', ''server error'', [(''error'', LogString msg)]) p)) else None)"
| "advance E wk h Signalled p =
     (if pr_phase p = Listening
      then Some (log_line_to (''INFO'', ''shutting down'', []) (p\<lparr>pr_phase := Stopping\<rparr>)) else None)"
| "advance E wk h ShutdownStarts p =
     (if pr_phase p = Stopping then Some (p\<lparr>pr_phase := Draining\<rparr>) else None)"
| "advance E wk h ShutdownReturns p =
     (if pr_phase p = Draining \<and> pr_accepted p = [] then Some (exit_with 0 p) else None)"
| "advance E wk h (ShutdownFails msg) p =
     (if pr_phase p = Draining
      then Some (exit_with 1 (log_line_to (''ERROR'', ''graceful shutdown failed'', [(''error'', LogString msg)]) p)) else None)"

fun advance_all :: "env \<Rightarrow> Worker \<Rightarrow> http_Handler \<Rightarrow> incident list \<Rightarrow> process \<Rightarrow> process option" where
  "advance_all E wk h [] p = Some p"
| "advance_all E wk h (x # xs) p = Option.bind (advance E wk h x p) (advance_all E wk h xs)"

text \<open>The whole program, on the incidents it meets; \<open>None\<close> when they cannot happen in this order.\<close>

definition main_run ::
  "env \<Rightarrow> process_env \<Rightarrow> (string \<Rightarrow> string option) \<Rightarrow> libraries \<Rightarrow> incident list \<Rightarrow> world \<Rightarrow> process option"
where
  "main_run E env sql_Open lib xs w =
     (case main_start E env sql_Open lib w of
        (Inl (Fatal l), w') \<Rightarrow> if xs = [] then Some (exit_with 1 (log_line_to l (serving w'))) else None
      | (Inl Panicked, w') \<Rightarrow> if xs = [] then Some (exit_with 2 (serving w')) else None
      | (Inr (wk, h), w') \<Rightarrow> advance_all E wk h xs (serving w'))"

section \<open>The worker's steps\<close>

lemma processBatch_split:
  "processBatch E wk = bindC (claim_batch E wk) (\<lambda>evs. bindC (mapC (ProcessEvent E (wk_svc wk)) evs) (\<lambda>_. ok ()))"
  by (rule ext) (simp add: processBatch_def claim_batch_def bindC_def attempt_def ok_def split: sum.splits prod.splits)

lemma claim_batch_rule:
  assumes "claim_batch E wk w = (r, w')" and "P [] (db w)"
    and "\<And>js locked now uid d'. claim_jobs locked (wk_batchSize wk) now uid (db w) = Inr (js, d') \<Longrightarrow>
      P [] d' \<and> P (map eventFromJob js) d'"
  shows "\<exists>evs. r = Inr evs \<and> P evs (db w')"
proof -
  let ?claim = "in_tx E (\<lambda>e. e) (\<lambda>e. e) (ClaimPendingEvents E (wk_repo wk) (wk_batchSize wk))"
  obtain res w1 where run: "?claim w = (res, w1)" by fastforce
  show ?thesis
  proof (cases res)
    case (Inl e)
    have "leads ?claim (P []) w" by (rule leads_claim_tx) (use assms(2,3) in blast)+
    with Inl run assms(1) show ?thesis by (auto simp: claim_batch_def bindC_def attempt_def ok_def leads_def)
  next
    case (Inr evs)
    with run have "P evs (db w1)" using assms(3) by (auto elim!: claim_tx_InrD)
    with Inr run assms(1) show ?thesis by (auto simp: claim_batch_def bindC_def attempt_def ok_def)
  qed
qed

lemma claim_aside:
  "claim_jobs locked limit now uid d = Inr (js, d') \<Longrightarrow> books d' = books d \<and> elsewhere d' = elsewhere d"
  by (auto simp: claim_jobs_def books_def elsewhere_def rbac_def Let_def split: if_splits)

lemma processed_aside: "processed s ev d d' \<Longrightarrow> books d' = books d \<and> elsewhere d' = elsewhere d"
  by (auto elim!: processedE simp: books_def elsewhere_def rbac_def upd_row_def)

lemma ProcessEvent_run: "ProcessEvent E s ev w = (r, w') \<Longrightarrow> processed s ev (db w) (db w')"
  using ProcessEvent_processed [of E s ev w] by (simp add: leads_def)

text \<open>With a context that is done, nothing is claimed and nothing is settled.\<close>

lemma cancelled_fails: "outcome (cancelled E) n = Failed"
  by (simp add: cancelled_def)

lemma cancelled_claim: "claim_batch (cancelled E) wk w = (Inr [], step w)"
  by (simp add: claim_batch_def bindC_def attempt_def ok_def in_tx_def cancelled_fails)

lemma cancelled_settles_nothing:
  "keeps db (MarkDelivered_event (cancelled E) r i)" "keeps db (ScheduleRetry_event (cancelled E) r i a t msg)"
  "keeps db (in_tx (cancelled E) bE cE body)"
  by (auto simp: MarkDelivered_event_def MarkDelivered_def ScheduleRetry_event_def ScheduleRetry_def wrapE_def pg_def
      in_tx_def cancelled_fails intro!: keepsI)

lemma cancelled_ProcessEvent: "keeps db (ProcessEvent (cancelled E) s ev)"
  unfolding ProcessEvent_def Let_def backoffForAttempt_def
  by (auto intro!: keeps_bindC keeps_attempt keeps_inc [of id, simplified] keeps_ok keeps_deliver keeps_go_now keeps_jitter cancelled_settles_nothing
      split: sum.splits)

text \<open>With the settings of \<open>main\<close>, processing an event that has attempts left does not panic.\<close>

lemma jitter_returns: "5 \<le> d \<Longrightarrow> \<exists>b. jitter E d w = (Inr b, step w)"
  by (auto simp: jitter_def Let_def split: option.splits)

lemma default_ProcessEvent_returns:
  assumes "0 \<le> ev_AttemptCount ev"
  shows "\<exists>u w'. ProcessEvent E (NewWebhookService r []) ev w = (Inr u, w')"
proof -
  let ?s = "NewWebhookService r []"
  have s: "ws_maxAttempts ?s = 5" "ws_baseBackoff ?s = DefaultBaseBackoff"
    by (simp_all add: NewWebhookService_def DefaultMaxAttempts_def)
  have "backoffForAttempt E ?s (ev_AttemptCount ev + 1) w1 \<noteq> (Inl e, w2)"
    if "\<not> 5 \<le> ev_AttemptCount ev + 1" for w1 w2 e
  proof -
    define q :: int where "q = 2 ^ nat (ev_AttemptCount ev)"
    have "1 \<le> q" by (simp add: q_def)
    then have "5 \<le> min (30 * q) 3600 * Second" by (simp add: Second_def min_def)
    then have "5 \<le> clamp_backoff ?s (scaled_backoff E DefaultBaseBackoff (ev_AttemptCount ev + 1))"
      using default_clamp [of "ev_AttemptCount ev + 1" r E] assms that by (simp add: q_def)
    from jitter_returns [OF this, of E w1] show ?thesis
      by (auto simp: backoffForAttempt_def s)
  qed
  then have "wp (ProcessEvent E ?s ev) (\<lambda>_ _. True) (\<lambda>_ _. False) w"
    unfolding ProcessEvent_def Let_def s
    by (auto simp: wp_simps wp_def attempt_def bindC_def ok_def inc_def go_now_def split: prod.splits sum.splits)
  then show ?thesis by (auto simp: wp_def split: prod.splits sum.splits)
qed

section \<open>Runs\<close>

lemma drop_nth_mset: "i < length xs \<Longrightarrow> mset xs = add_mset (xs ! i) (mset (drop_nth i xs))"
  using arg_cong [where f = mset, OF id_take_nth_drop [of i xs]] by (simp add: drop_nth_def)

lemma advance_all_rule [consumes 2]:
  assumes "advance_all E wk h xs p = Some q" and "I p"
    and "\<And>x p q. advance E wk h x p = Some q \<Longrightarrow> I p \<Longrightarrow> I q"
  shows "I q"
  using assms(1,2)
proof (induction xs arbitrary: p)
  case (Cons x xs)
  then show ?case using assms(3) by (auto simp: bind_eq_Some_conv)
qed simp

lemma advance_all_append:
  "advance_all E wk h (xs @ ys) p = Option.bind (advance_all E wk h xs p) (advance_all E wk h ys)"
  by (induction xs arbitrary: p) (auto split: Option.bind_split)

lemmas advance_simps = running_def open_listener_def exit_with_def log_line_to_def log_to_def

text \<open>A request only adds rows to the queue; after \<open>workerCancel\<close>, nothing else happens to it.\<close>

definition queue_grows :: "tables \<Rightarrow> tables \<Rightarrow> bool" where
  "queue_grows d d' \<longleftrightarrow> set (webhook_events d) \<subseteq> set (webhook_events d')"

lemma api_steps_grow: "(api_step E)\<^sup>*\<^sup>* d d' \<Longrightarrow> queue_grows d d'"
proof (induction rule: rtranclp_induct)
  case (step y z)
  have "outbox y z" using step(2) session_moves_tables by (auto simp: api_step_def work_def)
  with step(3) show ?case by (auto simp: queue_grows_def outbox_def one_event_def)
qed (simp add: queue_grows_def)

lemma queue_grows_inflight: "queue_grows d d' \<Longrightarrow> inflight d ev \<Longrightarrow> inflight d' ev"
  by (auto simp: queue_grows_def inflight_def)

section \<open>The invariant\<close>

text \<open>
  The tables are well-formed and every event of the batch is in flight: its row is processing, and no
  other event of the batch has it.
\<close>

definition process_inv :: "env \<Rightarrow> WebhookService \<Rightarrow> process \<Rightarrow> bool" where
  "process_inv E s p \<longleftrightarrow> system_inv E s (db (pr_world p)) \<and> batch_inv s (pr_batch p) (db (pr_world p))"

definition process_moves :: "env \<Rightarrow> WebhookService \<Rightarrow> process \<Rightarrow> process \<Rightarrow> bool" where
  "process_moves E s p q \<longleftrightarrow> process_inv E s q \<and> (process_step E s)\<^sup>*\<^sup>* (db (pr_world p)) (db (pr_world q))"

lemma batch_inv_mset: "mset evs = mset evs' \<Longrightarrow> batch_inv s evs d = batch_inv s evs' d"
  unfolding batch_inv_def by (metis mset_map mset_eq_imp_distinct_iff mset_eq_setD)

lemma batch_inv_drop:
  assumes "batch_inv s evs d" and "i < length evs" and "processed s (evs ! i) d d'"
  shows "batch_inv s (drop_nth i evs) d'"
proof (rule batch_inv_step [OF _ assms(3)])
  have "mset evs = mset (evs ! i # drop_nth i evs)" using drop_nth_mset [OF assms(2)] by simp
  then show "batch_inv s (evs ! i # drop_nth i evs) d" using assms(1) batch_inv_mset by blast
qed

lemma process_inv_same:
  "process_inv E s p \<Longrightarrow> db (pr_world q) = db (pr_world p) \<Longrightarrow> pr_batch q = pr_batch p \<Longrightarrow> process_moves E s p q"
  by (simp add: process_moves_def process_inv_def)

lemma process_inv_polled:
  assumes "process_inv E s p" and "batch_inv s (pr_batch q) (db (pr_world q))" and "0 < ws_maxAttempts s"
    and "books (db (pr_world q)) = books (db (pr_world p)) \<and> elsewhere (db (pr_world q)) = elsewhere (db (pr_world p))"
  shows "process_moves E s p q"
proof -
  have "process_step E s (db (pr_world p)) (db (pr_world q))"
    using assms(2,4) by (simp add: process_step_def polled_def batch_inv_def)
  moreover from process_step_inv [OF this] assms(1,3) have "system_inv E s (db (pr_world q))"
    by (simp add: process_inv_def)
  ultimately show ?thesis using assms(2) by (auto simp: process_moves_def process_inv_def)
qed

lemma process_inv_served:
  assumes "process_inv E s p" and "(api_step E)\<^sup>*\<^sup>* (db (pr_world p)) (db (pr_world q))" and "0 < ws_maxAttempts s"
    and "pr_batch q = pr_batch p"
  shows "process_moves E s p q"
proof -
  have steps: "(process_step E s)\<^sup>*\<^sup>* (db (pr_world p)) (db (pr_world q))"
    using assms(2) by (rule rtranclp_mono [THEN predicate2D, rotated]) (auto simp: process_step_def)
  have "system_inv E s (db (pr_world q))"
    using process_steps_inv [OF steps] assms(1,3) by (simp add: process_inv_def)
  moreover from this have "batch_inv s (pr_batch q) (db (pr_world q))"
    using assms(1,4) queue_grows_inflight [OF api_steps_grow [OF assms(2)]]
    by (auto simp: process_inv_def batch_inv_def system_inv_def)
  ultimately show ?thesis using steps by (simp add: process_moves_def process_inv_def)
qed

lemma claim_moves:
  assumes "claim_batch E' wk (pr_world p) = (r, w')" and "process_inv E (wk_svc wk) p" and "pr_batch p = []"
  shows "\<exists>evs. r = Inr evs \<and> batch_inv (wk_svc wk) evs (db w') \<and>
    books (db w') = books (db (pr_world p)) \<and> elsewhere (db w') = elsewhere (db (pr_world p))"
proof (rule claim_batch_rule [OF assms(1)])
  have inv: "queue_inv (wk_svc wk) (db (pr_world p))" using assms(2) by (simp add: process_inv_def system_inv_def)
  then show "batch_inv (wk_svc wk) [] (db (pr_world p)) \<and>
    books (db (pr_world p)) = books (db (pr_world p)) \<and> elsewhere (db (pr_world p)) = elsewhere (db (pr_world p))"
    by (simp add: batch_inv_def)
  fix js locked now uid d'
  assume claim: "claim_jobs locked (wk_batchSize wk) now uid (db (pr_world p)) = Inr (js, d')"
  have "distinct (map job_ID (webhook_events (db (pr_world p))))" using inv by (simp add: queue_inv_def)
  from claim_rows(3) [OF claim this] have "distinct (map ev_ID (map eventFromJob js))" by (simp add: comp_def)
  then show "(batch_inv (wk_svc wk) [] d' \<and> books d' = books (db (pr_world p)) \<and> elsewhere d' = elsewhere (db (pr_world p))) \<and>
    (batch_inv (wk_svc wk) (map eventFromJob js) d' \<and> books d' = books (db (pr_world p)) \<and>
     elsewhere d' = elsewhere (db (pr_world p)))"
    using claim_queue_inv [OF claim inv] claim_aside [OF claim] by (auto simp: batch_inv_def)
qed

lemma advance_moves:
  assumes "advance E wk (server E lib (authSvc E key) (ledgerSvc E repo)) x p = Some q"
    and "libraries_lawful lib" and "process_inv E (wk_svc wk) p" and "0 < ws_maxAttempts (wk_svc wk)"
  shows "process_moves E (wk_svc wk) p q"
proof (cases x)
  case (Served i)
  have "session_inv E (db (pr_world p))" using assms(3) by (simp add: process_inv_def system_inv_def)
  from server_steps [OF assms(2) this, of key repo "pr_accepted p ! i"] assms(1,3,4) Served show ?thesis
    by (auto simp: Let_def split: if_splits prod.splits intro!: process_inv_served)
next
  case Ticks
  with assms(1) have "pr_batch p = []" by (simp split: if_splits)
  moreover obtain r w' where claim: "claim_batch (worker_env E p) wk (pr_world p) = (r, w')" by fastforce
  ultimately obtain evs where "r = Inr evs" "batch_inv (wk_svc wk) evs (db w')"
    "books (db w') = books (db (pr_world p)) \<and> elsewhere (db w') = elsewhere (db (pr_world p))"
    using claim_moves [OF claim assms(3)] by blast
  with assms(1,3,4) Ticks claim show ?thesis by (auto split: if_splits intro!: process_inv_polled)
next
  case (Processed i)
  then have i: "i < length (pr_batch p)" using assms(1) by (simp split: if_splits)
  obtain r w' where run: "ProcessEvent (worker_env E p) (wk_svc wk) (pr_batch p ! i) (pr_world p) = (r, w')" by fastforce
  have batch: "batch_inv (wk_svc wk) (pr_batch p) (db (pr_world p))" using assms(3) by (simp add: process_inv_def)
  from batch_inv_drop [OF batch i ProcessEvent_run [OF run]] processed_aside [OF ProcessEvent_run [OF run]] assms(1,3,4)
    Processed run i
  show ?thesis by (auto simp: exit_with_def split: if_splits sum.splits intro!: process_inv_polled)
qed (use assms(1,3) in \<open>auto simp: advance_simps split: if_splits intro!: process_inv_same\<close>)

section \<open>An undisturbed batch\<close>

text \<open>When nothing comes between its steps, the worker does what \<open>processBatch\<close> does.\<close>

lemma undisturbed_events:
  assumes "mapC (ProcessEvent E (wk_svc wk)) (pr_batch p) (pr_world p) = (Inr us, w')" and "pr_phase p = Listening"
  shows "advance_all E wk h (replicate (length (pr_batch p)) (Processed 0)) p = Some (p\<lparr>pr_world := w', pr_batch := []\<rparr>)"
  using assms
proof (induction "pr_batch p" arbitrary: p us)
  case Nil
  then show ?case by (cases p) (simp add: ok_def)
next
  case (Cons ev evs)
  have b: "pr_batch p = ev # evs" using Cons.hyps(2) by simp
  from Cons.prems(1) b obtain u w1 where one: "ProcessEvent E (wk_svc wk) ev (pr_world p) = (Inr u, w1)"
    and rest: "mapC (ProcessEvent E (wk_svc wk)) evs w1 = (Inr (tl us), w')"
    by (auto simp: bindC_def ok_def split: sum.splits prod.splits)
  let ?p = "p\<lparr>pr_world := w1, pr_batch := evs\<rparr>"
  have "advance E wk h (Processed 0) p = Some ?p"
    using one Cons.prems(2) by (simp add: running_def worker_env_def drop_nth_def b)
  moreover have "advance_all E wk h (replicate (length evs) (Processed 0)) ?p = Some (p\<lparr>pr_world := w', pr_batch := []\<rparr>)"
    using Cons.hyps(1) [of ?p "tl us"] rest Cons.prems(2) by simp
  ultimately show ?case by (simp add: b)
qed

lemma undisturbed_batch:
  assumes "processBatch E wk (pr_world p) = (Inr (), w')" and "pr_phase p = Listening" "pr_polling p" "pr_batch p = []"
  shows "\<exists>n. advance_all E wk h (Ticks # replicate n (Processed 0)) p = Some (p\<lparr>pr_world := w'\<rparr>)"
proof -
  from assms(1) obtain evs us w1 where claim: "claim_batch E wk (pr_world p) = (Inr evs, w1)"
    and rest: "mapC (ProcessEvent E (wk_svc wk)) evs w1 = (Inr us, w')"
    by (auto simp: processBatch_split bindC_def ok_def split: sum.splits prod.splits)
  have "advance E wk h Ticks p = Some (p\<lparr>pr_world := w1, pr_batch := evs\<rparr>)"
    using claim assms(2-4) by (simp add: running_def worker_env_def)
  with undisturbed_events [of E wk "p\<lparr>pr_world := w1, pr_batch := evs\<rparr>" us w' h] rest assms(2,4) show ?thesis
    by (intro exI [of _ "length evs"]) (cases p, simp)
qed

section \<open>Runs of the program\<close>

definition main_worker :: Worker where
  "main_worker = (let r = \<lparr>queueTable = ''webhook_events'', deadLetterTable = ''dead_letter_events''\<rparr>
     in NewWorker r (NewWebhookService r []) [])"

lemma main_worker_attempts: "0 < ws_maxAttempts (wk_svc main_worker)"
  by (simp add: main_worker_def NewWorker_def NewWebhookService_def DefaultMaxAttempts_def Let_def)

text \<open>The program refuses to start, or serves with a signing key that is not empty.\<close>

lemma main_start_cases:
  assumes "main_start E env sql_Open lib w = (r, w')"
  shows "db w' = db w \<and>
    ((\<exists>msg vs. r = Inl (Fatal (''ERROR'', msg, vs))) \<or>
     sql_Open (DatabaseDSN (Load env)) = None \<and> env ''JWT_SECRET'' \<noteq> '''' \<and>
     (\<exists>repo. r = Inr (main_worker, server E lib (authSvc E (env ''JWT_SECRET'')) (ledgerSvc E repo))))"
proof -
  have key: "cfg_JWTSecret (Load env) = env ''JWT_SECRET''" by (rule Load_settings_nonempty)
  have ping: "keeps db (PingContext E)" unfolding PingContext_def by (rule keeps_pg_select_db)
  show ?thesis
    using assms keepsD [OF ping]
    by (auto simp: main_start_def Let_def NewWebhookRepository_ok bindC_def wrapE_def raise_def ok_def log_to_def key
        main_worker_def split: option.splits prod.splits sum.splits if_splits)
qed

lemma main_run_cases:
  assumes "main_run E env sql_Open lib xs w = Some q"
  obtains (refused) "xs = []" "pr_phase q = Exited 1" "db (pr_world q) = db w" "pr_batch q = []" "pr_accepted q = []"
      "pr_answered q = []" "\<exists>ls msg vs. logs (pr_world q) = ls @ [(''ERROR'', msg, vs)]"
    | (serves) key repo w' where "env ''JWT_SECRET'' = key" "key \<noteq> ''''" "sql_Open (DatabaseDSN (Load env)) = None"
      "db w' = db w" "advance_all E main_worker (server E lib (authSvc E key) (ledgerSvc E repo)) xs (serving w') = Some q"
proof -
  obtain r w' where start: "main_start E env sql_Open lib w = (r, w')" by fastforce
  from main_start_cases [OF start] assms start that show thesis
    by (auto simp: main_run_def advance_simps serving_def split: if_splits)
qed

lemma main_run_append:
  assumes "main_run E env sql_Open lib (xs @ y # ys) w = Some q"
  obtains repo p where "main_run E env sql_Open lib xs w = Some p"
    "advance_all E main_worker (server E lib (authSvc E (env ''JWT_SECRET'')) (ledgerSvc E repo)) (y # ys) p = Some q"
proof -
  obtain r w' where start: "main_start E env sql_Open lib w = (r, w')" by fastforce
  from main_start_cases [OF start] assms start that show thesis
    by (fastforce simp: main_run_def advance_all_append bind_eq_Some_conv)
qed

lemma serving_inv: "system_inv E s (db w) \<Longrightarrow> process_inv E s (serving w)"
  by (simp add: process_inv_def serving_def batch_inv_def system_inv_def)

lemma served_moves:
  assumes "advance_all E wk (server E lib (authSvc E key) (ledgerSvc E repo)) xs p = Some q"
    and "libraries_lawful lib" and "process_inv E (wk_svc wk) p" and "0 < ws_maxAttempts (wk_svc wk)"
  shows "process_moves E (wk_svc wk) p q"
proof (rule advance_all_rule [where I = "process_moves E (wk_svc wk) p", OF assms(1)])
  show "process_moves E (wk_svc wk) p p" using assms(3) by (simp add: process_moves_def)
next
  fix x p1 q1
  assume "advance E wk (server E lib (authSvc E key) (ledgerSvc E repo)) x p1 = Some q1" "process_moves E (wk_svc wk) p p1"
  with advance_moves [OF this(1) assms(2) _ assms(4)] show "process_moves E (wk_svc wk) p q1"
    by (auto simp: process_moves_def)
qed

lemma main_run_moves:
  assumes "main_run E env sql_Open lib xs w = Some q" and "libraries_lawful lib"
    and "system_inv E (wk_svc main_worker) (db w)"
  shows "process_inv E (wk_svc main_worker) q \<and> (process_step E (wk_svc main_worker))\<^sup>*\<^sup>* (db w) (db (pr_world q))"
  using assms(1)
proof (cases rule: main_run_cases)
  case refused
  with assms(3) show ?thesis by (simp add: process_inv_def batch_inv_def system_inv_def)
next
  case (serves key repo w')
  have "process_inv E (wk_svc main_worker) (serving w')" using assms(3) serves(4) by (intro serving_inv) simp
  from served_moves [OF serves(5) assms(2) this main_worker_attempts] serves(4) show ?thesis
    by (simp add: process_moves_def serving_def)
qed

section \<open>Rows no step touches\<close>

text \<open>A step leaves alone every row that is neither pending nor in the batch, and after \<open>workerCancel\<close> every row.\<close>

lemma advance_kept_row:
  assumes "advance E wk (server E lib (authSvc E key) (ledgerSvc E repo)) x p = Some q"
    and "libraries_lawful lib" and "process_inv E (wk_svc wk) p"
    and "kept_row j (pr_batch p) (db (pr_world p))" and "job_Status j \<noteq> JobPending"
    and "process_inv E (wk_svc wk) q"
  shows "kept_row j (pr_batch q) (db (pr_world q))"
proof -
  have dist: "distinct (map job_ID (webhook_events (db (pr_world q))))"
    using assms(6) by (simp add: process_inv_def system_inv_def queue_inv_def)
  show ?thesis
  proof (cases x)
    case (Served i)
    have "session_inv E (db (pr_world p))" using assms(3) by (simp add: process_inv_def system_inv_def)
    from api_steps_grow [OF server_steps [OF assms(2) this, of key repo "pr_accepted p ! i"]] assms(1,4) Served dist
    show ?thesis by (auto simp: kept_row_def queue_grows_def Let_def split: if_splits prod.splits)
  next
    case Ticks
    then have b: "pr_batch p = []" using assms(1) by (simp split: if_splits)
    obtain r w' where claim: "claim_batch (worker_env E p) wk (pr_world p) = (r, w')" by fastforce
    have "\<exists>evs. r = Inr evs \<and> kept_row j evs (db w')"
    proof (rule claim_batch_rule [OF claim])
      show "kept_row j [] (db (pr_world p))" using assms(4) b by simp
      fix js locked now uid d'
      assume c: "claim_jobs locked (wk_batchSize wk) now uid (db (pr_world p)) = Inr (js, d')"
      have d0: "distinct (map job_ID (webhook_events (db (pr_world p))))" using assms(4) by (simp add: kept_row_def)
      from claim_rows(1) [OF c d0] claim_rows(5) [OF c d0, of j] assms(4,5) d0
      show "kept_row j [] d' \<and> kept_row j (map eventFromJob js) d'" by (auto simp: kept_row_def)
    qed
    with claim Ticks assms(1) show ?thesis by (auto split: if_splits)
  next
    case (Processed i)
    then have i: "i < length (pr_batch p)" using assms(1) by (simp split: if_splits)
    obtain r w' where run: "ProcessEvent (worker_env E p) (wk_svc wk) (pr_batch p ! i) (pr_world p) = (r, w')" by fastforce
    have "set (pr_batch p) = set (pr_batch p ! i # drop_nth i (pr_batch p))"
      using arg_cong [OF drop_nth_mset [OF i], of set_mset] by simp
    then have "kept_row j (pr_batch p ! i # drop_nth i (pr_batch p)) (db (pr_world p))"
      using assms(4) unfolding kept_row_def by metis
    from kept_row_step [OF this ProcessEvent_run [OF run]] assms(1) Processed run show ?thesis
      by (auto simp: exit_with_def split: if_splits sum.splits)
  qed (use assms(1,4) in \<open>auto simp: advance_simps split: if_splits\<close>)
qed

lemma advance_cancelled:
  assumes "advance E wk (server E lib (authSvc E key) (ledgerSvc E repo)) x p = Some q"
    and "libraries_lawful lib" and "session_inv E (db (pr_world p))" and "pr_phase p \<noteq> Listening"
  shows "pr_phase q \<noteq> Listening \<and> queue_grows (db (pr_world p)) (db (pr_world q))"
proof -
  have env: "worker_env E p = cancelled E" using assms(4) by (simp add: worker_env_def)
  show ?thesis
  proof (cases x)
    case (Served i)
    from api_steps_grow [OF server_steps [OF assms(2,3), of key repo "pr_accepted p ! i"]] assms(1,4) Served
    show ?thesis by (auto simp: Let_def split: if_splits prod.splits)
  next
    case (Processed i)
    obtain r w' where run: "ProcessEvent (cancelled E) (wk_svc wk) (pr_batch p ! i) (pr_world p) = (r, w')" by fastforce
    with keepsD [OF cancelled_ProcessEvent run] assms(1,4) Processed env show ?thesis
      by (auto simp: queue_grows_def exit_with_def split: if_splits sum.splits)
  qed (use assms(1,4) in \<open>auto simp: env cancelled_claim queue_grows_def advance_simps split: if_splits\<close>)
qed

section \<open>Money\<close>

text \<open>Only serving a request touches the books: neither the worker nor \<open>main\<close> does.\<close>

lemma advance_books:
  assumes "advance E wk h x p = Some q" and "books (db (pr_world q)) \<noteq> books (db (pr_world p))"
  shows "\<exists>i. x = Served i \<and> i < length (pr_accepted p) \<and> pr_world q = snd (snd (h (pr_accepted p ! i) (pr_world p)))"
proof (cases x)
  case (Served i)
  with assms(1) show ?thesis by (auto simp: Let_def split: if_splits prod.splits)
next
  case Ticks
  obtain r w' where claim: "claim_batch (worker_env E p) wk (pr_world p) = (r, w')" by fastforce
  have "\<exists>evs. r = Inr evs \<and> books (db w') = books (db (pr_world p))"
    by (rule claim_batch_rule [OF claim]) (auto dest: claim_aside)
  with claim Ticks assms show ?thesis by (auto split: if_splits)
next
  case (Processed i)
  obtain r w' where run: "ProcessEvent (worker_env E p) (wk_svc wk) (pr_batch p ! i) (pr_world p) = (r, w')" by fastforce
  from processed_aside [OF ProcessEvent_run [OF run]] run Processed assms show ?thesis
    by (auto simp: exit_with_def split: if_splits sum.splits)
qed (use assms in \<open>auto simp: advance_simps books_def split: if_splits\<close>)

end
