(* ===== verification/Json_Roundtrip.thy ===== *)
theory Json_Roundtrip
  imports Json_Decode
begin

text \<open>
  What \<open>encoding/json\<close> writes, it reads back: for documents of ASCII strings, numbers, arrays and structs,
  of any size and nested less than ten thousand deep, the scanner of \<^theory_text>\<open>Json_Decode\<close> returns the value
  written and stops right behind it.
\<close>

section \<open>Strings\<close>

definition ascii :: "string \<Rightarrow> bool" where
  "ascii s \<longleftrightarrow> list_all (\<lambda>c. (of_char c :: nat) < 128) s"

lemma hex_val_digit [simp]: "n < 16 \<Longrightarrow> hex_val (hex_digit n) = Some n"
  by (auto simp: hex_val_def hex_digit_def Let_def)

lemma char_of_eq: "n < 128 \<Longrightarrow> (char_of n = c) = (n = of_char c)" for n :: nat
proof -
  assume "n < 128"
  then have "of_char (char_of n :: char) = n" by simp
  then show ?thesis by (metis char_of_char)
qed

lemma hex4_byte: "n < 128 \<Longrightarrow> hex4 (CHR ''0'' # CHR ''0'' # hex_byte (char_of n) @ t) = Some n" for n :: nat
proof -
  assume n: "n < 128"
  then have "n div 16 < 16" "n mod 16 < 16" "hex_val CHR ''0'' = Some 0" by (simp_all add: hex_val_def)
  with n show ?thesis by (simp add: hex4_def hex_byte_def Let_def)
qed

lemma string_body_escaped:
  assumes "(of_char c :: nat) < 128"
  shows "string_body (esc_ascii c @ t) = prepend [c] (string_body t)"
proof -
  obtain n :: nat where n: "c = char_of n" "n < 128" by (metis assms char_of_char)
  have lit: "char_of (8 :: nat) = CHR 0x08" "char_of (9 :: nat) = CHR 0x09" "char_of (10 :: nat) = CHR 0x0A"
    "char_of (12 :: nat) = CHR 0x0C" "char_of (13 :: nat) = CHR 0x0D"
    by (simp_all add: char_of_eq)
  from n show ?thesis
    using hex4_byte [OF n(2), of t] by (simp add: esc_ascii_def unescape_def Let_def utf8_encode_def char_of_eq lit)
qed

lemma string_body_prepended: "ascii s \<Longrightarrow> string_body (esc_runes (length s) s @ t) = prepend s (string_body t)"
proof (induction s)
  case (Cons c s)
  then show ?case by (auto simp: ascii_def esc_rune_def Let_def string_body_escaped prepend_def split: option.splits)
qed (auto simp: prepend_def split: option.splits)

lemma marshal_string_token: "ascii s \<Longrightarrow> next_token (marshal_string s @ t) = Some (TVal (VStr s), t)"
  by (simp add: marshal_string_def next_token_def json_space_def string_body_prepended prepend_def)

section \<open>Numbers\<close>

text \<open>What may follow a number: nothing the scanner would read as part of it.\<close>

definition delimited :: "string \<Rightarrow> bool" where
  "delimited t \<longleftrightarrow> (case t of [] \<Rightarrow> True | c # _ \<Rightarrow> \<not> is_digit c \<and> c \<notin> {CHR ''.'', CHR ''e'', CHR ''E''})"

lemma nat_digits_digits: "list_all is_digit (nat_digits n)"
  using nat_digits_ascii by (force simp: list_all_iff is_digit_def)

lemma nat_digits_nonempty [simp]: "nat_digits n \<noteq> []"
  by (subst nat_digits.simps) simp

lemma nat_digits_zero: "nat_digits 0 = ''0''"
  by (subst nat_digits.simps) (simp add: char_of_eq)

lemma nat_digits_no_zero: "0 < n \<Longrightarrow> hd (nat_digits n) \<noteq> CHR ''0''"
proof (induction n rule: nat_digits.induct)
  case (1 n)
  then show ?case by (subst nat_digits.simps) (auto simp: char_of_eq)
qed

lemma takeWhile_delimited: "list_all P ds \<Longrightarrow> (\<And>c r. t = c # r \<Longrightarrow> \<not> P c) \<Longrightarrow> takeWhile P (ds @ t) = ds \<and> dropWhile P (ds @ t) = t"
  by (cases t) (auto simp: list_all_iff takeWhile_append2 dropWhile_append2 takeWhile_eq_all_conv)

lemma digits1_delimited:
  "list_all is_digit ds \<Longrightarrow> ds \<noteq> [] \<Longrightarrow> delimited t \<Longrightarrow> digits1 (ds @ t) = Some (ds, t)"
proof -
  assume ds: "list_all is_digit ds" "ds \<noteq> []" and "delimited t"
  then have "takeWhile is_digit (ds @ t) = ds \<and> dropWhile is_digit (ds @ t) = t"
    by (intro takeWhile_delimited) (simp_all add: delimited_def)
  with ds show ?thesis by (simp add: digits1_def Let_def)
qed

lemma scan_integer_digits: "delimited t \<Longrightarrow> scan_integer (nat_digits n @ t) = Some (nat_digits n, t)"
proof (cases "n = 0")
  case True
  then show ?thesis by (simp add: nat_digits_zero scan_integer_def)
next
  case False
  assume t: "delimited t"
  obtain c r where cr: "nat_digits n = c # r" by (cases "nat_digits n") auto
  moreover have "digits1 (nat_digits n @ t) = Some (nat_digits n, t)"
    by (rule digits1_delimited [OF nat_digits_digits nat_digits_nonempty t])
  ultimately show ?thesis using nat_digits_no_zero [of n] False by (simp add: scan_integer_def)
qed

lemma scan_number_FormatInt: "delimited t \<Longrightarrow> scan_number (FormatInt i @ t) = Some (FormatInt i, t)"
proof -
  assume t: "delimited t"
  then have tail: "scan_fraction t = Some ([], t)" "scan_exponent t = Some ([], t)"
    by (auto simp: delimited_def scan_fraction_def scan_exponent_def split: list.splits)
  obtain c r where "nat_digits (nat i) = c # r" "c \<noteq> CHR ''-''"
    using nat_digits_no_minus [of "nat i"] by (cases "nat_digits (nat i)") auto
  then show ?thesis
    using scan_integer_digits [OF t, of "nat i"] scan_integer_digits [OF t, of "nat (- i)"] tail
    by (auto simp: FormatInt_def scan_number_def prepend_def)
qed

lemma FormatInt_token: "delimited t \<Longrightarrow> next_token (FormatInt i @ t) = Some (TVal (VNum (FormatInt i)), t)"
proof -
  assume t: "delimited t"
  have "list_all is_digit (nat_digits (nat i)) \<and> nat_digits (nat i) \<noteq> []" by (simp add: nat_digits_digits)
  then obtain c r where c: "FormatInt i = c # r" "c = CHR ''-'' \<or> is_digit c"
    by (cases "i < 0"; cases "nat_digits (nat i)") (auto simp: FormatInt_def)
  then have "\<not> json_space c" "c \<notin> {CHR 0x7B, CHR 0x7D, CHR ''['', CHR '']'', CHR '':'', CHR '','', CHR 0x22}"
    by (auto simp: json_space_def is_digit_def)
  then show ?thesis
    using scan_number_FormatInt [OF t, of i] c by (auto simp: next_token_def)
qed

lemma parse_digits_nat_digits: "parse_digits (nat_digits n) = Some (int n)"
proof -
  have "foldl (\<lambda>a c. 10 * a + int (digit_val c)) (int k) s = int (foldl (\<lambda>a c. 10 * a + digit_val c) k s)" for k s
  proof (induction s arbitrary: k)
    case (Cons c s)
    from Cons.IH [of "10 * k + digit_val c"] show ?case by simp
  qed simp
  from this [of 0] show ?thesis
    using digits_val_nat_digits [of n] by (simp add: parse_digits_def nat_digits_digits digits_val_def)
qed

lemma ParseInt_FormatInt: "fits64 i \<Longrightarrow> ParseInt (FormatInt i) = Some i"
proof -
  assume i: "fits64 i"
  obtain c r where c: "nat_digits (nat i) = c # r" "is_digit c"
    using nat_digits_digits [of "nat i"] by (cases "nat_digits (nat i)") auto
  then have "c \<noteq> CHR ''-''" "c \<noteq> CHR ''+''" by (auto simp: is_digit_def)
  then show ?thesis
    using i c parse_digits_nat_digits [of "nat i"] parse_digits_nat_digits [of "nat (- i)"]
    by (auto simp: FormatInt_def ParseInt_def in_int64_def)
qed

section \<open>Documents\<close>

fun plain :: "json \<Rightarrow> bool" where
  "plain (JStr s) = ascii s"
| "plain (JInt i) = True"
| "plain (JArr xs) = list_all plain xs"
| "plain (JStruct fs) = list_all (\<lambda>(k, v). ascii k \<and> plain v) fs"
| "plain _ = False"

fun value_of :: "json \<Rightarrow> jvalue" where
  "value_of (JStr s) = VStr s"
| "value_of (JInt i) = VNum (FormatInt i)"
| "value_of (JArr xs) = VArr (map value_of xs)"
| "value_of (JStruct fs) = VObj (map (\<lambda>(k, v). (k, value_of v)) fs)"
| "value_of _ = VNull"

fun depth :: "json \<Rightarrow> nat" where
  "depth (JArr xs) = Suc (fold max (map depth xs) 0)"
| "depth (JStruct fs) = Suc (fold max (map (\<lambda>(k, v). depth v) fs) 0)"
| "depth _ = 0"

lemma fold_max_ge: "x \<in> set xs \<Longrightarrow> x \<le> fold max xs m" for x :: nat
proof -
  have "m \<le> fold max ys m \<and> list_all (\<lambda>x. x \<le> fold max ys m) ys" for ys
  proof (induction ys arbitrary: m)
    case (Cons a ys)
    from Cons.IH [of "max a m"] show ?case by (simp add: list_all_iff)
  qed simp
  then show "x \<in> set xs \<Longrightarrow> x \<le> fold max xs m" by (simp add: list_all_iff)
qed

lemma depth_parts:
  "x \<in> set xs \<Longrightarrow> depth x < depth (JArr xs)" "(k, v) \<in> set fs \<Longrightarrow> depth v < depth (JStruct fs)"
  using fold_max_ge [of "depth x" "map depth xs" 0] fold_max_ge [of "depth v" "map (\<lambda>(k, v). depth v) fs" 0]
  by (force simp: less_Suc_eq_le)+

text \<open>Where the scanner goes on after a shift.\<close>

definition resume :: "shifted \<Rightarrow> string \<Rightarrow> (jvalue \<times> string) option" where
  "resume sh r = (case sh of Reject \<Rightarrow> None | Accept v \<Rightarrow> Some (v, r) | More x st \<Rightarrow> scan x st r)"

lemma scan_token: "next_token s = Some (t, r) \<Longrightarrow> scan x st s = resume (shift t x st) r"
  by (subst scan.simps) (simp add: resume_def)

lemma punct_token:
  "c \<in> {CHR 0x7B, CHR 0x7D, CHR ''['', CHR '']'', CHR '':'', CHR '',''} \<Longrightarrow> next_token (c # r) = Some (TPunct c, r)"
  by (auto simp: next_token_def json_space_def)

lemma scan_punct:
  "c \<in> {CHR 0x7B, CHR 0x7D, CHR ''['', CHR '']'', CHR '':'', CHR '',''} \<Longrightarrow>
    scan x st (c # r) = resume (shift_punct c x st) r"
  using scan_token [OF punct_token] by simp

lemma resume_More [simp]: "resume (More x st) r = scan x st r"
  by (simp add: resume_def)

lemma delimited_punct [simp]:
  "delimited (CHR '','' # t)" "delimited (CHR '']'' # t)" "delimited (CHR 0x7D # t)"
  by (simp_all add: delimited_def is_digit_def)

definition reads_back :: "json \<Rightarrow> bool" where
  "reads_back j \<longleftrightarrow> (\<forall>x st t. x \<in> {XValue, XValueOrEnd} \<longrightarrow> delimited t \<longrightarrow> depth j + length st \<le> maxNestingDepth \<longrightarrow>
     scan x st (json_Marshal j @ t) = resume (complete_value (value_of j) st) t)"

lemma reads_backD:
  "reads_back j \<Longrightarrow> x = XValue \<or> x = XValueOrEnd \<Longrightarrow> delimited t \<Longrightarrow> depth j + length st \<le> maxNestingDepth \<Longrightarrow>
    scan x st (json_Marshal j @ t) = resume (complete_value (value_of j) st) t"
  by (auto simp: reads_back_def)

lemma scan_elements:
  assumes "list_all reads_back xs" and "list_all (\<lambda>j. depth j + Suc (length st) \<le> maxNestingDepth) xs"
  shows "scan XCommaOrEnd (FArr acc # st) (concat (map (\<lambda>j. '','' @ json_Marshal j) xs) @ CHR '']'' # t) =
    resume (complete_value (VArr (rev acc @ map value_of xs)) st) t"
  using assms
proof (induction xs arbitrary: acc)
  case Nil
  then show ?case by (simp add: scan_punct shift_punct_def)
next
  case (Cons j xs)
  let ?t = "concat (map (\<lambda>j. '','' @ json_Marshal j) xs) @ CHR '']'' # t"
  have "delimited ?t" by (cases xs) simp_all
  then have "scan XValue (FArr acc # st) (json_Marshal j @ ?t) = scan XCommaOrEnd (FArr (value_of j # acc) # st) ?t"
    using Cons.prems by (subst reads_backD) simp_all
  with Cons show ?case by (simp add: scan_punct shift_punct_def)
qed

lemma scan_array:
  assumes "list_all reads_back xs" and "list_all (\<lambda>j. depth j + Suc (length st) \<le> maxNestingDepth) xs"
  shows "scan XValueOrEnd (FArr [] # st) (sep_by '','' (map json_Marshal xs) @ CHR '']'' # t) =
    resume (complete_value (VArr (map value_of xs)) st) t"
proof (cases xs)
  case Nil
  then show ?thesis by (simp add: sep_by_def scan_punct shift_punct_def)
next
  case (Cons j ys)
  let ?t = "concat (map (\<lambda>j. '','' @ json_Marshal j) ys) @ CHR '']'' # t"
  have "delimited ?t" by (cases ys) simp_all
  then have "scan XValueOrEnd (FArr [] # st) (json_Marshal j @ ?t) = scan XCommaOrEnd (FArr [value_of j] # st) ?t"
    using Cons assms by (subst reads_backD) simp_all
  with Cons assms scan_elements [of ys st "[value_of j]" t] show ?thesis by (simp add: sep_by_def o_def)
qed

text \<open>A member of an object, behind the brace or the comma before it.\<close>

definition marshal_member :: "string \<times> json \<Rightarrow> string" where
  "marshal_member m = (case m of (k, v) \<Rightarrow> marshal_string k @ '':'' @ json_Marshal v)"

abbreviation member_value :: "string \<times> json \<Rightarrow> string \<times> jvalue" where
  "member_value \<equiv> \<lambda>(k, v). (k, value_of v)"

lemma scan_member:
  assumes "ascii k" and "reads_back v" and "depth v + Suc (length st) \<le> maxNestingDepth" and "delimited t"
    and "x = XKey \<or> x = XKeyOrEnd"
  shows "scan x (FObj ms k0 # st) (marshal_member (k, v) @ t) = scan XCommaOrEnd (FObj ((k, value_of v) # ms) k # st) t"
proof -
  have "scan x (FObj ms k0 # st) (marshal_string k @ CHR '':'' # json_Marshal v @ t) =
      scan XColon (FObj ms k # st) (CHR '':'' # json_Marshal v @ t)"
    using scan_token [OF marshal_string_token [OF assms(1)]] assms(5) by (auto simp: shift_value_def)
  also have "\<dots> = scan XValue (FObj ms k # st) (json_Marshal v @ t)" by (simp add: scan_punct shift_punct_def)
  also have "\<dots> = scan XCommaOrEnd (FObj ((k, value_of v) # ms) k # st) t"
    using assms by (subst reads_backD) simp_all
  finally show ?thesis by (simp add: marshal_member_def)
qed

lemma scan_members:
  assumes "list_all (\<lambda>(k, v). ascii k \<and> reads_back v \<and> depth v + Suc (length st) \<le> maxNestingDepth) fs"
  shows "scan XCommaOrEnd (FObj ms k0 # st) (concat (map (\<lambda>m. '','' @ marshal_member m) fs) @ CHR 0x7D # t) =
    resume (complete_value (VObj (rev ms @ map member_value fs)) st) t"
  using assms
proof (induction fs arbitrary: ms k0)
  case Nil
  then show ?case by (simp add: scan_punct shift_punct_def)
next
  case (Cons m fs)
  obtain k v where m: "m = (k, v)" by fastforce
  let ?t = "concat (map (\<lambda>m. '','' @ marshal_member m) fs) @ CHR 0x7D # t"
  have "delimited ?t" by (cases fs) simp_all
  with Cons.prems m have "scan XKey (FObj ms k0 # st) (marshal_member m @ ?t) = scan XCommaOrEnd (FObj ((k, value_of v) # ms) k # st) ?t"
    by (simp add: scan_member)
  with Cons m show ?case by (simp add: scan_punct shift_punct_def)
qed

lemma scan_object:
  assumes "list_all (\<lambda>(k, v). ascii k \<and> reads_back v \<and> depth v + Suc (length st) \<le> maxNestingDepth) fs"
  shows "scan XKeyOrEnd (FObj [] [] # st) (sep_by '','' (map marshal_member fs) @ CHR 0x7D # t) =
    resume (complete_value (VObj (map member_value fs)) st) t"
proof (cases fs)
  case Nil
  then show ?thesis by (simp add: sep_by_def scan_punct shift_punct_def)
next
  case (Cons m gs)
  obtain k v where m: "m = (k, v)" by fastforce
  let ?t = "concat (map (\<lambda>m. '','' @ marshal_member m) gs) @ CHR 0x7D # t"
  have "delimited ?t" by (cases gs) simp_all
  with Cons m assms have "scan XKeyOrEnd (FObj [] [] # st) (marshal_member m @ ?t) = scan XCommaOrEnd (FObj [(k, value_of v)] k # st) ?t"
    by (simp add: scan_member)
  with Cons m assms scan_members [of st gs "[(k, value_of v)]" k t] show ?thesis by (simp add: sep_by_def o_def)
qed

lemma scan_struct:
  assumes "list_all (\<lambda>(k, v). ascii k \<and> reads_back v) fs" and "x = XValue \<or> x = XValueOrEnd"
    and "depth (JStruct fs) + length st \<le> maxNestingDepth"
  shows "scan x st (json_Marshal (JStruct fs) @ t) = resume (complete_value (value_of (JStruct fs)) st) t"
proof -
  have "list_all (\<lambda>(k, v). ascii k \<and> reads_back v \<and> depth v + Suc (length st) \<le> maxNestingDepth) fs"
    using assms depth_parts(2) [of _ _ fs] by (fastforce simp: list_all_iff)
  note obj = scan_object [OF this, of t, unfolded marshal_member_def]
  from assms(2,3) have "scan x st (json_Marshal (JStruct fs) @ t) =
      scan XKeyOrEnd (FObj [] [] # st) (sep_by '','' (map (\<lambda>(k, v). marshal_string k @ '':'' @ json_Marshal v) fs) @ CHR 0x7D # t)"
    by (auto simp: scan_punct shift_punct_def open_frame_def)
  with obj show ?thesis by simp
qed

lemma marshal_reads_back: "plain j \<Longrightarrow> reads_back j"
proof (induction j)
  case (JStr s)
  then show ?case
    using scan_token [OF marshal_string_token] by (auto simp: reads_back_def shift_value_def)
next
  case (JInt i)
  then show ?case using scan_token [OF FormatInt_token] by (auto simp: reads_back_def shift_value_def)
next
  case (JArr xs)
  then have all: "list_all reads_back xs" by (simp add: list_all_iff)
  show ?case unfolding reads_back_def
  proof (intro allI impI)
    fix x t and st :: "frame list"
    assume x: "x \<in> {XValue, XValueOrEnd}" and d: "depth (JArr xs) + length st \<le> maxNestingDepth"
    then have "list_all (\<lambda>j. depth j + Suc (length st) \<le> maxNestingDepth) xs"
      using depth_parts(1) [of _ xs] by (fastforce simp: list_all_iff)
    from scan_array [OF all this, of t] x d
    show "scan x st (json_Marshal (JArr xs) @ t) = resume (complete_value (value_of (JArr xs)) st) t"
      by (auto simp: scan_punct shift_punct_def open_frame_def)
  qed
next
  case (JStruct fs)
  then have "list_all (\<lambda>(k, v). ascii k \<and> reads_back v) fs" by (fastforce simp: list_all_iff)
  from scan_struct [OF this] show ?case by (simp add: reads_back_def [of "JStruct fs"] del: json_Marshal.simps)
qed simp_all

text \<open>Nothing that follows an object can be taken for a part of it.\<close>

lemma json_value_Marshal:
  assumes "plain (JStruct fs)" and "depth (JStruct fs) \<le> maxNestingDepth"
  shows "json_value (json_Marshal (JStruct fs) @ t) = Some (value_of (JStruct fs), t)"
proof -
  have "list_all (\<lambda>(k, v). ascii k \<and> reads_back v) fs"
    using assms(1) marshal_reads_back by (fastforce simp: list_all_iff)
  from scan_struct [OF this, of XValue "[]" t] assms(2) show ?thesis
    by (simp add: json_value_def resume_def)
qed

end
