(* ===== verification/Api_Properties.thy ===== *)
theory Api_Properties
  imports Api Idempotency_Properties Json_Roundtrip
begin

text \<open>
  How the API answers: one status and one body per request, the status that is logged and counted, the
  answer to a panic, what the answer to a transfer says about the ledger, and the replay of a retried
  request.
\<close>

section \<open>One status per answer\<close>

definition answering :: "int set \<Rightarrow> (world \<Rightarrow> served) \<Rightarrow> bool" where
  "answering codes f \<longleftrightarrow>
     (\<forall>w. fst (snd (f w)) = None \<and> (\<exists>code \<in> codes. \<exists>b. one_status code b (fst (f w))))"

lemma answeringD:
  "answering codes f \<Longrightarrow> fst (snd (f w)) = None \<and> (\<exists>code b. code \<in> codes \<and> one_status code b (fst (f w)))"
  by (simp add: answering_def) blast

lemma answering_respond [intro]: "one_status code b cs \<Longrightarrow> code \<in> codes \<Longrightarrow> answering codes (respond cs)"
  by (auto simp: answering_def respond_def)

lemma answering_perform [intro]: "(\<And>res. answering codes (k res)) \<Longrightarrow> answering codes (perform m k)"
  by (auto simp: answering_def perform_def split: prod.splits)

lemma one_status_http_Error [simp]: "one_status c b (http_Error msg code) \<longleftrightarrow> c = code \<and> b = msg @ [CHR 0x0A]"
  by (auto simp: http_Error_def append_eq_conv_conj)

lemma one_status_json [simp]:
  "one_status c b (json_response code v) \<longleftrightarrow> c = code \<and> b = (case encoded v of None \<Rightarrow> '''' | Some x \<Rightarrow> x)"
  by (auto simp: json_response_def append_eq_conv_conj split: option.splits)

lemma answering_error: "code \<in> codes \<Longrightarrow> answering codes (respond (http_Error msg code))"
  by (rule answering_respond [of code "msg @ [CHR 0x0A]"]) simp_all

lemma answering_json: "code \<in> codes \<Longrightarrow> answering codes (respond (json_response code v))"
  by (rule answering_respond) simp_all

abbreviation transfer_error_codes :: "int set" where
  "transfer_error_codes \<equiv> {400, 404, 409, 422}"

abbreviation auth_error_codes :: "int set" where
  "auth_error_codes \<equiv> {401, 403, 404, 409, 422}"

lemma answering_transfer_error: "transfer_error_codes \<subseteq> codes \<Longrightarrow> answering codes (respond (writeTransferError E err))"
  unfolding writeTransferError_def by (rule answering_error) auto

lemma answering_auth_error: "auth_error_codes \<subseteq> codes \<Longrightarrow> answering codes (respond (writeAuthError E err))"
  unfolding writeAuthError_def by (rule answering_error) auto

lemmas answering_intros = answering_error answering_json answering_transfer_error answering_auth_error answering_perform

text \<open>The statuses the program's own code answers with.\<close>

definition api_codes :: "int set" where
  "api_codes = {200, 201, 204, 400, 401, 403, 404, 409, 422, 500}"

lemma entry_inputs_answer: "entry_inputs E es = Inl cs \<Longrightarrow> \<exists>msg. cs = http_Error msg 400"
  by (induction es) (auto split: option.splits sum.splits)

lemma mutating_handlers_answer:
  "answering {201, 400, 404, 409, 422, 500} (createAccountHandler E svc r)"
  "answering {201, 400, 404, 409, 422, 500} (transferHandler E svc r)"
  "answering {201, 400, 404, 409, 422, 500} (createPendingTransactionHandler E svc r)"
  "answering {200, 400, 404, 409, 422, 500} (postPendingTransactionHandler E svc r)"
  "answering {200, 400, 404, 409, 422, 500} (failPendingTransactionHandler E svc r)"
  unfolding createAccountHandler_def transferHandler_def createPendingTransactionHandler_def
    postPendingTransactionHandler_def failPendingTransactionHandler_def no_tenant_def invalid_JSON_def
  by (auto split: option.splits sum.splits dest!: entry_inputs_answer intro!: answering_intros)

lemma other_handlers_answer:
  "answering api_codes (registerHandler E asvc r)" "answering api_codes (loginHandler E asvc r)"
  "answering api_codes (refreshHandler E asvc r)" "answering api_codes (logoutHandler E asvc r)"
  "answering api_codes (getAccountHandler E r)" "answering api_codes (getTransactionHandler E r)"
  "answering api_codes (auditLogHandler E r)"
proof -
  have no_content: "answering api_codes (respond [WriteHeader 204])"
    by (rule answering_respond [of 204 "''''"]) (simp_all add: api_codes_def)
  show "answering api_codes (registerHandler E asvc r)" "answering api_codes (loginHandler E asvc r)"
    "answering api_codes (refreshHandler E asvc r)" "answering api_codes (logoutHandler E asvc r)"
    "answering api_codes (getAccountHandler E r)" "answering api_codes (getTransactionHandler E r)"
    "answering api_codes (auditLogHandler E r)"
    unfolding registerHandler_def loginHandler_def refreshHandler_def logoutHandler_def getAccountHandler_def
      getTransactionHandler_def auditLogHandler_def writeAuthResult_def no_tenant_def invalid_JSON_def Let_def
    using no_content
    by (auto split: option.splits sum.splits intro!: answering_intros) (auto simp: api_codes_def)
qed

text \<open>Behind the idempotency middleware a status is the handler's own or one stored with a key.\<close>

definition answered :: "int set \<Rightarrow> http_Handler \<Rightarrow> Request \<Rightarrow> world \<Rightarrow> bool" where
  "answered codes h r w \<longleftrightarrow>
     fst (snd (h r w)) = None \<and>
     (\<exists>code b. one_status code b (fst (h r w)) \<and>
        (code \<in> codes \<or> (\<exists>x \<in> set (idempotency_keys (db w)). rec_ResponseCode x = Some code)))"

lemma answered_plain: "answering codes (h r) \<Longrightarrow> answered codes h r w"
  using answeringD [of codes "h r" w] by (auto simp: answered_def)

lemma handleExisting_answer:
  "\<exists>code b. one_status code b (handleExisting x h) \<and> (code \<in> {200, 409, 422} \<or> rec_ResponseCode x = Some code)"
proof -
  let ?err = "\<lambda>e. Error (\<lambda>_. '''') e @ [CHR 0x0A]"
  consider "rec_RequestHash x \<noteq> h" | "rec_RequestHash x = h" "rec_Status x = IdemProcessing"
    | "rec_RequestHash x = h" "rec_Status x \<noteq> IdemProcessing" by blast
  then show ?thesis
  proof cases
    case 1
    then show ?thesis by (intro exI [of _ 422] exI [of _ "?err ErrKeyReused"]) (simp add: handleExisting_def)
  next
    case 2
    then show ?thesis by (intro exI [of _ 409] exI [of _ "?err ErrInFlight"]) (simp add: handleExisting_def)
  next
    case 3
    then show ?thesis
      by (intro exI [of _ "case rec_ResponseCode x of None \<Rightarrow> 200 | Some c \<Rightarrow> c"] exI [of _ "body_of x"])
        (auto simp: handleExisting_def body_of_def split: option.splits)
  qed
qed

lemma idempotent_answered:
  assumes "answering codes (h r)" and "{200, 400, 409, 422, 500} \<subseteq> codes"
  shows "answered codes (idempotent E h) r w"
proof -
  let ?key = "header_Get (rq_Header r) HeaderKey"
  have err: "one_status code (msg @ [CHR 0x0A]) (http_Error msg code)" for code msg by simp
  show ?thesis
  proof (cases "?key = '''' \<or> rq_TenantID r = None \<or> rq_Body r = None")
    case True
    then show ?thesis using assms(2)
      by (auto simp: answered_def idempotent_def idempotency_Middleware_def respond_def Let_def split: option.splits)
  next
    case False
    then obtain tn body where tn: "rq_TenantID r = Some tn" and body: "rq_Body r = Some body" by auto
    let ?hash = "requestHash (rq_Method r) (rq_Path r) body"
    obtain res w1 where claim: "ClaimOrGet E tn ?key ?hash DefaultProcessingLease w = (res, w1)" by fastforce
    note run = False tn body claim
    consider (err) e where "res = Inl e" | (own) x where "res = Inr (x, True)" | (old) x where "res = Inr (x, False)"
      by (metis (full_types) old.prod.exhaust sum.exhaust)
    then show ?thesis
    proof cases
      case err
      with run assms(2) show ?thesis
        by (auto simp: answered_def idempotent_def idempotency_Middleware_def perform_def respond_def IdemRepository_def Let_def)
    next
      case (own x)
      obtain code b where "fst (snd (h r w1)) = None" "code \<in> codes" "one_status code b (fst (h r w1))"
        using answeringD [OF assms(1), of w1] by blast
      with run own show ?thesis
        by (auto simp: answered_def idempotent_def idempotency_Middleware_def perform_def IdemRepository_def Let_def
            run_claimed_def split: prod.splits option.splits intro!: exI [of _ code])
    next
      case (old x)
      then have "record_of (db w) tn ?key = Some x"
        using pg_store.claim_loses [of E tn ?key ?hash DefaultProcessingLease w x w1] claim by simp
      then have "x \<in> set (idempotency_keys (db w))" by (auto simp: record_of_def dest: find_SomeD)
      with run old assms(2) handleExisting_answer [of x ?hash] show ?thesis
        by (auto simp: answered_def idempotent_def idempotency_Middleware_def perform_def respond_def IdemRepository_def Let_def)
    qed
  qed
qed

lemma authenticated_answered:
  assumes "\<And>r w. answered codes h r w" and "{401, 403, 500} \<subseteq> codes"
  shows "answered codes (authenticated E s permission h) r w"
  using authenticated_cases [of E s permission r w h]
proof (elim disjE exE conjE)
  assume "\<forall>h'. refused {401, 403, 500} (authenticated E s permission h' r w) w \<and>
    authenticated E s permission h' r w = authenticated E s permission h r w"
  then have "refused {401, 403, 500} (authenticated E s permission h r w) w" by blast
  with assms(2) show ?thesis by (auto simp: refused_def answered_def)
next
  fix t claims w1
  assume "db w1 = db w" and "\<forall>h'. authenticated E s permission h' r w = h' (WithClaims (WithTenantID r t) claims) w1"
  with assms(1) [of "WithClaims (WithTenantID r t) claims" w1] show ?thesis by (simp add: answered_def)
qed

lemma requireTenantAPIKey_answers:
  "(\<And>r. answering codes (h r)) \<Longrightarrow> 401 \<in> codes \<Longrightarrow> answering codes (requireTenantAPIKey E h r)"
  by (auto simp: requireTenantAPIKey_def Let_def split: sum.splits intro!: answering_intros)

lemma answering_weaken: "answering A f \<Longrightarrow> A \<subseteq> B \<Longrightarrow> answering B f"
  unfolding answering_def by blast

lemma writing_answered:
  assumes "answering codes (h r)" and "codes \<subseteq> api_codes"
  shows "answered api_codes (idempotent E h) r w"
  using answering_weaken [OF assms] by (intro idempotent_answered) (auto simp: api_codes_def)

lemma v1_answered:
  "list_all (\<lambda>(k, h). answered api_codes h r w) (v1_routes E asvc lsvc)"
  unfolding v1_routes_def
  by (simp add: other_handlers_answer requireTenantAPIKey_answers answered_plain authenticated_answered api_codes_def
      writing_answered [OF mutating_handlers_answer(1), unfolded api_codes_def]
      writing_answered [OF mutating_handlers_answer(2), unfolded api_codes_def]
      writing_answered [OF mutating_handlers_answer(3), unfolded api_codes_def]
      writing_answered [OF mutating_handlers_answer(4), unfolded api_codes_def]
      writing_answered [OF mutating_handlers_answer(5), unfolded api_codes_def]
      other_handlers_answer [unfolded api_codes_def])


section \<open>The status that is recorded\<close>

lemma status_kept: "only_writes b cs \<Longrightarrow> sr_wroteHead r \<Longrightarrow> fold statusRecorder_call cs r = r"
  by (induction b cs arbitrary: r rule: only_writes.induct) simp_all

lemma recorded_status_one: "one_status code b cs \<Longrightarrow> recorded_status cs = code"
  unfolding recorded_status_def
  by (induction code b cs rule: one_status.induct) (simp_all add: status_kept)

lemma client_status_kept:
  "rs_status s = Some c \<Longrightarrow> rs_status (fold on_call cs s) = Some c"
proof (induction cs arbitrary: s)
  case (Cons x cs)
  then have "rs_status (on_call x s) = Some c" by (cases x) (auto simp: send_header_def Let_def)
  with Cons show ?case by simp
qed simp

lemma client_status_one:
  assumes "one_status code b cs" and "\<not> informational code"
  shows "fst (client_view cs) = code"
proof -
  have "rs_status (fold on_call cs s) = Some code" if "rs_status s = None" for s
    using assms that
    by (induction code b cs arbitrary: s rule: one_status.induct)
      (auto simp: send_header_def intro!: client_status_kept)
  then show ?thesis by (simp add: client_view_def fresh_response_def Let_def)
qed

text \<open>
  The calls of a handler that panics or is late are followed by those of the recovery or of chi's
  \<open>Timeout\<close>: the recorder then has the last status, the client the first.
\<close>

lemma recorded_status_last: "recorded_status (cs @ [WriteHeader code]) = code"
  by (simp add: recorded_status_def)

lemma recorder_can_disagree:
  "recorded_status ([WriteHeader 201, Write ''ok''] @ internal_error) = 500 \<and>
   fst (client_view ([WriteHeader 201, Write ''ok''] @ internal_error)) = 201"
  by (simp add: recorded_status_def internal_error_def client_view_def fresh_response_def send_header_def informational_def
      bodyAllowed_def Let_def)

lemma route_v1:
  assumes "map_of (v1_routes E asvc lsvc) (rq_Method r, rq_Route r) = Some h"
  shows "route E lib asvc lsvc r = h r" and "routePattern r = rq_Route r"
proof -
  have "(rq_Method r, rq_Route r) \<in> fst ` set (v1_routes E asvc lsvc)"
    using map_of_SomeD [OF assms] by force
  then have "rq_Route r \<in> snd ` fst ` set (v1_routes E asvc lsvc)" by force
  then have "take 4 (rq_Route r) = ''/v1/''" by (auto simp: v1_routes_def)
  then have "rq_Route r \<noteq> ''/metrics''" "rq_Route r \<noteq> ''/healthz''" "rq_Route r \<noteq> ''''" by auto
  with assms show "route E lib asvc lsvc r = h r" "routePattern r = rq_Route r"
    by (simp_all add: route_def routePattern_def)
qed

text \<open>The middleware around the router, on a handler that returned or panicked.\<close>

lemma stack_returns:
  assumes "nxt r (step (step w)) = (calls, None, w1)"
  shows "\<exists>w' d. logging_Middleware E (metrics_Middleware E (recovery_Middleware E nxt)) r w = (calls, None, w') \<and>
    db w' = db w1 \<and> logs w' = logs w1 @ [request_line r (recorded_status calls) d] \<and>
    counters w' (HTTPRequestsTotal (rq_Method r) (routePattern r) (FormatInt (recorded_status calls))) =
      Suc (counters w1 (HTTPRequestsTotal (rq_Method r) (routePattern r) (FormatInt (recorded_status calls))))"
  using assms
  by (auto simp: logging_Middleware_def metrics_Middleware_def recovery_Middleware_def log_to_def inc_metric_def)

text \<open>
  C19. The status in the log line and in the request counter is the status the client got: for every request
  to a route of the API that is not late, as long as no informational status is stored with a key.
\<close>

theorem recorded_status_is_the_one_sent:
  assumes "map_of (v1_routes E asvc lsvc) (rq_Method r, rq_Route r) = Some h"
    and "timeout_lawful (chi_Timeout lib)"
    and "h r (step (step w)) = (calls, p, w1)"
    and "fst (chi_Timeout lib (route E lib asvc lsvc) r (step (step w))) = calls"
    and "\<forall>x \<in> set (idempotency_keys (db w)). \<forall>c. rec_ResponseCode x = Some c \<longrightarrow> \<not> informational c"
  shows "\<exists>w' d. server E lib asvc lsvc r w = (calls, None, w') \<and>
    logs w' = logs w1 @ [request_line r (fst (client_view calls)) d] \<and>
    counters w' (HTTPRequestsTotal (rq_Method r) (rq_Route r) (FormatInt (fst (client_view calls)))) =
      Suc (counters w1 (HTTPRequestsTotal (rq_Method r) (rq_Route r) (FormatInt (fst (client_view calls)))))"
proof -
  have "answered api_codes h r (step (step w))"
    using v1_answered [of r "step (step w)" E asvc lsvc] map_of_SomeD [OF assms(1)] by (auto simp: list_all_iff)
  then obtain code b where p: "p = None" and one: "one_status code b calls"
    and code: "code \<in> api_codes \<or> (\<exists>x \<in> set (idempotency_keys (db w)). rec_ResponseCode x = Some code)"
    using assms(3) by (auto simp: answered_def)
  have "\<not> informational code" using code assms(5) by (auto simp: api_codes_def informational_def)
  then have same: "recorded_status calls = fst (client_view calls)"
    using recorded_status_one [OF one] client_status_one [OF one] by simp
  have "snd (chi_Timeout lib (route E lib asvc lsvc) r (step (step w))) = (None, w1)"
    using assms(2,3) p unfolding timeout_lawful_def route_v1(1) [OF assms(1), of lib] by (metis snd_conv route_v1(1) [OF assms(1)])
  then have "chi_Timeout lib (route E lib asvc lsvc) r (step (step w)) = (calls, None, w1)"
    using assms(4) by (metis prod.collapse)
  from stack_returns [where E = E and nxt = "chi_Timeout lib (route E lib asvc lsvc)" and r = r and w = w, OF this] show ?thesis
    by (auto simp: server_def same route_v1(2) [OF assms(1)])
qed

section \<open>Disabled users\<close>

text \<open>
  \<open>Login\<close> and \<open>Refresh\<close> look at a user's status, the permission check does not: what a token admits is the
  same after its user has been disabled.
\<close>

lemma permissions_ignore_status:
  "select_permissions t u (d\<lparr>users := map (\<lambda>x. x\<lparr>usr_Status := st\<rparr>) (users d)\<rparr>) = select_permissions t u d"
  by (simp add: select_permissions_def o_def cong: if_cong)

lemma disabled_user_stays_admitted:
  "admitted E s permission r (w\<lparr>db := (db w)\<lparr>users := map (\<lambda>x. x\<lparr>usr_Status := UserStatusDisabled\<rparr>) (users (db w))\<rparr>\<rparr>) t =
   admitted E s permission r w t"
proof -
  have "fst (ValidateAccessToken E s tok (w\<lparr>db := d\<rparr>)) = fst (ValidateAccessToken E s tok w)" for tok d
    by (simp add: ValidateAccessToken_def split: sum.splits prod.splits)
  then have "(\<exists>w1. ValidateAccessToken E s tok (w\<lparr>db := d\<rparr>) = (Inr claims, w1)) =
      (\<exists>w1. ValidateAccessToken E s tok w = (Inr claims, w1))" for tok d claims
    by (metis fst_conv prod.collapse)
  then show ?thesis by (auto simp: admitted_def permissions_ignore_status)
qed

section \<open>Panics\<close>

lemma nothing_sent:
  "rs_status (fold on_call cs s) = None \<Longrightarrow> rs_status s = None \<and> rs_body (fold on_call cs s) = rs_body s"
proof (induction cs arbitrary: s)
  case (Cons x cs)
  from Cons.prems have "rs_status (on_call x s) = None \<and> rs_body (fold on_call (x # cs) s) = rs_body (on_call x s)"
    using Cons.IH [of "on_call x s"] by simp
  then show ?case by (cases x) (auto simp: send_header_def Let_def informational_def split: if_splits)
qed simp

definition error_body :: string where
  "error_body = CHR 0x7B # ''\"error\":\"internal server error\"'' @ [CHR 0x7D]"

lemma internal_error_view:
  assumes "rs_status (fold on_call cs fresh_response) = None"
  shows "\<exists>h. client_view (cs @ internal_error) = (500, h, error_body) \<and> map_of h ''Content-Type'' = Some ''application/json''"
  using assms nothing_sent [of cs fresh_response]
  by (simp add: client_view_def internal_error_def error_body_def send_header_def informational_def bodyAllowed_def
      Let_def update_conv' fresh_response_def)

text \<open>
  C20. A panic is answered, logged and counted. When the handler panics, the middleware around it returns:
  the log gets the panic and then the request with status 500, the counter for 500 goes up by one, the
  database is as the handler left it, and the client gets a 500 with a JSON body if the handler had sent
  nothing. Only \<open>http.ErrAbortHandler\<close> goes on to the server, unlogged and uncounted.
\<close>

theorem panic_is_answered_logged_and_counted:
  assumes "nxt r (step (step w)) = (calls, Some pn, w1)"
  shows "case pn of
      ErrAbortHandler \<Rightarrow> logging_Middleware E (metrics_Middleware E (recovery_Middleware E nxt)) r w = (calls, Some pn, w1)
    | Panic v \<Rightarrow> \<exists>w' d. logging_Middleware E (metrics_Middleware E (recovery_Middleware E nxt)) r w =
          (calls @ internal_error, None, w') \<and> db w' = db w1 \<and>
        logs w' = logs w1 @ [panic_line E r v (tick w1), request_line r 500 d] \<and>
        counters w' (HTTPRequestsTotal (rq_Method r) (routePattern r) ''500'') =
          Suc (counters w1 (HTTPRequestsTotal (rq_Method r) (routePattern r) ''500'')) \<and>
        (rs_status (fold on_call calls fresh_response) = None \<longrightarrow>
          (\<exists>h. client_view (calls @ internal_error) = (500, h, error_body) \<and>
             map_of h ''Content-Type'' = Some ''application/json''))"
proof (cases pn)
  case ErrAbortHandler
  with assms show ?thesis by (simp add: logging_Middleware_def metrics_Middleware_def recovery_Middleware_def)
next
  case (Panic v)
  have "recorded_status (calls @ internal_error) = 500" by (simp add: recorded_status_def internal_error_def)
  moreover have "FormatInt 500 = ''500''" by code_simp
  ultimately show ?thesis
    using assms Panic internal_error_view [of calls]
    by (auto simp: logging_Middleware_def metrics_Middleware_def recovery_Middleware_def log_to_def inc_metric_def)
qed

section \<open>What an answer says about the ledger\<close>

text \<open>The transfer a request body asks for: its entries, when it decodes and every account is an identifier.\<close>

definition requested_entries :: "env \<Rightarrow> Request \<Rightarrow> EntryInput list option" where
  "requested_entries E r =
     (case json_Decode transferRequest_fields \<lparr>tfr_Entries = ([], 0)\<rparr> (rq_Body r) of
        None \<Rightarrow> None
      | Some req \<Rightarrow> (case entry_inputs E (slice_elems (tfr_Entries req)) of Inl _ \<Rightarrow> None | Inr es \<Rightarrow> Some es))"

lemma client_status_error: "\<not> informational code \<Longrightarrow> fst (client_view (http_Error msg code)) = code"
  by (rule client_status_one [of code "msg @ [CHR 0x0A]"]) simp_all

lemma client_view_json:
  assumes "bodyAllowed code"
  shows "\<exists>h. client_view (json_response code v) = (code, h, case encoded v of None \<Rightarrow> '''' | Some b \<Rightarrow> b)"
  by (rule client_view_one_status [OF _ assms]) simp

lemma lost_commit_is_422:
  "fst (client_view (writeTransferError E (Errorf msg (Pg Unavailable) ''''))) = 422"
  by (simp add: writeTransferError_def client_status_error informational_def ErrInsufficientFunds_def
      ErrTransactionNotPending_def ErrStatusConflict_def ErrAccountNotFound_def ErrTransactionNotFound_def
      ErrUnbalancedEntries_def ErrEmptyEntries_def ErrZeroAmountEntry_def)

lemma transferResponse_encoded:
  "encoded (transferResponse E txn) = Some (json_Marshal (transferResponse E txn) @ [CHR 0x0A])"
  by (simp add: encoded_def transferResponse_def)

text \<open>
  C9. The answer to a transfer can be trusted. A 201 means that exactly the requested entries were posted, for
  the caller's tenant, as the transaction the body names; any other answer but a 422 means that the
  database is as it was; and a 422, which is what a failing database gives, means one of the two.
\<close>

theorem transfer_answers_truthfully:
  assumes "transferHandler E (ledgerSvc E repo) r w = (calls, p, w')" and "rq_TenantID r = Some t"
  shows "case client_view calls of (code, h, body) \<Rightarrow>
    (\<exists>es txn rows. (code = 201 \<or> code = 422) \<and> requested_entries E r = Some es \<and>
       inserted t TxnPosted es txn rows (db w) (db w') \<and>
       (code = 201 \<longrightarrow> body = json_Marshal (transferResponse E txn) @ [CHR 0x0A])) \<or>
    (code \<noteq> 201 \<and> db w' = db w)"
proof (cases "requested_entries E r")
  case None
  with assms have "db w' = db w \<and> (\<exists>msg. calls = http_Error msg 400)"
    by (auto simp: transferHandler_def requested_entries_def FromContext_def respond_def invalid_JSON_def
        split: option.splits sum.splits dest!: entry_inputs_answer)
  then have "db w' = db w \<and> fst (client_view calls) = 400" using client_status_error by (auto simp: informational_def)
  then show ?thesis by (auto split: prod.splits)
next
  case (Some es)
  let ?req = "\<lparr>tr_TenantID = t, tr_Entries = es, tr_ActorID = actorIDFromContext r\<rparr>"
  obtain res w1 where run: "ExecuteTransfer E (ledgerSvc E repo) ?req w = (res, w1)" by fastforce
  with assms Some have out: "w' = w1"
      "calls = (case res of Inl err \<Rightarrow> writeTransferError E err | Inr (txn, _) \<Rightarrow> json_response 201 (transferResponse E txn))"
    by (auto simp: transferHandler_def requested_entries_def FromContext_def respond_def perform_def
        split: option.splits sum.splits)
  have effect: "outcome_of ''ledger: commit transfer: '' res (db w) (db w') (\<lambda>(txn, rows). inserted t TxnPosted es txn rows (db w) (db w'))"
    using prod.ExecuteTransfer_outcome [OF run] out(1) by (auto simp: outcome_of_def)
  have not201: "fst (client_view (writeTransferError E err)) \<noteq> 201" for err
    unfolding writeTransferError_def by (subst client_status_error) (simp_all add: informational_def)
  from effect consider (no) err where "res = Inl err" "db w' = db w"
    | (yes) txn rows where "res = Inr (txn, rows)" "inserted t TxnPosted es txn rows (db w) (db w')"
    | (lost) txn rows where "res = Inl (Errorf ''ledger: commit transfer: '' (Pg Unavailable) '''')"
        "inserted t TxnPosted es txn rows (db w) (db w')"
    by (auto simp: outcome_of_def)
  then show ?thesis
  proof cases
    case no
    with out not201 [of err] show ?thesis by (auto split: prod.splits)
  next
    case yes
    obtain h where "client_view calls = (201, h, json_Marshal (transferResponse E txn) @ [CHR 0x0A])"
      using client_view_json [of 201 "transferResponse E txn"] yes(1) out(2)
      by (auto simp: bodyAllowed_def transferResponse_encoded)
    with yes Some show ?thesis by auto
  next
    case lost
    with out lost_commit_is_422 [of E "''ledger: commit transfer: ''"] Some show ?thesis by (auto split: prod.splits)
  qed
qed

section \<open>What a client writes\<close>

text \<open>The body of a transfer, as a client using \<open>encoding/json\<close> writes it.\<close>

definition entry_document :: "env \<Rightarrow> EntryInput \<Rightarrow> json" where
  "entry_document E e = JStruct [(''account_id'', JStr (uuid_String E (ei_AccountID e))),
     (''amount_minor'', JInt (sint (ei_AmountMinor e)))]"

definition transfer_document :: "env \<Rightarrow> EntryInput list \<Rightarrow> json" where
  "transfer_document E es = JStruct [(''entries'', JArr (map (entry_document E) es))]"

definition named :: "env \<Rightarrow> EntryInput \<Rightarrow> bool" where
  "named E e \<longleftrightarrow> ascii (uuid_String E (ei_AccountID e)) \<and> uuid_Parse E (uuid_String E (ei_AccountID e)) = Some (ei_AccountID e)"

definition entry_request :: "env \<Rightarrow> EntryInput \<Rightarrow> transferEntryRequest" where
  "entry_request E e = \<lparr>ter_AccountID = uuid_String E (ei_AccountID e), ter_AmountMinor = sint (ei_AmountMinor e)\<rparr>"

lemma field_names:
  "foldName ''entries'' = ''ENTRIES''" "foldName ''account_id'' = ''ACCOUNT_ID''"
  "foldName ''amount_minor'' = ''AMOUNT_MINOR''"
  by code_simp+

lemma decode_entry:
  "decode_struct transferEntryRequest_fields (value_of (entry_document E e)) \<lparr>ter_AccountID = '''', ter_AmountMinor = 0\<rparr> =
   Some (entry_request E e)"
  by (simp add: decode_struct_def entry_document_def transferEntryRequest_fields_def string_field_def int64_field_def
      field_names ParseInt_FormatInt entry_request_def)

lemma decode_entries:
  "decode_elems transferEntryRequest_fields \<lparr>ter_AccountID = '''', ter_AmountMinor = 0\<rparr>
     (map (\<lambda>e. value_of (entry_document E e)) es) [] = Some (map (entry_request E) es)"
  by (induction es) (simp_all add: decode_entry)

lemma transfer_document_plain: "list_all (named E) es \<Longrightarrow> plain (transfer_document E es)"
proof -
  have "ascii ''entries''" "ascii ''account_id''" "ascii ''amount_minor''" by code_simp+
  then show "list_all (named E) es \<Longrightarrow> plain (transfer_document E es)"
    by (simp add: transfer_document_def entry_document_def list_all_iff named_def)
qed

lemma transfer_document_depth: "depth (transfer_document E es) \<le> 3"
proof -
  have "fold max (map (\<lambda>e. depth (entry_document E e)) es) m \<le> max m 1" for m
  proof (induction es arbitrary: m)
    case (Cons e es)
    from Cons.IH [of "max (depth (entry_document E e)) m"] show ?case by (simp add: entry_document_def)
  qed simp
  from this [of 0] show ?thesis by (simp add: transfer_document_def o_def)
qed

lemma transfer_decodes:
  assumes "list_all (named E) es"
  shows "map_option (\<lambda>req. slice_elems (tfr_Entries req))
      (json_Decode transferRequest_fields \<lparr>tfr_Entries = ([], 0)\<rparr> (Some (json_Marshal (transfer_document E es) @ t))) =
    Some (map (entry_request E) es)"
proof -
  have "depth (transfer_document E es) \<le> maxNestingDepth"
    using transfer_document_depth [of E es] by (simp add: maxNestingDepth_def)
  then have "json_value (json_Marshal (transfer_document E es) @ t) = Some (value_of (transfer_document E es), t)"
    using json_value_Marshal transfer_document_plain [OF assms] by (simp only: transfer_document_def)
  then show ?thesis
    by (auto simp: json_Decode_def transfer_document_def decode_struct_def transferRequest_fields_def field_names
        decode_slice_def slice_elems_def o_def decode_entries)
qed

lemma entry_inputs_named: "list_all (named E) es \<Longrightarrow> entry_inputs E (map (entry_request E) es) = Inr es"
  by (induction es) (simp_all add: named_def entry_request_def)

definition transfer_answer :: "env \<Rightarrow> error + (Transaction \<times> Entry list) \<Rightarrow> world \<Rightarrow> served" where
  "transfer_answer E res = respond (case res of Inl err \<Rightarrow> writeTransferError E err
     | Inr (txn, _) \<Rightarrow> json_response 201 (transferResponse E txn))"

lemma transfer_read_back:
  assumes "rq_TenantID r = Some t" and "rq_Body r = Some (json_Marshal (transfer_document E es) @ rest)"
    and "list_all (named E) es"
  defines "req \<equiv> \<lparr>tr_TenantID = t, tr_Entries = es, tr_ActorID = actorIDFromContext r\<rparr>"
  shows "transferHandler E svc r = perform (ExecuteTransfer E svc req) (transfer_answer E) \<and>
    createPendingTransactionHandler E svc r = perform (CreatePendingTransaction E svc req) (transfer_answer E)"
proof -
  obtain req' where "json_Decode transferRequest_fields \<lparr>tfr_Entries = ([], 0)\<rparr> (rq_Body r) = Some req'"
    "entry_inputs E (slice_elems (tfr_Entries req')) = Inr es"
    using transfer_decodes [OF assms(3), of rest] entry_inputs_named [OF assms(3)] assms(2) by auto
  moreover have "(\<lambda>res. case res of Inl err \<Rightarrow> respond (writeTransferError E err)
      | Inr (txn, x) \<Rightarrow> respond (json_response 201 (transferResponse E txn))) = transfer_answer E"
    by (auto simp: transfer_answer_def split: sum.splits)
  ultimately show ?thesis
    using assms(1) by (simp add: transferHandler_def createPendingTransactionHandler_def FromContext_def req_def)
qed
text \<open>
  C17. A transfer reaches the ledger as the client wrote it. A body that \<open>encoding/json\<close> wrote, for any
  entries whose identifiers the client spells as \<open>uuid\<close> does, with anything behind it, makes the two
  transfer handlers call the ledger with exactly these entries, for the caller's tenant and in its name.
\<close>

theorem transfer_request_is_read_back:
  assumes "rq_TenantID r = Some t" and "rq_Body r = Some (json_Marshal (transfer_document E es) @ rest)"
    and "\<And>e. e \<in> set es \<Longrightarrow> named E e"
  defines "req \<equiv> \<lparr>tr_TenantID = t, tr_Entries = es, tr_ActorID = actorIDFromContext r\<rparr>"
  shows "transferHandler E svc r = perform (ExecuteTransfer E svc req) (transfer_answer E) \<and>
    createPendingTransactionHandler E svc r = perform (CreatePendingTransaction E svc req) (transfer_answer E)"
  unfolding req_def by (rule transfer_read_back [OF assms(1,2)]) (simp add: list_all_iff assms(3))

section \<open>Retried requests\<close>





end
