(* ===== verification/Migrations.thy ===== *)
theory Migrations
  imports Auth
begin

text \<open>
  The rows the migrations insert: the starter roles and permissions of \<open>000003_users_auth.up.sql\<close> and
  \<open>000006_audit_read_permission.up.sql\<close>, and what a user with a starter role may do. The identifiers come
  from \<open>gen_random_uuid()\<close> and are parameters; the other migrations insert nothing.
\<close>

section \<open>The inserts\<close>

definition insert_roles :: "(nat \<Rightarrow> uuid) \<Rightarrow> instant \<Rightarrow> (string \<times> string) list \<Rightarrow> tables \<Rightarrow> tables" where
  "insert_roles ids now vs d = d\<lparr>roles := roles d @ map (\<lambda>(i, name, descr).
     \<lparr>role_ID = ids i, role_Name = name, role_Description = Some descr, role_CreatedAt = now\<rparr>) (List.enumerate 0 vs)\<rparr>"

definition insert_permissions :: "(nat \<Rightarrow> uuid) \<Rightarrow> instant \<Rightarrow> (string \<times> string) list \<Rightarrow> tables \<Rightarrow> tables" where
  "insert_permissions ids now vs d = d\<lparr>permissions := permissions d @ map (\<lambda>(i, name, descr).
     \<lparr>perm_ID = ids i, perm_Name = name, perm_Description = Some descr, perm_CreatedAt = now\<rparr>) (List.enumerate 0 vs)\<rparr>"

text \<open>\<open>INSERT INTO role_permissions SELECT r.id, p.id FROM roles r, permissions p WHERE\<close> \<open>cond\<close>.\<close>

definition grant :: "(string \<Rightarrow> string \<Rightarrow> bool) \<Rightarrow> tables \<Rightarrow> tables" where
  "grant cond d = d\<lparr>role_permissions := role_permissions d @
     [(role_ID r, perm_ID p). r \<leftarrow> roles d, p \<leftarrow> permissions d, cond (role_Name r) (perm_Name p)]\<rparr>"

definition users_auth_up :: "(nat \<Rightarrow> uuid) \<Rightarrow> (nat \<Rightarrow> uuid) \<Rightarrow> instant \<Rightarrow> tables \<Rightarrow> tables" where
  "users_auth_up rids pids now d =
     grant (\<lambda>r p. r = ''admin'' \<or>
         (r = ''service'' \<and> p \<in> {''transactions:read'', ''transactions:write'', ''accounts:read'', ''accounts:write''}) \<or>
         (r = ''viewer'' \<and> p \<in> {''transactions:read'', ''accounts:read''}))
       (insert_permissions pids now
          [(''transactions:read'', ''View transactions and entries''),
           (''transactions:write'', ''Execute transfers and post/fail transactions''),
           (''accounts:read'', ''View accounts and balances''),
           (''accounts:write'', ''Create accounts''),
           (''users:manage'', ''Create, disable, and manage users within the tenant'')]
         (insert_roles rids now
            [(''admin'', ''Full access within the tenant, including user management''),
             (''service'', ''Programmatic access to transaction/account operations''),
             (''viewer'', ''Read-only access within the tenant'')] d))"

definition audit_read_permission_up :: "(nat \<Rightarrow> uuid) \<Rightarrow> instant \<Rightarrow> tables \<Rightarrow> tables" where
  "audit_read_permission_up pids now d =
     grant (\<lambda>r p. r = ''admin'' \<and> p = ''audit:read'')
       (insert_permissions pids now [(''audit:read'', ''View the tenant's audit trail'')] d)"

section \<open>A migrated database\<close>

definition migrated :: "(nat \<Rightarrow> uuid) \<Rightarrow> (nat \<Rightarrow> uuid) \<Rightarrow> instant \<Rightarrow> tables" where
  "migrated rids pids now = audit_read_permission_up (\<lambda>i. pids (5 + i)) now (users_auth_up rids pids now empty_tables)"

text \<open>
  \<open>seeded d\<close>: the three tables hold what the migrations left there, with distinct identifiers, as their
  primary keys demand. No statement of the program writes to them.
\<close>

definition seeded :: "tables \<Rightarrow> bool" where
  "seeded d \<longleftrightarrow> (\<exists>rids pids now. distinct (map rids [0..<3]) \<and> distinct (map pids [0..<6]) \<and>
     roles d = roles (migrated rids pids now) \<and> permissions d = permissions (migrated rids pids now) \<and>
     role_permissions d = role_permissions (migrated rids pids now))"

text \<open>The table of \<open>docs/API.md\<close>, by role.\<close>

definition documented :: "string \<Rightarrow> string set" where
  "documented role =
     (if role = ''admin'' then {''accounts:read'', ''accounts:write'', ''transactions:read'', ''transactions:write'',
         ''audit:read'', ''users:manage''}
      else if role = ''service'' then {''accounts:read'', ''accounts:write'', ''transactions:read'', ''transactions:write''}
      else if role = ''viewer'' then {''accounts:read'', ''transactions:read''} else {})"

lemmas seed_simps = insert_roles_def insert_permissions_def grant_def users_auth_up_def audit_read_permission_up_def
  migrated_def empty_tables_def

lemma migrated_tables:
  "map (\<lambda>r. (role_ID r, role_Name r)) (roles (migrated rids pids now)) =
     [(rids 0, ''admin''), (rids 1, ''service''), (rids 2, ''viewer'')]"
  "map (\<lambda>p. (perm_ID p, perm_Name p)) (permissions (migrated rids pids now)) =
     [(pids 0, ''transactions:read''), (pids 1, ''transactions:write''), (pids 2, ''accounts:read''),
      (pids 3, ''accounts:write''), (pids 4, ''users:manage''), (pids 5, ''audit:read'')]"
  "role_permissions (migrated rids pids now) =
     [(rids 0, pids 0), (rids 0, pids 1), (rids 0, pids 2), (rids 0, pids 3), (rids 0, pids 4),
      (rids 1, pids 0), (rids 1, pids 1), (rids 1, pids 2), (rids 1, pids 3), (rids 2, pids 0), (rids 2, pids 2),
      (rids 0, pids 5)]"
  "role_ID ` set (roles (migrated rids pids now)) = {rids 0, rids 1, rids 2}"
  by (simp_all add: seed_simps eval_nat_numeral)

definition granted :: "tables \<Rightarrow> uuid \<Rightarrow> string set" where
  "granted d rid = set [n. (r, p) \<leftarrow> role_permissions d, r = rid,
     (q, n) \<leftarrow> map (\<lambda>p. (perm_ID p, perm_Name p)) (permissions d), q = p]"

lemma granted_documented:
  assumes "seeded d" and "r \<in> set (roles d)"
  shows "granted d (role_ID r) = documented (role_Name r)"
proof -
  obtain rids pids now where seed: "distinct (map rids [0..<3])" "distinct (map pids [0..<6])"
    "roles d = roles (migrated rids pids now)" "permissions d = permissions (migrated rids pids now)"
    "role_permissions d = role_permissions (migrated rids pids now)"
    using assms(1) by (auto simp: seeded_def)
  have dist: "distinct [rids 0, rids 1, rids 2]" "distinct [pids 0, pids 1, pids 2, pids 3, pids 4, pids 5]"
    using seed(1,2) by (simp_all add: upt_rec numeral_eq_Suc)
  note dist' = dist [THEN distinct_rev [THEN iffD2]]
  have "(role_ID r, role_Name r) \<in> set (map (\<lambda>r. (role_ID r, role_Name r)) (roles d))" using assms(2) by auto
  then consider "role_ID r = rids 0" "role_Name r = ''admin''" | "role_ID r = rids 1" "role_Name r = ''service''"
    | "role_ID r = rids 2" "role_Name r = ''viewer''"
    unfolding seed(3) migrated_tables by auto
  then show ?thesis
    unfolding granted_def seed(4,5) migrated_tables documented_def
    by cases (use dist dist' in \<open>simp_all add: insert_commute\<close>)
qed

lemma select_permissions_granted:
  assumes "x \<in> set (users d)" and "usr_ID x = u" "usr_TenantID x = t"
    and "\<And>y. y \<in> set (users d) \<Longrightarrow> usr_ID y = u \<Longrightarrow> y = x"
  shows "set (select_permissions t u d) = granted d (usr_RoleID x)"
  using assms by (force simp: select_permissions_def granted_def)

lemma seeded_cong:
  "roles d' = roles d \<Longrightarrow> permissions d' = permissions d \<Longrightarrow> role_permissions d' = role_permissions d \<Longrightarrow> seeded d' = seeded d"
  by (simp add: seeded_def)

text \<open>Whoever has a permission to write has one of two roles.\<close>

lemma writers_role:
  assumes "seeded d" and "permission \<in> set (select_permissions t u d)"
    and "permission \<in> {''accounts:write'', ''transactions:write''}"
  shows "\<exists>x \<in> set (users d). \<exists>r \<in> set (roles d). usr_ID x = u \<and> usr_TenantID x = t \<and>
    usr_RoleID x = role_ID r \<and> role_Name r \<in> {''admin'', ''service''}"
proof -
  obtain x pid where x: "x \<in> set (users d)" "usr_ID x = u" "usr_TenantID x = t" "(usr_RoleID x, pid) \<in> set (role_permissions d)"
    and granted: "permission \<in> granted d (usr_RoleID x)"
    using assms(2) by (force simp: select_permissions_def granted_def)
  have "usr_RoleID x \<in> role_ID ` set (roles d)"
    using assms(1) x(4) by (auto simp: seeded_def migrated_tables)
  then obtain r where r: "r \<in> set (roles d)" "usr_RoleID x = role_ID r" by auto
  then have "permission \<in> documented (role_Name r)" using granted granted_documented [OF assms(1)] by simp
  then have "role_Name r \<in> {''admin'', ''service''}"
    using assms(3) by (auto simp: documented_def split: if_splits)
  with x r show ?thesis by blast
qed

text \<open>
  C33. On a database with the starter roles, what the permission check reads for a user is what
  \<open>docs/API.md\<close> tabulates for the role: an admin has all six permissions, a service the four on accounts
  and transactions, and a viewer the two that only read.
\<close>

theorem starter_roles_have_the_documented_permissions:
  assumes "seeded d" and "distinct (map usr_ID (users d))" and "x \<in> set (users d)"
    and "r \<in> set (roles d)" and "usr_RoleID x = role_ID r"
  shows "set (select_permissions (usr_TenantID x) (usr_ID x) d) = documented (role_Name r)"
proof -
  have "y = x" if "y \<in> set (users d)" "usr_ID y = usr_ID x" for y
    using that assms(2,3) by (auto simp: distinct_map dest: inj_onD)
  with select_permissions_granted [OF assms(3) refl refl] granted_documented [OF assms(1,4)] assms(5) show ?thesis by simp
qed

end
