(* ===== verification/Api_Examples.thy ===== *)
theory Api_Examples
  imports Api_Properties Ledger_Examples Auth_Properties Migrations
begin

text \<open>
  A call of \<open>POST /v1/transfers\<close> by a user who may write, served by the whole server, and calls the server
  turns away: the inputs at which the properties of the API are applied.
\<close>

section \<open>A user, a token and a request\<close>

definition demo_seed :: tables where
  "demo_seed = migrated (\<lambda>i. 3 + of_nat i) (\<lambda>i. 40 + of_nat i) 0"

definition demo_api :: tables where
  "demo_api = demo_ledger\<lparr>roles := roles demo_seed, permissions := permissions demo_seed,
     role_permissions := role_permissions demo_seed, users := [demo_user]\<rparr>"

lemma demo_seeded: "seeded demo_api"
  unfolding seeded_def
  by (rule exI [of _ "\<lambda>i. 3 + of_nat i"], rule exI [of _ "\<lambda>i. 40 + of_nat i"], rule exI [of _ 0])
    (simp add: demo_api_def demo_seed_def upt_rec)

definition demo_lib :: libraries where
  "demo_lib = \<lparr>chi_Timeout = (\<lambda>h. h), chi_NotFound = (\<lambda>r. respond [WriteHeader 404]),
     promhttp_Handler = (\<lambda>r. respond [WriteHeader 200])\<rparr>"

definition demo_entries :: "EntryInput list" where
  "demo_entries = tr_Entries (pair_transfer 1 11 12 30)"

definition demo_body :: string where
  "demo_body = json_Marshal (transfer_document demo_env demo_entries)"

definition demo_bearer :: string where
  "demo_bearer = ''Bearer '' @ put_field ''k'' @ put_field ''31'' @ put_field ''1'' @ put_field ''3''"

definition demo_call :: "string \<Rightarrow> Request" where
  "demo_call authorization = \<lparr>rq_Method = ''POST'', rq_Path = ''/v1/transfers'',
     rq_Header = [(''Authorization'', authorization), (HeaderKey, ''k1'')], rq_Query = [],
     rq_Body = Some demo_body, rq_Route = ''/v1/transfers'', rq_Param = (\<lambda>_. ''''), rq_TenantID = None, rq_Claims = None,
     rq_RequestID = ''r-1'', rq_RemoteAddr = ''192.0.2.1:1234''\<rparr>"

definition demo_claims :: Claims where
  "demo_claims = \<lparr>cl_UserID = ''31'', cl_TenantID = ''1'', cl_RoleID = ''3'', cl_Subject = ''31'', cl_ExpiresAt = None,
     cl_IssuedAt = None\<rparr>"

definition demo_caller :: Request where
  "demo_caller = WithClaims (WithTenantID (demo_call demo_bearer) 1) demo_claims"

text \<open>The world once the process has started: one call to the database was made and three lines logged.\<close>

definition demo_start :: "tables \<Rightarrow> world" where
  "demo_start d = (demo_world d)\<lparr>tick := 1, logs := [
     (''INFO'', ''connected to database'', [(''host'', LogString ''k''), (''name'', LogString ''k'')]),
     (''INFO'', ''webhook worker started'', []), (''INFO'', ''listening'', [(''port'', LogString ''k'')])]\<rparr>"

lemma demo_start_db [simp]: "db (demo_start d) = d"
  by (simp add: demo_start_def demo_world_def)

definition demo_api_world :: "nat \<Rightarrow> world" where
  "demo_api_world n = (demo_start demo_api)\<lparr>tick := n\<rparr>"

abbreviation demo_auth :: AuthService where
  "demo_auth \<equiv> authSvc demo_env ''k''"

abbreviation demo_server :: http_Handler where
  "demo_server \<equiv> server demo_env demo_lib demo_auth demo_svc"

lemma demo_lib_lawful: "libraries_lawful demo_lib"
  by (simp add: libraries_lawful_def demo_lib_def timeout_lawful_def reads_only_def respond_def)

lemma demo_validates:
  "fst (ValidateAccessToken demo_env demo_auth (drop 7 demo_bearer) (demo_api_world 3)) = Inr demo_claims"
  by code_simp

lemma demo_header: "header_Get (rq_Header (demo_call s)) ''Authorization'' = s"
   by (simp add: demo_call_def) code_simp

definition demo_granted :: "string list" where
  "demo_granted = [''transactions:read'', ''transactions:write'', ''accounts:read'', ''accounts:write'', ''users:manage'', ''audit:read'']"

lemma demo_permissions: "select_permissions 1 31 demo_api = demo_granted"
  by code_simp

lemma demo_gate:
  "authenticated demo_env demo_auth ''transactions:write'' h (demo_call demo_bearer) (demo_api_world n) =
   h demo_caller (demo_api_world (Suc (Suc n)))"
proof -
  let ?n = "length bearer_prefix"
  have token: "take ?n demo_bearer = bearer_prefix" "?n < length demo_bearer"
    "jwt_Parse demo_env x (access_key demo_auth) (drop ?n demo_bearer) = Inr (demo_claims, True)" for x
    by code_simp+
  have ids: "uuid_Parse demo_env (cl_TenantID demo_claims) = Some 1" "uuid_Parse demo_env (cl_UserID demo_claims) = Some 31"
    by code_simp+
  have validated: "ValidateAccessToken demo_env demo_auth (drop ?n demo_bearer) w = (Inr demo_claims, step w)" for w
    by (simp add: ValidateAccessToken_def token(3))
  have perms: "GetUserPermissions demo_env 1 31 (demo_api_world k) = (Inr demo_granted, demo_api_world (Suc k))" for k
    using demo_permissions
    by (simp add: GetUserPermissions_def wrapE_def pg_select_def pg_def demo_api_world_def demo_env_def demo_start_def demo_world_def)
  have "step (demo_api_world n) = demo_api_world (Suc n)" by (simp add: demo_api_world_def)
  then show ?thesis
    using token(1,2) ids demo_header [of demo_bearer]
    by (simp add: authenticated_def auth_Middleware_def RequirePermission_def Let_def perform_def
        validated perms demo_caller_def WithClaims_def WithTenantID_def ClaimsFromContext_def FromContext_def hasPermission_def demo_granted_def)
qed

definition demo_claim :: "string \<Rightarrow> Record" where
  "demo_claim h = \<lparr>rec_ID = 1006, rec_TenantID = 1, rec_Key = ''k1'', rec_RequestHash = h, rec_Status = IdemProcessing,
     rec_ResponseCode = None, rec_ResponseBody = None, rec_CreatedAt = 105, rec_ExpiresAt = 105 + DefaultProcessingLease\<rparr>"

definition demo_claimed :: "string \<Rightarrow> world" where
  "demo_claimed h = (demo_start (demo_api\<lparr>idempotency_keys := [demo_claim h]\<rparr>))\<lparr>tick := 7\<rparr>"

lemma demo_claims_key:
  "ClaimOrGet demo_env 1 ''k1'' h DefaultProcessingLease (demo_api_world 5) = (Inr (demo_claim h, True), demo_claimed h)"
  by (simp add: ClaimOrGet_def bindC_def go_now_def attempt_def pg_def ok_def claim_record_def demo_api_world_def
      demo_api_def demo_defs demo_start_def tenant_exists_def Let_def demo_claim_def demo_claimed_def)

lemma demo_named: "list_all (named demo_env) demo_entries"
  by code_simp

definition demo_transfer :: TransferRequest where
  "demo_transfer = \<lparr>tr_TenantID = 1, tr_Entries = demo_entries, tr_ActorID = ''31''\<rparr>"

lemma demo_caller_sel:
  "rq_TenantID demo_caller = Some 1" "rq_Body demo_caller = Some demo_body" "actorIDFromContext demo_caller = ''31''"
  by (simp_all add: demo_caller_def demo_call_def WithTenantID_def WithClaims_def actorIDFromContext_def
      ClaimsFromContext_def demo_claims_def)

lemma demo_handler: "transferHandler demo_env demo_svc demo_caller =
    perform (ExecuteTransfer demo_env demo_svc demo_transfer) (transfer_answer demo_env)"
  using transfer_read_back [of demo_caller 1 demo_env demo_entries "''''", OF _ _ demo_named] demo_caller_sel
  by (simp add: demo_body_def demo_transfer_def)

lemma nine: "{7..<16::nat} = set [7, 8, 9, 10, 11, 12, 13, 14, 15]"
  by auto

lemma demo_claimed_ready: "ready demo_env 16 1 (demo_claimed h)"
proof -
  have "tick (demo_claimed h) = 7" by (simp add: demo_claimed_def)
  then show ?thesis
    unfolding ready_def fresh_ids_def nine inj_on_def by (simp only: nine) code_simp
qed

lemma demo_posts:
  "\<exists>txn rows w'. ExecuteTransfer demo_env demo_svc demo_transfer (demo_claimed h) = (Inr (txn, rows), w') \<and>
     inserted 1 TxnPosted demo_entries txn rows (db (demo_claimed h)) (db w')"
proof -
  let ?run = "ExecuteTransfer demo_env demo_svc demo_transfer (demo_claimed h)"
  have "validateEntries demo_entries = None" by code_simp
  moreover have "funded 1 demo_entries (db (demo_claimed h))" by code_simp
  note refusal_unfunded [OF this]
  moreover have "ready demo_env (tick (demo_claimed h) + length (tr_Entries demo_transfer) + 7) (tr_TenantID demo_transfer) (demo_claimed h)"
    using demo_claimed_ready [of h] by (simp add: demo_claimed_def demo_transfer_def demo_entries_def)
  note ExecuteTransfer_answer [OF demo_calm this demo_over_schema]
  ultimately obtain txn rows where "fst ?run = Inr (txn, rows)"
    by (auto simp: demo_transfer_def split: sum.splits)
  then obtain w' where "?run = (Inr (txn, rows), w')" by (metis prod.collapse)
  with prod.ExecuteTransfer_outcome [OF this] show ?thesis
    by (auto simp: outcome_of_def demo_transfer_def)
qed

lemma demo_transfer_volume:
  assumes "inserted 1 TxnPosted demo_entries txn rows d d'"
  shows "volume d' = volume d + 60"
proof -
  have "rows_for 1 (txn_ID txn) demo_entries rows" using assms by (simp add: inserted_def)
  then obtain a b where "rows = [a, b]" "ent_AmountMinor a = - 30" "ent_AmountMinor b = 30"
    by (auto simp: rows_for_def demo_entries_def pair_transfer_def Cons_eq_map_conv entry_input_def)
  then show ?thesis using inserted_tables(3) [OF assms] by (simp add: volume_def)
qed

lemma demo_runs:
  "\<exists>calls w'. idempotent demo_env (transferHandler demo_env demo_svc) demo_caller (demo_api_world 5) = (calls, None, w') \<and>
     volume (db w') = 160 \<and> fst (client_view calls) = 201"
proof -
  let ?h = "requestHash (rq_Method demo_caller) (rq_Path demo_caller) demo_body"
  obtain txn rows w1 where run: "ExecuteTransfer demo_env demo_svc demo_transfer (demo_claimed ?h) = (Inr (txn, rows), w1)"
    "inserted 1 TxnPosted demo_entries txn rows (db (demo_claimed ?h)) (db w1)" using demo_posts by blast
  have handler: "transferHandler demo_env demo_svc demo_caller (demo_claimed ?h) =
      (json_response 201 (transferResponse demo_env txn), None, w1)"
    unfolding demo_handler by (simp add: perform_def run(1) transfer_answer_def respond_def)
  have key: "header_Get (rq_Header demo_caller) HeaderKey = ''k1''"
    by (simp add: demo_caller_def demo_call_def WithTenantID_def WithClaims_def) code_simp
  from idempotent_runs [where h = "transferHandler demo_env demo_svc", OF key _ demo_caller_sel(1,2) demo_claims_key handler]
  obtain w' where served: "idempotent demo_env (transferHandler demo_env demo_svc) demo_caller (demo_api_world 5) =
      (json_response 201 (transferResponse demo_env txn), None, w')" "sans_keys (db w') = sans_keys (db w1)" by auto
  have "books (db w') = books (db w1)" using sans_keys_proj(1) served(2) by metis
  then have "volume (db w') = volume (db w1)" by (simp add: books_def volume_def)
  moreover have "volume (db (demo_claimed ?h)) = 100"
    by (simp add: demo_claimed_def demo_api_def demo_defs volume_def)
  moreover have "\<exists>h. client_view (json_response 201 (transferResponse demo_env txn)) =
      (201, h, case encoded (transferResponse demo_env txn) of None \<Rightarrow> '''' | Some b \<Rightarrow> b)"
    by (rule client_view_json) (simp add: bodyAllowed_def)
  ultimately show ?thesis using served(1) demo_transfer_volume [OF run(2)] by fastforce
qed

lemma demo_route:
  "route demo_env demo_lib demo_auth demo_svc (demo_call demo_bearer) (demo_api_world 3) =
   idempotent demo_env (transferHandler demo_env demo_svc) demo_caller (demo_api_world 5)"
  using demo_gate [of "idempotent demo_env (transferHandler demo_env demo_svc)" 3]
  by (simp add: route_def v1_routes_def demo_call_def numeral_2_eq_2 numeral_eq_Suc)

lemma demo_served: "volume (db (snd (snd (demo_server (demo_call demo_bearer) (demo_start demo_api))))) = 160"
proof -
  have "timeout_lawful (chi_Timeout demo_lib)" using demo_lib_lawful by (simp add: libraries_lawful_def)
  note shell = server_shell [OF this, of demo_env demo_auth demo_svc "demo_call demo_bearer" "demo_start demo_api"]
  have "step (step (demo_start demo_api)) = demo_api_world 3" by (simp add: demo_api_world_def demo_start_def)
  with shell demo_runs demo_route show ?thesis by auto
qed

lemma demo_moves: "books (db (snd (snd (demo_server (demo_call demo_bearer) (demo_start demo_api))))) \<noteq> books demo_api"
proof -
  have "volume demo_api = 100" by (simp add: demo_api_def demo_defs volume_def)
  then show ?thesis using demo_served by (auto simp: books_def volume_def)
qed

definition demo_worker :: Worker where
  "demo_worker = NewWorker demo_repo (NewWebhookService demo_repo []) []"

lemma demo_api_inv:
  "system_inv demo_env (wk_svc demo_worker) demo_api" "solvent demo_api" "0 < ws_maxAttempts (wk_svc demo_worker)"
proof -
  have "ledger_wf demo_api" by code_simp
  moreover have "session_inv demo_env demo_api"
    by (simp add: session_inv_def owners_def demo_api_def demo_user_def demo_defs)
  moreover have "keys_unique demo_api" "queue_inv (wk_svc demo_worker) demo_api"
    by (simp_all add: keys_unique_def queue_inv_def failed_ids_def demo_api_def demo_defs)
  ultimately show "system_inv demo_env (wk_svc demo_worker) demo_api" by (simp add: system_inv_def)
  show "solvent demo_api"
    by (auto simp: solvent_def posted_balance_def posted_amounts_def demo_api_def demo_defs)
  show "0 < ws_maxAttempts (wk_svc demo_worker)"
    by (simp add: demo_worker_def NewWorker_def NewWebhookService_def DefaultMaxAttempts_def)
qed

section \<open>Witnesses\<close>

theorem starter_roles_have_the_documented_permissions_witness:
  "set (select_permissions (usr_TenantID demo_user) (usr_ID demo_user) demo_api) = documented ''admin''"
proof -
  let ?admin = "hd (roles demo_seed)"
  have "demo_user \<in> set (users demo_api)" "?admin \<in> set (roles demo_api)" "usr_RoleID demo_user = role_ID ?admin"
    "role_Name ?admin = ''admin''" "distinct (map usr_ID (users demo_api))"
    by (simp_all add: demo_api_def demo_seed_def seed_simps demo_user_def)
  from starter_roles_have_the_documented_permissions [OF demo_seeded this(5,1-3)] this(4) show ?thesis by simp
qed

text \<open>Two calls: the transfer above, and one that sends no token.\<close>

lemma demo_transfer_route:
  "map_of (v1_routes demo_env demo_auth demo_svc) (rq_Method (demo_call s), rq_Route (demo_call s)) =
   Some (authenticated demo_env demo_auth ''transactions:write'' (idempotent demo_env (transferHandler demo_env demo_svc)))"
  by (simp add: v1_routes_def demo_call_def)



theorem recorded_status_is_the_one_sent_witness:
  "\<exists>w' ls d. snd (demo_server (demo_call demo_bearer) (demo_start demo_api)) = (None, w') \<and>
     logs w' = ls @ [request_line (demo_call demo_bearer) 201 d]"
proof -
  obtain calls w1 where run: "idempotent demo_env (transferHandler demo_env demo_svc) demo_caller (demo_api_world 5) = (calls, None, w1)"
    "fst (client_view calls) = 201" using demo_runs by blast
  have start: "step (step (demo_start demo_api)) = demo_api_world 3" by (simp add: demo_api_world_def demo_start_def)
  have "authenticated demo_env demo_auth ''transactions:write'' (idempotent demo_env (transferHandler demo_env demo_svc))
      (demo_call demo_bearer) (step (step (demo_start demo_api))) = (calls, None, w1)"
    unfolding start using run(1) demo_gate [of _ 3] by (simp add: numeral_eq_Suc)
  moreover have "timeout_lawful (chi_Timeout demo_lib)" using demo_lib_lawful by (simp add: libraries_lawful_def)
  moreover have "fst (chi_Timeout demo_lib (route demo_env demo_lib demo_auth demo_svc) (demo_call demo_bearer)
      (step (step (demo_start demo_api)))) = calls"
    unfolding start using run(1) demo_route by (simp add: demo_lib_def)
  moreover have "idempotency_keys (db (demo_start demo_api)) = []" by (simp add: demo_api_def demo_defs demo_start_def)
  ultimately show ?thesis
    using recorded_status_is_the_one_sent [OF demo_transfer_route] run(2) by fastforce
qed

lemma demo_logs: "logs (demo_world d) = []"
  by (simp add: demo_world_def)

definition demo_panicking :: http_Handler where
  "demo_panicking r w = ([], Some (Panic ''boom''), w)"

theorem panic_is_answered_logged_and_counted_witness:
  "\<exists>w' d. logging_Middleware demo_env (metrics_Middleware demo_env (recovery_Middleware demo_env demo_panicking))
       demo_caller (demo_world demo_api) = (internal_error, None, w') \<and>
     logs w' = [panic_line demo_env demo_caller ''boom'' 2, request_line demo_caller 500 d]"
proof -
  have "demo_panicking demo_caller (step (step (demo_world demo_api))) = ([], Some (Panic ''boom''), step (step (demo_world demo_api)))"
    by (simp add: demo_panicking_def)
  from panic_is_answered_logged_and_counted [where E = demo_env and nxt = demo_panicking, OF this] show ?thesis
    by (simp add: demo_logs numeral_2_eq_2) blast
qed

theorem transfer_answers_truthfully_witness:
  "\<exists>txn rows. inserted 1 TxnPosted demo_entries txn rows (db (demo_claimed ''h''))
     (db (snd (snd (transferHandler demo_env demo_svc demo_caller (demo_claimed ''h'')))))"
proof -
  obtain txn rows w1 where run: "ExecuteTransfer demo_env demo_svc demo_transfer (demo_claimed ''h'') = (Inr (txn, rows), w1)"
    "inserted 1 TxnPosted demo_entries txn rows (db (demo_claimed ''h'')) (db w1)" using demo_posts by blast
  then have out: "transferHandler demo_env demo_svc demo_caller (demo_claimed ''h'') =
      (json_response 201 (transferResponse demo_env txn), None, w1)"
    unfolding demo_handler by (simp add: perform_def transfer_answer_def respond_def)
  have "volume (db w1) \<noteq> volume (db (demo_claimed ''h''))" using demo_transfer_volume [OF run(2)] by simp
  moreover have "requested_entries demo_env demo_caller = Some demo_entries"
    using transfer_decodes [OF demo_named, of "''''"] entry_inputs_named [OF demo_named] demo_caller_sel(2)
    by (auto simp: requested_entries_def demo_body_def)
  ultimately show ?thesis
    using transfer_answers_truthfully [OF out demo_caller_sel(1)] by (auto simp: out split: prod.splits)
qed

theorem transfer_request_is_read_back_witness:
  "transferHandler demo_env demo_svc demo_caller = perform (ExecuteTransfer demo_env demo_svc demo_transfer) (transfer_answer demo_env)"
  using transfer_request_is_read_back [of demo_caller 1 demo_env demo_entries "''''"] demo_named demo_caller_sel
  by (simp add: demo_body_def demo_transfer_def list_all_iff)




end
