(* ===== verification/Process_Properties.thy ===== *)
theory Process_Properties
  imports Process Api_Examples
begin

text \<open>
  What the program does from its start to its exit: when it ends and with which code, who is answered, and
  what becomes of the deliveries it had begun.
\<close>

section \<open>Exits\<close>

definition arrivals :: "incident list \<Rightarrow> Request list" where
  "arrivals xs = concat (map (\<lambda>x. case x of Arrives r \<Rightarrow> [r] | _ \<Rightarrow> []) xs)"

text \<open>Every request that arrived is waiting or answered, and an exit with 0 leaves none waiting.\<close>

definition accounted :: "incident list \<Rightarrow> process \<Rightarrow> bool" where
  "accounted xs p \<longleftrightarrow> mset (arrivals xs) = mset (pr_accepted p) + mset (map fst (pr_answered p))"

lemma arrivals_simps: "arrivals [] = []" "arrivals (xs @ [x]) = arrivals xs @ (case x of Arrives r \<Rightarrow> [r] | _ \<Rightarrow> [])"
  by (simp_all add: arrivals_def)

lemma advance_accounted: "advance E wk h x p = Some q \<Longrightarrow> accounted xs p \<Longrightarrow> accounted (xs @ [x]) q"
  by (cases x) (auto simp: accounted_def arrivals_simps advance_simps Let_def drop_nth_mset
      split: if_splits prod.splits sum.splits)

lemma advance_all_accounted:
  assumes "advance_all E wk h xs p = Some q" and "accounted ys p"
  shows "accounted (ys @ xs) q"
  using assms
proof (induction xs arbitrary: p ys)
  case (Cons x xs)
  then obtain p1 where "advance E wk h x p = Some p1" "advance_all E wk h xs p1 = Some q"
    by (auto simp: bind_eq_Some_conv)
  with Cons.IH [of p1 "ys @ [x]"] Cons.prems(2) advance_accounted show ?case by fastforce
qed simp

text \<open>\<open>main\<close> goes from one phase to the next and not back, and once the listener is closed nobody arrives.\<close>

lemma exited_final: "pr_phase p = Exited c \<Longrightarrow> advance E wk h x p = None"
  by (cases x) (simp_all add: advance_simps)

lemma no_arrivals_when_closed:
  "advance_all E wk h xs p = Some q \<Longrightarrow> \<not> open_listener p \<Longrightarrow> arrivals xs = []"
proof (induction xs arbitrary: p)
  case (Cons x xs)
  then obtain p1 where adv: "advance E wk h x p = Some p1" "advance_all E wk h xs p1 = Some q"
    by (auto simp: bind_eq_Some_conv)
  with Cons.prems(2) have "\<not> open_listener p1" "\<forall>r. x \<noteq> Arrives r"
    by (cases x; auto simp: advance_simps Let_def split: if_splits prod.splits sum.splits)+
  with Cons.IH adv(2) show ?case by (auto simp: arrivals_def split: incident.splits)
qed (simp add: arrivals_def)

definition drained :: "process \<Rightarrow> bool" where
  "drained p \<longleftrightarrow> pr_phase p = Draining \<or> pr_phase p = Exited 0"

text \<open>A run that drains leaves the phase \<open>ph\<close> by the one incident \<open>y\<close> that leads on.\<close>

lemma drained_leaves_phase:
  assumes "advance_all E wk h xs p = Some q" and "pr_phase p = ph" and "drained q" and "\<not> drained p"
    and "\<And>x p p1. advance E wk h x p = Some p1 \<Longrightarrow> pr_phase p = ph \<Longrightarrow>
      pr_phase p1 = ph \<or> (\<exists>c. pr_phase p1 = Exited c \<and> c \<noteq> 0) \<or> x = y \<and> pr_phase p1 = ph'"
  shows "\<exists>bs cs p1. xs = bs @ y # cs \<and> pr_phase p1 = ph' \<and> advance_all E wk h cs p1 = Some q"
  using assms(1,2,4)
proof (induction xs arbitrary: p)
  case (Cons x xs)
  then obtain p1 where adv: "advance E wk h x p = Some p1" "advance_all E wk h xs p1 = Some q"
    by (auto simp: bind_eq_Some_conv)
  from assms(5) [OF adv(1) Cons.prems(2)] show ?case
  proof (elim disjE exE conjE)
    assume "pr_phase p1 = ph"
    with Cons.IH [OF adv(2)] Cons.prems(2,3) show ?thesis unfolding drained_def by (metis append_Cons)
  next
    fix c
    assume c: "pr_phase p1 = Exited c" "c \<noteq> 0"
    with exited_final adv(2) have "q = p1" by (cases xs) simp_all
    with assms(3) c show ?thesis by (simp add: drained_def)
  next
    assume "x = y" "pr_phase p1 = ph'"
    with adv(2) show ?thesis by (metis append_Nil)
  qed
qed (use assms(3) in simp)

lemma advance_phase:
  assumes "advance E wk h x p = Some p1"
  shows "pr_phase p = Stopping \<Longrightarrow>
      pr_phase p1 = Stopping \<or> (\<exists>c. pr_phase p1 = Exited c \<and> c \<noteq> 0) \<or> x = ShutdownStarts \<and> pr_phase p1 = Draining"
    and "pr_phase p = Listening \<Longrightarrow>
      pr_phase p1 = Listening \<or> (\<exists>c. pr_phase p1 = Exited c \<and> c \<noteq> 0) \<or> x = Signalled \<and> pr_phase p1 = Stopping"
    and "pr_phase p1 = Exited 0 \<Longrightarrow> pr_accepted p1 = []"
  using assms by (cases x; auto simp: advance_simps Let_def split: if_splits prod.splits sum.splits)+

lemma drained_run:
  assumes "advance_all E wk h xs p = Some q" and "pr_phase p = Listening" and "drained q"
  shows "\<exists>as bs cs. xs = as @ Signalled # bs @ ShutdownStarts # cs \<and> arrivals cs = []"
proof -
  have "\<not> drained p" using assms(2) by (simp add: drained_def)
  have "\<exists>as ys p1. xs = as @ Signalled # ys \<and> pr_phase p1 = Stopping \<and> advance_all E wk h ys p1 = Some q"
    by (rule drained_leaves_phase [OF assms \<open>\<not> drained p\<close>]) (rule advance_phase(2))
  then obtain as ys p1 where
    1: "xs = as @ Signalled # ys" "pr_phase p1 = Stopping" "advance_all E wk h ys p1 = Some q" by blast
  then have "\<not> drained p1" by (simp add: drained_def)
  have "\<exists>bs cs p2. ys = bs @ ShutdownStarts # cs \<and> pr_phase p2 = Draining \<and> advance_all E wk h cs p2 = Some q"
    by (rule drained_leaves_phase [OF 1(3,2) assms(3) \<open>\<not> drained p1\<close>]) (rule advance_phase(1))
  then obtain bs cs p2 where
    2: "ys = bs @ ShutdownStarts # cs" "pr_phase p2 = Draining" "advance_all E wk h cs p2 = Some q" by blast
  then have "arrivals cs = []" using no_arrivals_when_closed by (auto simp: open_listener_def)
  with 1(1) 2(1) show ?thesis by blast
qed

lemma exit_0_accepted:
  assumes "advance_all E wk h xs p = Some q" and "pr_phase p = Listening"
  shows "pr_phase q = Exited 0 \<longrightarrow> pr_accepted q = []"
  by (rule advance_all_rule [where I = "\<lambda>q. pr_phase q = Exited 0 \<longrightarrow> pr_accepted q = []", OF assms(1)])
    (use assms(2) advance_phase(3) in auto)

text \<open>A running program can always be brought to an end: signal, close, answer whoever waits.\<close>

lemma drain:
  "pr_phase p = Draining \<Longrightarrow> \<exists>ys q. advance_all E wk h ys p = Some q \<and> pr_phase q = Exited 0"
proof (induction "length (pr_accepted p)" arbitrary: p)
  case 0
  then have "advance_all E wk h [ShutdownReturns] p = Some (exit_with 0 p)" by simp
  then show ?case by (intro exI [of _ "[ShutdownReturns]"]) (simp add: exit_with_def)
next
  case (Suc n)
  obtain calls pn w where run: "h (pr_accepted p ! 0) (pr_world p) = (calls, pn, w)" by (metis prod.exhaust)
  let ?p = "p\<lparr>pr_world := w, pr_accepted := drop_nth 0 (pr_accepted p),
    pr_answered := pr_answered p @ [(pr_accepted p ! 0, calls, pn)]\<rparr>"
  have "pr_accepted p \<noteq> []" using Suc.hyps(2) by auto
  then have "advance E wk h (Served 0) p = Some ?p" using Suc.prems run by (simp add: running_def Let_def)
  moreover have "n = length (pr_accepted ?p)" using Suc.hyps(2) by (simp flip: Suc.hyps(2) add: drop_nth_def)
  then obtain ys q where "advance_all E wk h ys ?p = Some q" "pr_phase q = Exited 0"
    using Suc.hyps(1) [of ?p] Suc.prems by auto
  ultimately show ?case by (intro exI [of _ "Served 0 # ys"]) (simp del: advance.simps)
qed

lemma can_exit:
  assumes "running p"
  shows "\<exists>ys q. advance_all E wk h ys p = Some q \<and> pr_phase q = Exited 0"
proof -
  have stop: "\<exists>ys q. advance_all E wk h ys p = Some q \<and> pr_phase q = Exited 0" if "pr_phase p = Stopping" for p
  proof -
    from drain [of "p\<lparr>pr_phase := Draining\<rparr>" E wk h] obtain ys q where
      "advance_all E wk h ys (p\<lparr>pr_phase := Draining\<rparr>) = Some q" "pr_phase q = Exited 0" by auto
    with that show ?thesis by (intro exI [of _ "ShutdownStarts # ys"]) simp
  qed
  from assms consider "pr_phase p = Listening" | "pr_phase p = Stopping" | "pr_phase p = Draining"
    by (auto simp: running_def)
  then show ?thesis
  proof cases
    case 1
    let ?p = "log_line_to (''INFO'', ''shutting down'', []) (p\<lparr>pr_phase := Stopping\<rparr>)"
    from stop [of ?p] obtain ys q where "advance_all E wk h ys ?p = Some q" "pr_phase q = Exited 0"
      by (auto simp: log_line_to_def)
    with 1 show ?thesis by (intro exI [of _ "Signalled # ys"]) simp
  qed (use stop drain in blast)+
qed

lemma main_run_extend:
  assumes "main_run E env sql_Open lib xs w = Some p" and "running p"
  shows "\<exists>wk h. \<forall>ys. main_run E env sql_Open lib (xs @ ys) w = advance_all E wk h ys p"
proof -
  obtain r w' where start: "main_start E env sql_Open lib w = (r, w')" by fastforce
  from main_start_cases [OF start] assms start obtain wk h where "r = Inr (wk, h)"
    by (auto simp: main_run_def advance_simps split: if_splits)
  with assms(1) start show ?thesis by (intro exI [of _ wk] exI [of _ h]) (simp add: main_run_def advance_all_append)
qed

text \<open>
  C5. A graceful exit leaves nobody waiting. When the program ends with 0, it was sent a signal, then its
  shutdown closed the listener, after which no request arrived, and every request that had arrived was
  answered, once. At any other moment each request that arrived is either answered or still waiting, and a
  program that is running can be brought to such an exit.
\<close>

theorem graceful_exit_answers_everyone:
  assumes "main_run E env sql_Open lib xs w = Some q"
  shows "mset (arrivals xs) = mset (pr_accepted q) + mset (map fst (pr_answered q)) \<and>
    (pr_phase q = Exited 0 \<longrightarrow>
       mset (arrivals xs) = mset (map fst (pr_answered q)) \<and>
       (\<exists>as bs cs. xs = as @ Signalled # bs @ ShutdownStarts # cs \<and> arrivals cs = [])) \<and>
    (running q \<longrightarrow> (\<exists>ys q'. main_run E env sql_Open lib (xs @ ys) w = Some q' \<and> pr_phase q' = Exited 0))"
proof -
  have "running q \<longrightarrow> (\<exists>ys q'. main_run E env sql_Open lib (xs @ ys) w = Some q' \<and> pr_phase q' = Exited 0)"
    using main_run_extend [OF assms] can_exit by metis
  with assms show ?thesis
  proof (cases rule: main_run_cases)
    case refused
    then show ?thesis by (simp add: arrivals_def running_def)
  next
    case (serves key repo w')
    have "accounted xs q"
      using advance_all_accounted [OF serves(5), of "[]"] by (simp add: accounted_def serving_def arrivals_def)
    moreover have "pr_phase (serving w') = Listening" by (simp add: serving_def)
    moreover note exit_0_accepted [OF serves(5) this] drained_run [OF serves(5) this]
    ultimately show ?thesis
      using \<open>running q \<longrightarrow> (\<exists>ys q'. main_run E env sql_Open lib (xs @ ys) w = Some q' \<and> pr_phase q' = Exited 0)\<close>
      by (simp add: accounted_def drained_def)
  qed
qed





section \<open>Deliveries across runs\<close>

text \<open>One run of the program after another on the same tables, each ending anywhere.\<close>

definition restarted :: "env \<Rightarrow> tables \<Rightarrow> tables \<Rightarrow> bool" where
  "restarted E d d' \<longleftrightarrow> (\<exists>env sql_Open lib xs w q. libraries_lawful lib \<and> db w = d \<and>
     main_run E env sql_Open lib xs w = Some q \<and> db (pr_world q) = d')"

lemma main_run_kept_row:
  assumes "main_run E env sql_Open lib xs w = Some q" and "libraries_lawful lib"
    and "system_inv E (wk_svc main_worker) (db w)"
    and "j \<in> set (webhook_events (db w))" and "job_Status j \<noteq> JobPending"
  shows "j \<in> set (webhook_events (db (pr_world q)))"
  using assms(1)
proof (cases rule: main_run_cases)
  case refused
  with assms(4) show ?thesis by simp
next
  case (serves key repo w')
  let ?I = "\<lambda>p. process_inv E (wk_svc main_worker) p \<and> kept_row j (pr_batch p) (db (pr_world p))"
  have "process_inv E (wk_svc main_worker) (serving w')" using assms(3) serves(4) by (intro serving_inv) simp
  then have "?I (serving w')"
    using assms(3,4) serves(4) by (simp add: kept_row_def serving_def system_inv_def queue_inv_def)
  with serves(5) have "?I q"
  proof (rule advance_all_rule [where I = ?I])
    fix x p p1
    assume adv: "advance E main_worker (server E lib (authSvc E key) (ledgerSvc E repo)) x p = Some p1" and I: "?I p"
    from advance_moves [OF adv assms(2) _ main_worker_attempts] I have inv: "process_inv E (wk_svc main_worker) p1"
      by (simp add: process_moves_def)
    with advance_kept_row [OF adv assms(2) _ _ assms(5) inv] I show "?I p1" by blast
  qed
  then show ?thesis by (simp add: kept_row_def)
qed

lemma restarts_kept_row:
  assumes "(restarted E)\<^sup>*\<^sup>* d d'" and "system_inv E (wk_svc main_worker) d"
    and "j \<in> set (webhook_events d)" and "job_Status j \<noteq> JobPending"
  shows "system_inv E (wk_svc main_worker) d' \<and> j \<in> set (webhook_events d')"
  using assms(1)
proof (induction rule: rtranclp_induct)
  case (step d1 d2)
  then obtain env sql_Open lib xs w q where run: "main_run E env sql_Open lib xs w = Some q" "libraries_lawful lib"
    and w: "db w = d1" "db (pr_world q) = d2" by (auto simp: restarted_def)
  from main_run_kept_row [OF run, of j] main_run_moves [OF run] step.IH assms(4) w show ?case
    by (simp add: process_inv_def)
qed (use assms in simp)

text \<open>
  C35. The outcome of a job is final. Over any sequence of runs of the program on the same tables, each
  ending in whatever way, and in each of them over any interleaving of requests, claims and deliveries,
  a job that is delivered or failed keeps its row as it is; and so does a job that is processing when a
  run begins, because the worker claims pending jobs only.
\<close>

theorem jobs_not_pending_are_never_touched:
  assumes "(restarted E)\<^sup>*\<^sup>* d d'" and "system_inv E (wk_svc main_worker) d"
    and "j \<in> set (webhook_events d)" and "job_Status j \<noteq> JobPending"
  shows "j \<in> set (webhook_events d')"
  using restarts_kept_row [OF assms] by simp



section \<open>Concrete runs\<close>

definition demo_settings :: process_env where
  "demo_settings = (\<lambda>_. ''k'')"

definition demo_main :: "tables \<Rightarrow> incident list \<Rightarrow> process option" where
  "demo_main d xs = main_run demo_env demo_settings (\<lambda>_. None) demo_lib xs (demo_world d)"

lemma demo_main_run: "demo_main d xs = advance_all demo_env main_worker demo_server xs (serving (demo_start d))"
  by (simp add: demo_main_def main_run_def main_start_def Let_def PingContext_def pg_select_def pg_def bindC_def wrapE_def
      NewWebhookRepository_ok ok_def log_to_def demo_settings_def Load_def getenv_def demo_start_def demo_world_def
      demo_env_def [THEN arg_cong [where f = outcome]] main_worker_def demo_repo_def)

definition demo_jobs :: tables where
  "demo_jobs = demo_api\<lparr>webhook_events := [demo_job 1 20 JobDelivered, demo_job 2 10 JobPending]\<rparr>"

lemma demo_worker_main: "demo_worker = main_worker"
  by (simp add: demo_worker_def main_worker_def demo_repo_def Let_def)

lemma demo_jobs_inv: "system_inv demo_env (wk_svc main_worker) demo_jobs"
proof -
  have "books demo_jobs = books demo_api" by (simp add: demo_jobs_def books_def)
  from ledger_step_wf [OF books_step [OF this]] demo_api_inv(1) have "ledger_wf demo_jobs" by (simp add: system_inv_def)
  moreover have "session_inv demo_env demo_jobs = session_inv demo_env demo_api" "keys_unique demo_jobs = keys_unique demo_api"
    by (simp_all add: demo_jobs_def session_inv_def owners_def keys_unique_def)
  moreover have "queue_inv (wk_svc main_worker) demo_jobs"
    by (auto simp: queue_inv_def failed_ids_def attempts_ok_def demo_jobs_def demo_api_def demo_defs main_worker_def
        NewWorker_def NewWebhookService_def DefaultMaxAttempts_def Let_def)
  ultimately show ?thesis using demo_api_inv(1) by (simp add: system_inv_def demo_worker_main)
qed

definition demo_claimed_jobs :: process where
  "demo_claimed_jobs = (serving ((demo_start demo_jobs)\<lparr>tick := 4,
     db := demo_api\<lparr>webhook_events := [demo_job 1 20 JobDelivered, demo_job 2 10 JobProcessing]\<rparr>\<rparr>))
     \<lparr>pr_batch := [eventFromJob (demo_job 2 10 JobProcessing)]\<rparr>"

lemma demo_env_sel: "outcome demo_env n = Done" "row_locked demo_env n = (\<lambda>_. False)" "pg_now demo_env n = 100 + int n"
  by (simp_all add: demo_env_def)

lemma demo_claim_tx:
  "claim_batch demo_env main_worker (demo_start demo_jobs) =
   (Inr [eventFromJob (demo_job 2 10 JobProcessing)], (demo_start demo_jobs)\<lparr>tick := 4,
     db := demo_api\<lparr>webhook_events := [demo_job 1 20 JobDelivered, demo_job 2 10 JobProcessing]\<rparr>\<rparr>)"
  by (simp add: claim_batch_def bindC_def attempt_def in_tx_def demo_env_sel
      ClaimPendingEvents_def ClaimPending_def wrapE_def pg_def ok_def on_queue_def claim_jobs_def claimable_def due_def
      mark_processing_def sql_now_def demo_start_def demo_jobs_def main_worker_def NewWorker_def
      DefaultBatchSize_def demo_world_def demo_job_def Let_def)

lemma demo_claims_batch: "demo_main demo_jobs [Ticks] = Some demo_claimed_jobs"
  by (simp add: demo_main_run running_def serving_def worker_env_def demo_claim_tx demo_claimed_jobs_def)

theorem graceful_exit_answers_everyone_witness:
  "\<exists>q. demo_main demo_api [Arrives (demo_call ''''), Signalled, Served 0, ShutdownStarts, ShutdownReturns] = Some q \<and>
     pr_phase q = Exited 0 \<and> map fst (pr_answered q) = [demo_call '''']"
proof -
  let ?xs = "[Arrives (demo_call ''''), Signalled, Served 0, ShutdownStarts, ShutdownReturns]"
  have "\<exists>q. demo_main demo_api ?xs = Some q \<and> pr_phase q = Exited 0"
    by (simp add: demo_main_run serving_def advance_simps drop_nth_def Let_def split_def)
  then obtain q where q: "demo_main demo_api ?xs = Some q" "pr_phase q = Exited 0" by blast
  have "mset (arrivals ?xs) = mset (map fst (pr_answered q))"
    using graceful_exit_answers_everyone [OF q(1) [unfolded demo_main_def]] q(2) by blast
  moreover have "arrivals ?xs = [demo_call '''']" by (simp add: arrivals_def)
  ultimately have "map fst (pr_answered q) = [demo_call '''']" by (metis mset_single_iff_right mset.simps)
  then show ?thesis using q by auto
qed


lemma demo_restarted: "demo_main d xs = Some q \<Longrightarrow> restarted demo_env d (db (pr_world q))"
  unfolding restarted_def demo_main_def using demo_lib_lawful by (metis demo_world_def world.select_convs(1))

theorem jobs_not_pending_are_never_touched_witness:
  "demo_job 1 20 JobDelivered \<in> set (webhook_events (db (pr_world demo_claimed_jobs)))"
  using jobs_not_pending_are_never_touched [OF r_into_rtranclp [of "restarted demo_env", OF demo_restarted [OF demo_claims_batch]] demo_jobs_inv,
      of "demo_job 1 20 JobDelivered"]
  by (simp add: demo_jobs_def demo_job_def)


lemma demo_transfers:
  "\<exists>p q. demo_main demo_api [Arrives (demo_call demo_bearer)] = Some p \<and> pr_accepted p = [demo_call demo_bearer] \<and>
     db (pr_world p) = demo_api \<and> demo_main demo_api ([Arrives (demo_call demo_bearer)] @ [Served 0]) = Some q \<and>
     books (db (pr_world q)) \<noteq> books demo_api \<and> volume (db (pr_world q)) = 160"
  using demo_moves demo_served
  by (simp add: demo_main_run serving_def advance_simps drop_nth_def Let_def split_def)

end
