(* ===== verification/Spec2Isabelle.thy ===== *)
theory Spec2Isabelle
  imports Ledger_Examples Webhook_Properties Idempotency_Properties Tenants Auth_Properties Process_Properties
begin

text \<open>
  Transacta: a multi-tenant double-entry ledger behind an HTTP interface. A request passes logging,
  metrics, panic recovery and a timeout, is routed, authenticated by its access token, authorised by a
  permission of its user's role and, when it changes the ledger, guarded by its idempotency key; its
  handler then calls the ledger, whose operations are one transaction each and write, in it, the
  transaction's rows, an outbox event and an audit row. A worker beside the server claims the events
  from the outbox and delivers them, signed, to the tenant's endpoint.

  How the model is built. A computation is a function from the world to an answer, error or value, and a
  world (\<open>Prelude\<close>, \<open>Models\<close>). The world holds the tables, as lists of rows in insertion order, a
  counter, Prometheus counters, the requests sent and the log. What the program does not decide (clocks,
  identifiers, random bytes, which database call fails or loses its answer, \<open>bcrypt\<close>, the JWT library,
  \<open>uuid.Parse\<close>) is read from an environment at that counter, which every such interaction advances, so
  that a theorem about all environments is about all runs and all failures. A transaction runs its body on
  the tables and keeps them only when the commit goes through, with or without an answer. Amounts are
  64-bit words and wrap as in Go; balances in the tables are exact sums. Errors are values with Go's
  wrapping and \<open>errors.Is\<close>. A handler is a function of the request and the world; it returns the calls it
  made on the response writer, its panic if it had one, and the world; what the client then gets is
  computed from the calls as \<open>net/http\<close> does (\<open>Http\<close>).

  The theories, with the code they model:
  \<^item> \<open>Prelude\<close>, \<open>Models\<close>: computations, error values, words; the structs of the \<open>models.go\<close> files and
    the tables of \<open>migrations\<close>; statements, transactions, environment.
  \<^item> \<open>Crypto\<close>, \<open>Json\<close>, \<open>Json_Decode\<close>, \<open>Http\<close>: what the program uses of the standard library: SHA-256,
    HMAC and hex; \<open>json.Marshal\<close>, \<open>strconv\<close>; \<open>json.Decoder.Decode\<close>; headers and response writers.
  \<^item> \<open>Configuration\<close>, \<open>Tenants\<close>: \<open>internal/config\<close>; \<open>internal/tenants\<close> and \<open>scripts/create_tenant\<close>.
  \<^item> \<open>Ports\<close>, \<open>Audit_Trail\<close>: the interfaces \<open>EventEnqueuer\<close> and \<open>AuditRecorder\<close> as locales;
    \<open>internal/audit\<close>, which provides the second.
  \<^item> \<open>Ledger_Repository\<close>, \<open>Ledger_Service\<close>: \<open>internal/ledger\<close>; the locale \<open>ledger_service\<close> over the two
    ports holds what every operation does. \<open>Ledger_Spec\<close> is the abstract ledger and its invariants,
    \<open>Ledger\<close> the refinement and the properties, \<open>Ledger_Decisions\<close> what the service answers when the
    database does, \<open>Ledger_Examples\<close> the concrete ledgers.
  \<^item> \<open>Queue\<close>, \<open>Webhook\<close>, \<open>Webhook_Properties\<close>: \<open>internal/queue\<close> and \<open>internal/webhook\<close>: claiming with
    \<open>SKIP LOCKED\<close>, signing, delivery, retries, dead letters, the worker.
  \<^item> \<open>Idempotency\<close>, \<open>Idempotency_Properties\<close>: \<open>internal/middleware/idempotency\<close>; the locale \<open>idem_store\<close>
    states what the middleware needs of its store and is interpreted for the Postgres repository.
  \<^item> \<open>Auth\<close>, \<open>Auth_Spec\<close>, \<open>Auth_Properties\<close>: \<open>internal/auth\<close>, the abstract sessions it implements, and
    their properties.
  \<^item> \<open>Middleware\<close>: \<open>internal/middleware/auth\<close>, \<open>logging\<close>, \<open>metrics\<close>, \<open>recovery\<close>, \<open>internal/metrics\<close> and the
    API-key gate; the locales \<open>token_validator\<close> and \<open>permission_checker\<close> are the interfaces the first
    declares.
  \<^item> \<open>Handlers\<close>, \<open>Server\<close>: \<open>cmd/api/handlers.go\<close> and the routes and middleware of \<open>cmd/api/main.go\<close>.
  \<^item> \<open>Process\<close>, \<open>Process_Properties\<close>: \<open>main\<close> itself as a state machine, from the start-up checks over the
    listener, the worker's goroutines and the signal to the shutdown and the exit code. \<open>advance\<close> is one
    step, \<open>main_run\<close> the whole program on a sequence of incidents, any interleaving of which is a run.
  \<^item> \<open>Migrations\<close>: the roles, permissions and grants the migrations seed.
  \<^item> \<open>Json_Roundtrip\<close>: what \<open>encoding/json\<close> writes, it reads back.
  \<^item> \<open>Api\<close>, \<open>Api_Properties\<close>, \<open>Api_Examples\<close>: what a request can do to the database through the whole
    server, how it is answered, and a transfer served end to end.
  \<^item> \<open>Fixtures\<close>: environments and rows at which the properties are applied.
  This theory states the three properties that need all of it.

  What the groups of lemmas show. Of the ledger: each operation is all or nothing; the service is a
  simulation of an abstract ledger with four kinds of step, from which follow well-formed tables,
  conservation, balances that are not negative, append-only history and tenants that do not touch each
  other; and the answer is the one the rules of the ledger give. Conservation and solvency hold as long
  as the absolute amounts ever entered stay below \<open>2^63\<close>; examples show that this bound is needed, because
  the zero-sum and the funds checks wrap around. Of sessions: a refresh token is rotated at most once and
  never revived; the starter roles have the documented permissions. Of idempotency: a claim excludes others
  until it expires, a stale completion is fenced off, a duplicate is replayed. Of the queue: no job is
  lost, duplicated or retried beyond its attempts by a worker that finishes what it claimed, and what is
  delivered or failed stays so. Of the API: only an admitted request moves money, and on a database with the
  starter roles never one of a viewer; every route answers once; the status that is logged and counted is
  the one sent; a panic becomes a 500; the answer to a transfer says what happened to the ledger. Of the
  process: the invariants of ledger, sessions, keys and queue hold together over any interleaving of
  requests, claims and deliveries; a graceful exit has answered everyone; an exit with 1 is explained in
  the log, and there is no other; but the deliveries in flight at a shutdown are lost for good.

  Bounds. The loops over runes of a string in \<open>Json\<close> take the length of the string as fuel, and every
  round takes at least one byte. The scanner of \<open>Json_Decode\<close> is total because every token is shorter
  than the text; its stack is bounded at ten thousand as in Go. The retries of \<open>completeWithRetry\<close> are
  the three of the code. Everything else is structural.

  Assumptions, each a hypothesis where it is used: \<open>calm\<close> (every database call succeeds, for the theorems
  on what is answered), \<open>timestamptz_lawful\<close> (rounding to the precision of a column is monotone and done
  once), \<open>libraries_lawful\<close> (chi's \<open>Timeout\<close> runs its handler and may add a 504 after it; the 404 handler and
  Prometheus's leave the tables alone), \<open>seeded\<close> (the three tables of roles as the migrations left them), round trips of \<open>uuid\<close> and of the JWT library.

  Not modelled. Concurrency inside one request: a request is served in one step, as is the delivery of one
  event, and what other sessions do meanwhile is in the environment (locked rows, lost answers) or in
  sequences of operations of several servers. chi's matching of routes, of which a request brings the
  result; \<open>middleware.RequestID\<close>, whose identifier is a field of the request; the deadline of chi's
  \<open>Timeout\<close>, of which only the late 504 is seen; the connections of \<open>net/http\<close>, of which only the requests
  they carry are seen; the lines the worker logs about single events; the values a histogram observes; the
  pauses between attempts and the interval of the ticker; the scanning of columns into structs of the same
  shape; indexes and down migrations; build files and containers.
\<close>

section \<open>The API as a whole\<close>

text \<open>
  C1. Only an admitted request moves money. Whatever request the server of \<open>main.go\<close> serves, in any
  environment, either no account, transaction or entry changes, or the request bears a token that was
  valid when it was checked, its user has a permission to write in the tenant the token names, and what
  changes is steps of that tenant's ledger.
\<close>

theorem only_admitted_requests_move_money:
  assumes "libraries_lawful lib" and "session_inv E (db w)"
    and "server E lib (authSvc E key) (ledgerSvc E repo) r w = (calls, p, w')"
  shows "books (db w') = books (db w) \<or>
    (\<exists>t permission. permission \<in> {''accounts:write'', ''transactions:write''} \<and>
       admitted E (authSvc E key) permission r (step (step w)) t \<and> (ledger_step t)\<^sup>*\<^sup>* (db w) (db w'))"
  by (rule server_moves_money [OF assms])

theorem only_admitted_requests_move_money_witness:
  "\<exists>permission t. permission \<in> {''accounts:write'', ''transactions:write''} \<and>
     admitted demo_env demo_auth permission (demo_call demo_bearer) (step (step (demo_start demo_api))) t"
proof -
  obtain calls p w' where run: "demo_server (demo_call demo_bearer) (demo_start demo_api) = (calls, p, w')"
    by (metis prod.exhaust)
  have "books (db w') \<noteq> books (db (demo_start demo_api))" using demo_moves run by simp
  moreover have "session_inv demo_env (db (demo_start demo_api))"
    using demo_api_inv(1) by (simp add: system_inv_def)
  ultimately show ?thesis
    using only_admitted_requests_move_money [OF demo_lib_lawful _ run] by blast
qed

text \<open>
  C3. A viewer never moves money. In any run of the program on a database with the starter roles, the step
  that changes an account, a transaction or an entry serves a request whose token is valid when it is checked
  and whose user is, at that moment, an admin or a service of the tenant whose ledger changes.
\<close>

theorem only_admins_and_services_move_money:
  assumes "libraries_lawful lib" and "system_inv E (wk_svc main_worker) (db w)" and "seeded (db w)"
    and "main_run E env sql_Open lib xs w = Some p" and "main_run E env sql_Open lib (xs @ [x]) w = Some q"
    and "books (db (pr_world q)) \<noteq> books (db (pr_world p))"
  shows "\<exists>i tok claims w1 u ro. x = Served i \<and> bearer_token (pr_accepted p ! i) = Some tok \<and>
    ValidateAccessToken E (authSvc E (env ''JWT_SECRET'')) tok (step (step (pr_world p))) = (Inr claims, w1) \<and>
    u \<in> set (users (db (pr_world p))) \<and> uuid_Parse E (cl_UserID claims) = Some (usr_ID u) \<and>
    uuid_Parse E (cl_TenantID claims) = Some (usr_TenantID u) \<and>
    ro \<in> set (roles (db (pr_world p))) \<and> usr_RoleID u = role_ID ro \<and> role_Name ro \<in> {''admin'', ''service''} \<and>
    (ledger_step (usr_TenantID u))\<^sup>*\<^sup>* (db (pr_world p)) (db (pr_world q))"
proof -
  let ?key = "env ''JWT_SECRET''" and ?w = "pr_world p"
  from assms(4,5) obtain repo where adv: "advance E main_worker (server E lib (authSvc E ?key) (ledgerSvc E repo)) x p = Some q"
    by (auto elim!: main_run_append simp: bind_eq_Some_conv simp del: advance.simps)
  from advance_books [OF adv assms(6)] obtain i where i: "x = Served i"
    "pr_world q = snd (snd (server E lib (authSvc E ?key) (ledgerSvc E repo) (pr_accepted p ! i) ?w))" by blast
  note moves = main_run_moves [OF assms(4,1,2)]
  then have "session_inv E (db ?w)" by (simp add: process_inv_def system_inv_def)
  note money = server_moves_money [OF assms(1) this, of ?key repo "pr_accepted p ! i"]
  obtain calls pn w' where "server E lib (authSvc E ?key) (ledgerSvc E repo) (pr_accepted p ! i) ?w = (calls, pn, w')"
    by (metis prod.exhaust)
  with money i(2) assms(6) obtain t permission where perm: "permission \<in> {''accounts:write'', ''transactions:write''}"
    and adm: "admitted E (authSvc E ?key) permission (pr_accepted p ! i) (step (step ?w)) t"
    and steps: "(ledger_step t)\<^sup>*\<^sup>* (db ?w) (db (pr_world q))" by fastforce
  from adm obtain tok claims u w1 where tok: "bearer_token (pr_accepted p ! i) = Some tok"
    "ValidateAccessToken E (authSvc E ?key) tok (step (step ?w)) = (Inr claims, w1)"
    "uuid_Parse E (cl_TenantID claims) = Some t" "uuid_Parse E (cl_UserID claims) = Some u"
    "permission \<in> set (select_permissions t u (db ?w))" by (auto simp: admitted_def)
  have "seeded (db ?w)" 
    using seeded_cong [of "db ?w" "db w"] process_steps_rbac [OF conjunct2 [OF moves]] assms(3) by (simp add: rbac_def)
  from writers_role [OF this tok(5) perm] tok steps i(1) show ?thesis by blast
qed

theorem only_admins_and_services_move_money_witness:
  "\<exists>u ro q. u \<in> set (users demo_api) \<and> ro \<in> set (roles demo_api) \<and> usr_RoleID u = role_ID ro \<and>
     role_Name ro \<in> {''admin'', ''service''} \<and>
     demo_main demo_api [Arrives (demo_call demo_bearer), Served 0] = Some q \<and>
     (ledger_step (usr_TenantID u))\<^sup>*\<^sup>* demo_api (db (pr_world q))"
proof -
  obtain p q where run: "demo_main demo_api [Arrives (demo_call demo_bearer)] = Some p" "db (pr_world p) = demo_api"
    "demo_main demo_api ([Arrives (demo_call demo_bearer)] @ [Served 0]) = Some q" "books (db (pr_world q)) \<noteq> books demo_api"
    using demo_transfers by blast
  have db: "db (demo_world demo_api) = demo_api" by (simp add: demo_world_def)
  from only_admins_and_services_move_money [OF demo_lib_lawful _ _ run(1,3) [unfolded demo_main_def]] run
    demo_api_inv(1) demo_seeded
  show ?thesis unfolding db demo_worker_main by auto
qed

text \<open>
  C2. The process keeps the books. Over any run of the program, from its start to whatever end, with any
  requests, with or without credentials, interleaved in any way with the claims and the single deliveries
  of the worker, in any environment and with any failures and panics, the ledger's tables stay well-formed,
  users, sessions and idempotency keys stay consistent, roles and their permissions stay as they are, no job of the queue is doubled, tried too often or
  dead-lettered unless it failed, every event the worker is delivering has its row to itself, and, while
  the absolute amounts ever entered add up to less than \<open>2^63\<close>, no balance goes below zero and what each
  tenant's accounts hold together does not change.
\<close>

theorem process_keeps_the_books:
  assumes "main_run E env sql_Open lib xs w = Some q" and "libraries_lawful lib"
    and "system_inv E (wk_svc main_worker) (db w)" and "solvent (db w)" and "volume (db (pr_world q)) < 2 ^ 63"
  shows "system_inv E (wk_svc main_worker) (db (pr_world q)) \<and>
    batch_inv (wk_svc main_worker) (pr_batch q) (db (pr_world q)) \<and> rbac (db (pr_world q)) = rbac (db w) \<and>
    0 \<le> posted_balance (db (pr_world q)) i \<and> tenant_total (db (pr_world q)) t = tenant_total (db w) t"
proof -
  note moves = main_run_moves [OF assms(1-3)]
  have "ledger_wf (db w)" using assms(3) by (simp add: system_inv_def)
  note inv = ledger_steps_invariants [OF process_steps_ledger [OF conjunct2 [OF moves]] this]
  have "solvent (db (pr_world q))" using inv(3) assms(4,5) by simp
  moreover have "tenant_total (db (pr_world q)) t = tenant_total (db w) t" using inv(5) assms(5) by simp
  ultimately show ?thesis using moves process_steps_rbac [OF conjunct2 [OF moves]] by (simp add: solvent_def process_inv_def)
qed

theorem process_keeps_the_books_witness:
  "\<exists>q. demo_main demo_api [Arrives (demo_call demo_bearer), Served 0] = Some q \<and> volume (db (pr_world q)) = 160 \<and>
     queue_inv (wk_svc main_worker) (db (pr_world q)) \<and> tenant_total (db (pr_world q)) 1 = tenant_total demo_api 1"
proof -
  obtain q where q: "demo_main demo_api [Arrives (demo_call demo_bearer), Served 0] = Some q" "volume (db (pr_world q)) = 160"
    using demo_transfers by auto
  have "db (demo_world demo_api) = demo_api" by (simp add: demo_world_def)
  with process_keeps_the_books [OF q(1) [unfolded demo_main_def] demo_lib_lawful, of 11 1] demo_api_inv(1,2) q
  show ?thesis by (simp add: system_inv_def demo_worker_main)
qed

end
